(* ===== verification/Prelude.thy ===== *)
theory Prelude
  imports Main "HOL-Library.Word" "HOL-Library.List_Lexorder" "HOL-Library.Char_ord"
    "HOL-Library.Sublist"
begin

text \<open>
  Vocabulary shared by every component: the machine types of the Rust source, fallible
  results with the \<open>?\<close> operator, loops that stop at the first error, checked integer
  arithmetic, big-endian byte strings, decimal formatting, and generic facts on lists.
\<close>

unbundle bit_operations_syntax

named_theorems result_simps \<open>characteristic equations of fallible results\<close>
named_theorems codec_simps \<open>round trips of casts, encodings and byte strings\<close>

section \<open>Machine types\<close>

text \<open>
  Unsigned integers are words. An \<open>i64\<close> is an \<open>int\<close> whose range the checked operations
  write out. A \<open>String\<close> is the list of its UTF-8 bytes, each a \<open>char\<close>, so \<open>length\<close> is
  Rust's \<open>len()\<close> and the lexicographic order is both Rust's \<open>Ord for str\<close> and SQLite's
  BINARY collation. \<open>Vec<u8>\<close> is a list of byte words, ordered the same way.
\<close>

type_synonym u8 = "8 word"
type_synonym u32 = "32 word"
type_synonym u64 = "64 word"
type_synonym i64 = int
type_synonym str = string
type_synonym bytes = "u8 list"

definition i64_min :: int where
  "i64_min = - 9223372036854775808"

definition i64_max :: int where
  "i64_max = 9223372036854775807"

definition is_i64 :: "int \<Rightarrow> bool" where
  "is_i64 x \<longleftrightarrow> i64_min \<le> x \<and> x \<le> i64_max"

definition checked_add_i64 :: "int \<Rightarrow> int \<Rightarrow> int option" where
  "checked_add_i64 a b = (if is_i64 (a + b) then Some (a + b) else None)"

definition checked_add_u64 :: "u64 \<Rightarrow> u64 \<Rightarrow> u64 option" where
  "checked_add_u64 a b = (if uint a + uint b < 2 ^ 64 then Some (a + b) else None)"

definition saturating_add_u64 :: "u64 \<Rightarrow> u64 \<Rightarrow> u64" where
  "saturating_add_u64 a b = (if uint a + uint b < 2 ^ 64 then a + b else - 1)"

text \<open>The casts \<open>u64 as i64\<close> and \<open>i64 as u64\<close>, which keep the bit pattern.\<close>

definition u64_as_i64 :: "u64 \<Rightarrow> int" where
  "u64_as_i64 w = sint w"

definition i64_as_u64 :: "int \<Rightarrow> u64" where
  "i64_as_u64 x = word_of_int x"

lemma i64_as_u64_of_u64 [simp, codec_simps]: "i64_as_u64 (u64_as_i64 w) = w"
  by (simp add: i64_as_u64_def u64_as_i64_def)

lemma word_of_int_u64_as_i64 [simp]: "word_of_int (u64_as_i64 w) = w"
  by (simp add: u64_as_i64_def)

lemma u64_as_i64_of_i64 [codec_simps]: "is_i64 x \<Longrightarrow> u64_as_i64 (i64_as_u64 x) = x"
  by (simp add: i64_as_u64_def u64_as_i64_def is_i64_def i64_min_def i64_max_def
      sint_sbintrunc' signed_take_bit_int_eq_self)

lemma is_i64_of_u64 [simp]: "is_i64 (u64_as_i64 w)"
  using sint_range_size [of w]
  by (simp add: is_i64_def u64_as_i64_def i64_min_def i64_max_def word_size)

lemma u64_as_i64_inject [simp]: "u64_as_i64 a = u64_as_i64 b \<longleftrightarrow> a = b"
  by (metis i64_as_u64_of_u64)

lemma u64_as_i64_small: "uint w < 2 ^ 63 \<Longrightarrow> u64_as_i64 w = uint w"
  by (simp add: u64_as_i64_def sint_uint signed_take_bit_int_eq_self_iff order_trans [of _ 0])

lemma u64_as_i64_big:
  assumes "2 ^ 63 \<le> uint w"
  shows "u64_as_i64 w = uint w - 2 ^ 64"
proof -
  have "(uint w + 2 ^ 63) mod 2 ^ 64 = uint w + 2 ^ 63 - 2 ^ 64"
    using assms uint_lt2p [of w] mod_add_self2 [of "uint w + 2 ^ 63 - 2 ^ 64" "2 ^ 64 :: int"]
    by (simp add: mod_pos_pos_trivial add.commute del: mod_add_self2)
  then show ?thesis
    by (simp add: u64_as_i64_def sint_uint signed_take_bit_eq_take_bit_shift take_bit_eq_mod)
qed

lemma checked_add_u64_Some:
  "checked_add_u64 a b = Some c \<Longrightarrow> uint c = uint a + uint b"
  by (auto simp: checked_add_u64_def uint_word_ariths split: if_splits)

lemma u64_succ_iff: "v = w + 1 \<and> v \<noteq> 0 \<longleftrightarrow> uint v = uint w + 1" for v w :: u64
proof (cases "uint w + 1 < 2 ^ 64")
  case True
  then have eq: "uint (w + 1) = uint w + 1"
    using uint_ge_0 [of w] by (simp add: uint_word_ariths)
  show ?thesis
  proof
    assume "uint v = uint w + 1"
    then have "v = w + 1" using eq by (simp add: word_uint_eq_iff)
    moreover have "uint v \<noteq> 0"
      using \<open>uint v = uint w + 1\<close> uint_ge_0 [of w] by linarith
    ultimately show "v = w + 1 \<and> v \<noteq> 0" by auto
  qed (use eq in simp)
next
  case False
  then have "uint w + 1 = 2 ^ 64" using uint_lt2p [of w] by simp
  then have "uint (w + 1) = 0" by (simp add: uint_word_ariths)
  then have "w + 1 = 0" by (simp add: word_uint_eq_iff)
  moreover have "uint v < 2 ^ 64" using uint_lt2p [of v] by simp
  ultimately show ?thesis using False by auto
qed

section \<open>Fallible results\<close>

text \<open>A \<open>Result<T, E>\<close> is \<open>E + T\<close>; \<open>and_then\<close> is the \<open>?\<close> operator.\<close>

definition and_then :: "'e + 'a \<Rightarrow> ('a \<Rightarrow> 'e + 'b) \<Rightarrow> 'e + 'b" where
  "and_then m f = (case m of Inl e \<Rightarrow> Inl e | Inr x \<Rightarrow> f x)"

definition map_err :: "('e \<Rightarrow> 'f) \<Rightarrow> 'e + 'a \<Rightarrow> 'f + 'a" where
  "map_err g m = (case m of Inl e \<Rightarrow> Inl (g e) | Inr x \<Rightarrow> Inr x)"

definition ok_or :: "'a option \<Rightarrow> 'e \<Rightarrow> 'e + 'a" where
  "ok_or m e = (case m of None \<Rightarrow> Inl e | Some x \<Rightarrow> Inr x)"

definition guard :: "bool \<Rightarrow> 'e \<Rightarrow> 'e + unit" where
  "guard b e = (if b then Inr () else Inl e)"

text \<open>A loop whose body may fail: the first error ends it.\<close>

fun fold_res :: "('x \<Rightarrow> 's \<Rightarrow> 'e + 's) \<Rightarrow> 'x list \<Rightarrow> 's \<Rightarrow> 'e + 's" where
  "fold_res f [] s = Inr s"
| "fold_res f (x # xs) s = and_then (f x s) (fold_res f xs)"

text \<open>A loop that only checks its elements.\<close>

fun all_ok :: "('x \<Rightarrow> 'e + unit) \<Rightarrow> 'x list \<Rightarrow> 'e + unit" where
  "all_ok f [] = Inr ()"
| "all_ok f (x # xs) = and_then (f x) (\<lambda>_. all_ok f xs)"

lemma and_then_simps [simp]:
  "and_then (Inl e) f = Inl e"
  "and_then (Inr x) f = f x"
  by (simp_all add: and_then_def)

lemma and_then_Inr_iff [result_simps]:
  "and_then m f = Inr y \<longleftrightarrow> (\<exists>x. m = Inr x \<and> f x = Inr y)"
  by (cases m) auto

lemma and_then_Inl_iff [result_simps]:
  "and_then m f = Inl e \<longleftrightarrow> m = Inl e \<or> (\<exists>x. m = Inr x \<and> f x = Inl e)"
  by (cases m) auto

lemma map_err_simps [simp]:
  "map_err g (Inl e) = Inl (g e)"
  "map_err g (Inr x) = Inr x"
  by (simp_all add: map_err_def)

lemma map_err_Inr_iff [simp, result_simps]: "map_err g m = Inr y \<longleftrightarrow> m = Inr y"
  by (cases m) auto

lemma map_err_Inl_iff [result_simps]: "map_err g m = Inl y \<longleftrightarrow> (\<exists>e. m = Inl e \<and> y = g e)"
  by (cases m) auto

lemma ok_or_simps [simp]:
  "ok_or None e = Inl e"
  "ok_or (Some x) e = Inr x"
  by (simp_all add: ok_or_def)

lemma ok_or_iff [simp, result_simps]:
  "ok_or m e = Inr y \<longleftrightarrow> m = Some y"
  "ok_or m e = Inl e' \<longleftrightarrow> m = None \<and> e' = e"
  by (cases m; auto)+

lemma guard_iff [simp, result_simps]:
  "guard b e = Inr u \<longleftrightarrow> b"
  "guard b e = Inl e' \<longleftrightarrow> \<not> b \<and> e' = e"
  by (auto simp: guard_def)

lemma guard_simps [simp]:
  "guard True e = Inr ()"
  "guard False e = Inl e"
  by (simp_all add: guard_def)

lemma all_ok_iff [result_simps]: "all_ok f xs = Inr u \<longleftrightarrow> (\<forall>x \<in> set xs. f x = Inr ())"
  by (induction xs) (auto simp: and_then_Inr_iff)

lemma fold_res_append:
  "fold_res f (xs @ ys) s = and_then (fold_res f xs s) (fold_res f ys)"
  by (induction xs arbitrary: s) (auto simp: and_then_def split: sum.splits)

text \<open>The rule of invariants for a fallible loop.\<close>

lemma fold_res_invariant:
  assumes "fold_res f xs s = Inr t"
    and "I s"
    and "\<And>x s s'. x \<in> set xs \<Longrightarrow> I s \<Longrightarrow> f x s = Inr s' \<Longrightarrow> I s'"
  shows "I t"
  using assms
proof (induction xs arbitrary: s)
  case (Cons x xs)
  then obtain s' where "f x s = Inr s'" and rest: "fold_res f xs s' = Inr t"
    by (auto simp: and_then_Inr_iff)
  with Cons.prems have "I s'" by (meson list.set_intros(1))
  with rest show ?case using Cons.IH Cons.prems(3) by (meson list.set_intros(2))
qed simp

text \<open>
  The contract of a loop body that may fail: it keeps an invariant and every step is related to
  the next by a preorder. The loop then does both.
\<close>

locale fallible_loop =
  fixes body :: "'x \<Rightarrow> 's \<Rightarrow> 'e + 's"
    and inv :: "'s \<Rightarrow> bool"
    and rel :: "'s \<Rightarrow> 's \<Rightarrow> bool"
  assumes body_step: "inv s \<Longrightarrow> body x s = Inr s' \<Longrightarrow> inv s' \<and> rel s s'"
    and rel_refl: "rel s s"
    and rel_trans: "rel s s' \<Longrightarrow> rel s' s'' \<Longrightarrow> rel s s''"
begin

lemma loop: "inv s \<Longrightarrow> fold_res body xs s = Inr s' \<Longrightarrow> inv s' \<and> rel s s'"
proof (induction xs arbitrary: s)
  case Nil
  then show ?case by (simp add: rel_refl)
next
  case (Cons x xs)
  then obtain t where "body x s = Inr t" "fold_res body xs t = Inr s'"
    by (auto simp: and_then_Inr_iff)
  with Cons.prems(1) body_step have "inv t" "rel s t" by blast+
  with Cons.IH \<open>fold_res body xs t = Inr s'\<close> rel_trans show ?case by blast
qed

end

section \<open>Lists\<close>

lemma find_append: "find P (xs @ ys) = (case find P xs of None \<Rightarrow> find P ys | Some x \<Rightarrow> Some x)"
  by (induction xs) auto

lemma find_SomeD: "find P xs = Some x \<Longrightarrow> x \<in> set xs \<and> P x"
  by (induction xs) (auto split: if_splits)

text \<open>In a list whose keys are distinct, \<open>find\<close> by key is membership.\<close>

lemma find_key_iff:
  "distinct (map key xs) \<Longrightarrow> find (\<lambda>x. key x = k) xs = Some y \<longleftrightarrow> y \<in> set xs \<and> key y = k"
proof (induction xs)
  case (Cons x xs)
  then show ?case by (cases "key x = k") (auto, metis imageI)
qed simp

lemma find_key_None: "find (\<lambda>x. key x = k) xs = None \<longleftrightarrow> k \<notin> key ` set xs"
  by (auto simp: find_None_iff image_iff)

section \<open>Big-endian byte strings\<close>

text \<open>
  \<open>be_digits k n\<close> is the number \<open>n mod 256 ^ k\<close> as \<open>k\<close> bytes, most significant first:
  what \<open>to_be_bytes\<close> returns for an integer of \<open>k\<close> bytes. \<open>be_nat\<close> reads them back.
\<close>

fun be_digits :: "nat \<Rightarrow> nat \<Rightarrow> bytes" where
  "be_digits 0 n = []"
| "be_digits (Suc k) n = be_digits k (n div 256) @ [of_nat n]"

definition be_nat :: "bytes \<Rightarrow> nat" where
  "be_nat bs = foldl (\<lambda>acc b. acc * 256 + unat b) 0 bs"

definition to_be_bytes :: "'a::len word \<Rightarrow> bytes" where
  "to_be_bytes w = be_digits (LENGTH('a) div 8) (unat w)"

definition from_be_bytes :: "bytes \<Rightarrow> 'a::len word" where
  "from_be_bytes bs = of_nat (be_nat bs)"

text \<open>An \<open>i64\<close> is written as its two's complement bit pattern.\<close>

definition i64_to_be_bytes :: "int \<Rightarrow> bytes" where
  "i64_to_be_bytes x = to_be_bytes (i64_as_u64 x)"

lemma length_be_digits [simp]: "length (be_digits k n) = k"
  by (induction k arbitrary: n) auto

lemma be_nat_Nil [simp]: "be_nat [] = 0"
  by (simp add: be_nat_def)

lemma be_nat_snoc [simp]: "be_nat (bs @ [b]) = be_nat bs * 256 + unat b"
  by (simp add: be_nat_def)

lemma be_nat_digits: "be_nat (be_digits k n) = n mod 256 ^ k"
proof (induction k arbitrary: n)
  case (Suc k)
  have "unat (of_nat n :: u8) = n mod 256"
    by (simp add: unat_of_nat)
  then show ?case
    using Suc [of "n div 256"] by (simp add: mod_mult2_eq [of n 256 "256 ^ k"])
qed simp

lemma be_digits_nat: "be_digits (length bs) (be_nat bs) = bs"
proof (induction bs rule: rev_induct)
  case (snoc b bs)
  have "(be_nat bs * 256 + unat b) div 256 = be_nat bs"
    using unsigned_less [of b, where ?'a = nat] by simp
  moreover have "(of_nat (be_nat bs * 256 + unat b) :: u8) = b"
    using unsigned_less [of b, where ?'a = nat]
    by (simp add: word_unat_eq_iff unat_of_nat mod_mult_self4 del: of_nat_add of_nat_mult)
  ultimately show ?case using snoc by simp
qed simp

lemma be_nat_bound: "be_nat bs < 256 ^ length bs"
  using be_nat_digits [of "length bs" "be_nat bs"]
  by (metis be_digits_nat mod_less_divisor zero_less_numeral zero_less_power)

lemma be_digits_inject:
  "m < 256 ^ k \<Longrightarrow> n < 256 ^ k \<Longrightarrow> be_digits k m = be_digits k n \<longleftrightarrow> m = n"
  by (metis be_nat_digits mod_less)

lemma length_to_be_bytes [simp]:
  "length (to_be_bytes (w :: 'a::len word)) = LENGTH('a) div 8"
  by (simp add: to_be_bytes_def)

lemma from_to_be_bytes_u64 [simp, codec_simps]: "from_be_bytes (to_be_bytes w) = (w :: u64)"
  using unsigned_less [of w, where ?'a = nat] by (simp add: from_be_bytes_def to_be_bytes_def be_nat_digits)

lemma from_to_be_bytes_u32 [simp, codec_simps]: "from_be_bytes (to_be_bytes w) = (w :: u32)"
  using unsigned_less [of w, where ?'a = nat] by (simp add: from_be_bytes_def to_be_bytes_def be_nat_digits)

lemma from_to_be_bytes_u128 [simp, codec_simps]: "from_be_bytes (to_be_bytes w) = (w :: 128 word)"
  using unsigned_less [of w, where ?'a = nat] by (simp add: from_be_bytes_def to_be_bytes_def be_nat_digits)

lemma to_from_be_bytes_u128 [codec_simps]:
  assumes "length bs = 16"
  shows "to_be_bytes (from_be_bytes bs :: 128 word) = bs"
proof -
  have "be_nat bs < 2 ^ 128"
    using be_nat_bound [of bs] assms by simp
  then have "unat (from_be_bytes bs :: 128 word) = be_nat bs"
    by (simp add: from_be_bytes_def unat_of_nat)
  then show ?thesis
    using be_digits_nat [of bs] assms by (simp add: to_be_bytes_def)
qed

section \<open>Decimal formatting\<close>

fun dec_digits :: "nat \<Rightarrow> str" where
  "dec_digits n =
     (if n < 10 then [char_of (48 + n)] else dec_digits (n div 10) @ [char_of (48 + n mod 10)])"

declare dec_digits.simps [simp del]

definition show_nat :: "nat \<Rightarrow> str" where
  "show_nat n = dec_digits n"

definition show_int :: "int \<Rightarrow> str" where
  "show_int x = (if x < 0 then ''-'' @ dec_digits (nat (- x)) else dec_digits (nat x))"

definition show_u64 :: "u64 \<Rightarrow> str" where
  "show_u64 w = show_nat (unat w)"

definition str_bytes :: "str \<Rightarrow> bytes" where
  "str_bytes s = map of_char s"

lemma length_str_bytes [simp]: "length (str_bytes s) = length s"
  by (simp add: str_bytes_def)

lemma of_char_u8_inject: "(of_char c :: u8) = of_char d \<longleftrightarrow> c = d"
proof
  assume "(of_char c :: u8) = of_char d"
  then have "unat (of_nat (of_char c) :: u8) = unat (of_nat (of_char d) :: u8)"
    by (metis of_nat_of_char)
  then have "(of_char c :: nat) = of_char d"
    by (simp add: unat_of_nat)
  then show "c = d" by simp
qed simp

lemma str_bytes_inject [simp]: "str_bytes s = str_bytes t \<longleftrightarrow> s = t"
  by (auto simp: str_bytes_def inj_map_eq_map inj_def of_char_u8_inject)

end
