(* ===== verification/Ids.thy ===== *)
theory Ids
  imports Prelude
begin

text \<open>
  Identifiers (\<open>src/id.rs\<close>): the 128-bit \<open>Id\<close>, its byte and hexadecimal forms and its order.
  \<open>Id([u8; 16])\<close> is held as the 128-bit word whose big-endian bytes are the array; the map
  between the two is a bijection (\<open>as_from_bytes\<close>, \<open>from_as_bytes\<close>) and the derived
  lexicographic \<open>Ord\<close> is the order on the bytes. \<open>Id::new\<close> needs the error type and is in
  the theory of the errors.
\<close>

datatype Id = MkId (id_word: "128 word")

definition ZERO :: Id where
  "ZERO = MkId 0"

definition as_bytes :: "Id \<Rightarrow> bytes" where
  "as_bytes i = to_be_bytes (id_word i)"

definition from_bytes :: "bytes \<Rightarrow> Id" where
  "from_bytes bs = MkId (from_be_bytes bs)"

text \<open>\<open>impl From<u128> for Id\<close> and back.\<close>

definition id_from_u128 :: "128 word \<Rightarrow> Id" where
  "id_from_u128 v = from_bytes (to_be_bytes v)"

definition u128_from_id :: "Id \<Rightarrow> 128 word" where
  "u128_from_id i = from_be_bytes (as_bytes i)"

section \<open>Hexadecimal form\<close>

datatype InvalidId = InvalidId

definition HEX :: str where
  "HEX = ''0123456789abcdef''"

definition hex_byte :: "u8 \<Rightarrow> str" where
  "hex_byte b = [HEX ! unat (drop_bit 4 b), HEX ! unat (b AND 0xF)]"

definition to_hex :: "Id \<Rightarrow> str" where
  "to_hex i = concat (map hex_byte (as_bytes i))"

definition hex_value :: "u8 \<Rightarrow> u8 option" where
  "hex_value b =
     (if 0x30 \<le> b \<and> b \<le> 0x39 then Some (b - 0x30)
      else if 0x61 \<le> b \<and> b \<le> 0x66 then Some (b - 0x61 + 10)
      else if 0x41 \<le> b \<and> b \<le> 0x46 then Some (b - 0x41 + 10)
      else None)"

text \<open>The whole 2-byte chunks of a slice (\<open>as_chunks::<2>().0\<close>).\<close>

fun chunks2 :: "'a list \<Rightarrow> ('a \<times> 'a) list" where
  "chunks2 (x # y # zs) = (x, y) # chunks2 zs"
| "chunks2 zs = []"

fun hex_chunks :: "(u8 \<times> u8) list \<Rightarrow> InvalidId + bytes" where
  "hex_chunks [] = Inr []"
| "hex_chunks ((h, l) # cs) =
     and_then (ok_or (hex_value h) InvalidId) (\<lambda>high.
     and_then (ok_or (hex_value l) InvalidId) (\<lambda>low.
     and_then (hex_chunks cs) (\<lambda>bs.
       Inr ((push_bit 4 high OR low) # bs))))"

definition from_hex :: "str \<Rightarrow> InvalidId + Id" where
  "from_hex s =
     (if length s \<noteq> 32 then Inl InvalidId
      else and_then (hex_chunks (chunks2 (str_bytes s))) (\<lambda>bs. Inr (from_bytes bs)))"

section \<open>Bytes\<close>

lemma length_as_bytes [simp]: "length (as_bytes i) = 16"
  by (simp add: as_bytes_def)

lemma from_as_bytes [simp, codec_simps]: "from_bytes (as_bytes i) = i"
  by (simp add: from_bytes_def as_bytes_def)

lemma as_from_bytes [codec_simps]: "length bs = 16 \<Longrightarrow> as_bytes (from_bytes bs) = bs"
  by (simp add: from_bytes_def as_bytes_def to_from_be_bytes_u128)

lemma as_bytes_inject [simp]: "as_bytes i = as_bytes j \<longleftrightarrow> i = j"
  by (metis from_as_bytes)

lemma from_bytes_replicate_0: "from_bytes (replicate 16 0) = ZERO"
proof -
  have "be_nat (replicate n 0) = 0" for n
    by (induction n) (simp_all add: be_nat_def)
  then show ?thesis by (simp add: from_bytes_def from_be_bytes_def ZERO_def)
qed

lemma as_bytes_ZERO: "as_bytes ZERO = replicate 16 0"
  by (metis as_from_bytes from_bytes_replicate_0 length_replicate)

lemma id_from_u128_MkId [simp]: "id_from_u128 v = MkId v"
  by (simp add: id_from_u128_def from_bytes_def)

lemma u128_from_id_word [simp]: "u128_from_id i = id_word i"
  by (simp add: u128_from_id_def as_bytes_def)

section \<open>The order\<close>

text \<open>The derived \<open>Ord\<close>: lexicographic on the sixteen bytes.\<close>

instantiation Id :: linorder
begin

definition less_eq_Id :: "Id \<Rightarrow> Id \<Rightarrow> bool" where
  "less_eq_Id i j \<longleftrightarrow> as_bytes i \<le> as_bytes j"

definition less_Id :: "Id \<Rightarrow> Id \<Rightarrow> bool" where
  "less_Id i j \<longleftrightarrow> as_bytes i < as_bytes j"

instance
  by standard (auto simp: less_eq_Id_def less_Id_def less_le_not_le dest: order_antisym order_trans)

end

lemma be_nat_Cons: "be_nat (b # bs) = unat b * 256 ^ length bs + be_nat bs"
  by (induction bs rule: rev_induct) (auto simp: algebra_simps be_nat_def)

lemma be_nat_less_iff:
  "length bs = length cs \<Longrightarrow> be_nat bs < be_nat cs \<longleftrightarrow> bs < cs"
proof (induction bs cs rule: list_induct2)
  case (Cons b bs c cs)
  let ?k = "256 ^ length bs :: nat"
  have bounds: "be_nat bs < ?k" "be_nat cs < ?k"
    using be_nat_bound [of bs] be_nat_bound [of cs] Cons.hyps by simp_all
  consider "unat b < unat c" | "unat b = unat c" | "unat c < unat b" by linarith
  then show ?case
  proof cases
    case 1
    then have "(unat b + 1) * ?k \<le> unat c * ?k" by (intro mult_right_mono) auto
    with 1 bounds show ?thesis
      by (simp add: be_nat_Cons Cons.hyps word_less_nat_alt)
  next
    case 2
    then have "b = c" by (simp add: word_unat_eq_iff)
    with Cons.IH Cons.hyps show ?thesis by (simp add: be_nat_Cons)
  next
    case 3
    then have "(unat c + 1) * ?k \<le> unat b * ?k" by (intro mult_right_mono) auto
    with 3 bounds show ?thesis
      by (auto simp: be_nat_Cons Cons.hyps word_less_nat_alt)
  qed
qed simp

lemma less_Id_word: "i < j \<longleftrightarrow> id_word i < id_word j"
proof -
  have "be_nat (as_bytes k) = unat (id_word k)" for k :: Id
    using unsigned_less [of "id_word k", where ?'a = nat]
    by (simp add: as_bytes_def to_be_bytes_def be_nat_digits)
  then show ?thesis
    using be_nat_less_iff [of "as_bytes i" "as_bytes j"]
    by (simp add: less_Id_def word_less_nat_alt)
qed

lemma less_eq_Id_word: "i \<le> j \<longleftrightarrow> id_word i \<le> id_word j"
  by (metis Id.expand less_Id_word linorder_not_less order_le_less)

section \<open>Hexadecimal round trip\<close>

lemma nibbles:
  fixes n :: u8
  assumes "n < 16"
  shows "n \<in> {0, 1, 2, 3, 4, 5, 6, 7, 8, 9, 10, 11, 12, 13, 14, 15}"
proof -
  have "unat n < 16" using assms by (simp add: word_less_nat_alt)
  then have "unat n \<in> {0, 1, 2, 3, 4, 5, 6, 7, 8, 9, 10, 11, 12, 13, 14, 15}"
    by simp presburger
  then show ?thesis by (auto simp: word_unat_eq_iff)
qed

lemma nibble_cases: "(n :: u8) < 16 \<Longrightarrow> hex_value (of_char (HEX ! unat n)) = Some n"
  by (drule nibbles) (elim insertE emptyE; simp add: hex_value_def HEX_def)

lemma nibble_bounds: "drop_bit 4 (b :: u8) < 16" "(b :: u8) AND 0xF < 16"
proof -
  have "unat b div 16 < 16" using unsigned_less [of b, where ?'a = nat] by simp
  then show "drop_bit 4 b < 16"
    by (simp add: word_less_nat_alt drop_bit_eq_div unat_div)
  have "b AND 0xF \<le> 0xF" by (rule word_and_le1)
  then show "b AND 0xF < 16" by (simp add: word_le_nat_alt word_less_nat_alt)
qed

lemma nibbles_join: "push_bit 4 (drop_bit 4 b) OR (b AND 0xF) = (b :: u8)"
proof -
  have "(0xF :: u8) = mask 4" by (simp add: mask_eq_exp_minus_1)
  then show ?thesis
    by (simp add: bit_eq_iff bit_simps) (auto simp: not_le)
qed

lemma hex_byte_nibbles:
  "hex_value (of_char (HEX ! unat (drop_bit 4 (b :: u8)))) = Some (drop_bit 4 b)"
  "hex_value (of_char (HEX ! unat (b AND 0xF))) = Some (b AND 0xF)"
  using nibble_bounds [of b] by (simp_all add: nibble_cases)

lemma hex_chunks_hex_bytes:
  "hex_chunks (chunks2 (str_bytes (concat (map hex_byte bs)))) = Inr bs"
  by (induction bs) (simp_all add: hex_byte_def str_bytes_def hex_byte_nibbles nibbles_join)

lemma length_to_hex [simp]: "length (to_hex i) = 32"
proof -
  have "length (concat (map hex_byte bs)) = 2 * length bs" for bs
    by (induction bs) (simp_all add: hex_byte_def)
  then show ?thesis by (simp add: to_hex_def)
qed

text \<open>Printing an identifier and parsing the text back gives the identifier.\<close>

theorem from_hex_to_hex: "from_hex (to_hex i) = Inr i"
proof -
  have "hex_chunks (chunks2 (str_bytes (to_hex i))) = Inr (as_bytes i)"
    by (simp add: to_hex_def hex_chunks_hex_bytes)
  then show ?thesis
    by (simp add: from_hex_def)
qed

text \<open>
  The derived lexicographic order on the sixteen bytes is the numeric order of the
  \<open>u128\<close> the identifier was built from, and the conversion loses nothing.
\<close>

theorem id_order_numeric:
  "(id_from_u128 v < id_from_u128 w \<longleftrightarrow> v < w) \<and> u128_from_id (id_from_u128 v) = v \<and>
   id_from_u128 (u128_from_id i) = i \<and> as_bytes (id_from_u128 v) = to_be_bytes v"
  by (simp add: less_Id_word as_bytes_def)

end
