(* ===== verification/JobStates.thy ===== *)
theory JobStates
  imports Prelude
begin

text \<open>
  The job state machine of \<open>src/jobs.rs\<close>: the states, their stable encodings and names, the
  terminal states and the transition table.
\<close>

datatype JobState = Pending | Leased | RetryWait | Uncertain | Succeeded | Dead | Cancelled

fun state_encode :: "JobState \<Rightarrow> int" where
  "state_encode Pending = 0"
| "state_encode Leased = 1"
| "state_encode RetryWait = 2"
| "state_encode Uncertain = 3"
| "state_encode Succeeded = 4"
| "state_encode Dead = 5"
| "state_encode Cancelled = 6"

fun job_state_name :: "JobState \<Rightarrow> str" where
  "job_state_name Pending = ''pending''"
| "job_state_name Leased = ''leased''"
| "job_state_name RetryWait = ''retry_wait''"
| "job_state_name Uncertain = ''uncertain''"
| "job_state_name Succeeded = ''succeeded''"
| "job_state_name Dead = ''dead''"
| "job_state_name Cancelled = ''cancelled''"

definition state_decode :: "int \<Rightarrow> JobState option" where
  "state_decode v =
     (if v = 0 then Some Pending
      else if v = 1 then Some Leased
      else if v = 2 then Some RetryWait
      else if v = 3 then Some Uncertain
      else if v = 4 then Some Succeeded
      else if v = 5 then Some Dead
      else if v = 6 then Some Cancelled
      else None)"

definition is_terminal :: "JobState \<Rightarrow> bool" where
  "is_terminal s \<longleftrightarrow> s \<in> {Succeeded, Dead, Cancelled}"

definition can_transition_to :: "JobState \<Rightarrow> JobState \<Rightarrow> bool" where
  "can_transition_to s t \<longleftrightarrow>
     (s, t) \<in> {(Pending, Leased), (Pending, Cancelled), (RetryWait, Leased),
               (Leased, Succeeded), (Leased, RetryWait), (Leased, Dead), (Leased, Cancelled),
               (Leased, Uncertain), (Leased, Pending), (Leased, Leased),
               (Uncertain, Pending), (Uncertain, Succeeded), (Uncertain, Dead)}"

text \<open>The \<open>Debug\<close> rendering used in conflict messages.\<close>

fun state_debug :: "JobState \<Rightarrow> str" where
  "state_debug Pending = ''Pending''"
| "state_debug Leased = ''Leased''"
| "state_debug RetryWait = ''RetryWait''"
| "state_debug Uncertain = ''Uncertain''"
| "state_debug Succeeded = ''Succeeded''"
| "state_debug Dead = ''Dead''"
| "state_debug Cancelled = ''Cancelled''"

lemma is_terminal_simps [simp]:
  "is_terminal Succeeded" "is_terminal Dead" "is_terminal Cancelled"
  "\<not> is_terminal Pending" "\<not> is_terminal Leased" "\<not> is_terminal RetryWait" "\<not> is_terminal Uncertain"
  by (simp_all add: is_terminal_def)

lemma state_decode_encode [simp, codec_simps]: "state_decode (state_encode s) = Some s"
  by (cases s) (simp_all add: state_decode_def)

lemma state_decode_Some_iff: "state_decode v = Some s \<longleftrightarrow> v = state_encode s"
  by (cases s) (auto simp: state_decode_def split: if_splits)

lemma state_encode_inject [simp]: "state_encode s = state_encode t \<longleftrightarrow> s = t"
  by (metis option.inject state_decode_encode)

text \<open>What a successful \<open>ensure_transition\<close> to each target says of the source state.\<close>

lemma can_transition_iff [simp]:
  "can_transition_to s Pending \<longleftrightarrow> s = Leased \<or> s = Uncertain"
  "can_transition_to s Leased \<longleftrightarrow> s = Pending \<or> s = RetryWait \<or> s = Leased"
  "can_transition_to s RetryWait \<longleftrightarrow> s = Leased"
  "can_transition_to s Uncertain \<longleftrightarrow> s = Leased"
  "can_transition_to s Succeeded \<longleftrightarrow> s = Leased \<or> s = Uncertain"
  "can_transition_to s Dead \<longleftrightarrow> s = Leased \<or> s = Uncertain"
  "can_transition_to s Cancelled \<longleftrightarrow> s = Pending \<or> s = Leased"
  by (cases s; simp add: can_transition_to_def)+

lemma transition_from_nonterminal: "can_transition_to s t \<Longrightarrow> \<not> is_terminal s"
  by (cases s) (simp_all add: can_transition_to_def)

text \<open>The reflexive transitive closure of the table: what a job can become over time.\<close>

inductive job_path :: "JobState \<Rightarrow> JobState \<Rightarrow> bool" where
  job_path_refl: "job_path s s"
| job_path_step: "job_path s t \<Longrightarrow> can_transition_to t u \<Longrightarrow> job_path s u"

lemma job_path_trans: "job_path t u \<Longrightarrow> job_path s t \<Longrightarrow> job_path s u"
  by (induction rule: job_path.induct) (auto intro: job_path.intros)

lemma job_path_terminal: "job_path s t \<Longrightarrow> is_terminal s \<Longrightarrow> t = s"
proof (induction rule: job_path.induct)
  case (job_path_step s t u)
  then show ?case using transition_from_nonterminal [of t u] by auto
qed simp

end
