(* ===== verification/Errors.thy ===== *)
theory Errors
  imports Ids JobStates
begin

text \<open>
  The error types of \<open>src/error.rs\<close>, the conversions between them and their \<open>Display\<close>
  texts, and \<open>Id::new\<close>, which needs them.

  An error the driver reports is kept by its cause: a constraint of the schema that a
  statement violates, an integer result outside the column type, or a text (the driver's own
  for a failure of the environment, the program's for a corrupt value). The texts the driver
  gives to constraint failures are not part of the source: \<open>Display\<close> takes them as the
  parameter \<open>drv\<close>.
\<close>

datatype Constraint = Unique str | ForeignKey str | Check str | Overflow str

datatype SqliteError = ConstraintFailed Constraint | SqliteText str

datatype StorageError =
    Io str
  | Sqlite SqliteError
  | MigrationChecksumMismatch u32
  | SchemaTooNew u32 u32

datatype ValidationError = ValidationError str

datatype LeaseConflict =
    JobNotFound Id
  | InvalidToken Id
  | NotLeased Id JobState
  | ExpiryNotLater Id int int
  | Expired Id int int

datatype Conflict =
    StreamVersionConflict str u64 u64
  | ProjectionVersionConflict str u64 u64
  | JobTransition Id JobState JobState
  | LeaseConflict LeaseConflict

datatype Error =
    Error_Storage StorageError
  | Error_Validation ValidationError
  | Error_Conflict Conflict

record IndeterminateCommit =
  ic_transaction_id :: Id
  ic_storage_error :: str

datatype CommitError =
    Commit_Conflict Conflict
  | Commit_Validation ValidationError
  | DuplicateIdWithDifferentContent
  | Commit_Indeterminate IndeterminateCommit
  | Commit_Storage StorageError

record IndeterminateClaim =
  ix_transaction_id :: Id
  ix_proposed_jobs :: "Id list"
  ix_storage_error :: str

datatype ClaimError =
    Claim_Indeterminate IndeterminateClaim
  | Claim_Validation ValidationError
  | Claim_Conflict Conflict
  | Claim_Storage StorageError

datatype RecoveryError = Recovery_Storage StorageError

record IndeterminateLease =
  il_job_id :: Id
  il_storage_error :: str

datatype LeaseError =
    Lease_Conflict LeaseConflict
  | Lease_Indeterminate IndeterminateLease
  | Lease_Storage StorageError

section \<open>Conversions\<close>

fun commit_error_of :: "Error \<Rightarrow> CommitError" where
  "commit_error_of (Error_Storage s) = Commit_Storage s"
| "commit_error_of (Error_Validation v) = Commit_Validation v"
| "commit_error_of (Error_Conflict c) = Commit_Conflict c"

section \<open>Display\<close>

type_synonym driver_texts = "Constraint \<Rightarrow> str"

fun show_sqlite :: "driver_texts \<Rightarrow> SqliteError \<Rightarrow> str" where
  "show_sqlite drv (ConstraintFailed c) = drv c"
| "show_sqlite drv (SqliteText msg) = msg"

fun show_storage_error :: "driver_texts \<Rightarrow> StorageError \<Rightarrow> str" where
  "show_storage_error drv (Io msg) = ''io error: '' @ msg"
| "show_storage_error drv (Sqlite e) = ''sqlite error: '' @ show_sqlite drv e"
| "show_storage_error drv (MigrationChecksumMismatch v) =
     ''migration '' @ show_nat (unat v) @ '' checksum mismatch''"
| "show_storage_error drv (SchemaTooNew v s) =
     ''schema version '' @ show_nat (unat v) @ '' is newer than supported '' @ show_nat (unat s)"

fun show_validation_error :: "ValidationError \<Rightarrow> str" where
  "show_validation_error (ValidationError msg) = ''validation error: '' @ msg"

fun show_lease_conflict :: "LeaseConflict \<Rightarrow> str" where
  "show_lease_conflict (JobNotFound i) = ''job '' @ to_hex i @ '' not found''"
| "show_lease_conflict (InvalidToken i) = ''invalid lease token for job '' @ to_hex i"
| "show_lease_conflict (NotLeased i s) =
     ''job '' @ to_hex i @ '' is not leased (state '' @ state_debug s @ '')''"
| "show_lease_conflict (ExpiryNotLater i current requested) =
     ''job '' @ to_hex i @ '' lease expiry '' @ show_int requested @ '' is not later than current ''
       @ show_int current"
| "show_lease_conflict (Expired i expires now) =
     ''job '' @ to_hex i @ '' lease expired at '' @ show_int expires @ '' (now '' @ show_int now
       @ ''); an expired lease cannot be extended''"

fun show_conflict :: "Conflict \<Rightarrow> str" where
  "show_conflict (StreamVersionConflict s expected actual) =
     ''stream version conflict for '' @ s @ '': expected '' @ show_u64 expected @ '', actual ''
       @ show_u64 actual"
| "show_conflict (ProjectionVersionConflict p expected actual) =
     ''projection version conflict for '' @ p @ '': expected '' @ show_u64 expected @ '', actual ''
       @ show_u64 actual"
| "show_conflict (JobTransition i s t) =
     ''invalid job transition for '' @ to_hex i @ '': '' @ state_debug s @ '' -> '' @ state_debug t"
| "show_conflict (LeaseConflict e) = show_lease_conflict e"

fun show_error :: "driver_texts \<Rightarrow> Error \<Rightarrow> str" where
  "show_error drv (Error_Storage e) = show_storage_error drv e"
| "show_error drv (Error_Validation e) = show_validation_error e"
| "show_error drv (Error_Conflict e) = show_conflict e"

fun show_commit_error :: "driver_texts \<Rightarrow> CommitError \<Rightarrow> str" where
  "show_commit_error drv (Commit_Conflict e) = show_conflict e"
| "show_commit_error drv (Commit_Validation e) = show_validation_error e"
| "show_commit_error drv DuplicateIdWithDifferentContent =
     ''transaction id reused with different content''"
| "show_commit_error drv (Commit_Indeterminate i) =
     ''commit '' @ to_hex (ic_transaction_id i) @ '' outcome indeterminate; recover_transaction to verify''"
| "show_commit_error drv (Commit_Storage e) = show_storage_error drv e"

fun show_claim_error :: "driver_texts \<Rightarrow> ClaimError \<Rightarrow> str" where
  "show_claim_error drv (Claim_Indeterminate i) =
     ''claim '' @ to_hex (ix_transaction_id i) @ '' outcome indeterminate; recover_claim to verify''"
| "show_claim_error drv (Claim_Validation e) = show_validation_error e"
| "show_claim_error drv (Claim_Conflict e) = show_conflict e"
| "show_claim_error drv (Claim_Storage e) = show_storage_error drv e"

fun show_lease_error :: "driver_texts \<Rightarrow> LeaseError \<Rightarrow> str" where
  "show_lease_error drv (Lease_Conflict e) = show_lease_conflict e"
| "show_lease_error drv (Lease_Indeterminate i) =
     ''lease extension for job '' @ to_hex (il_job_id i)
       @ '' outcome indeterminate; read the job to verify''"
| "show_lease_error drv (Lease_Storage e) = show_storage_error drv e"

fun show_recovery_error :: "driver_texts \<Rightarrow> RecoveryError \<Rightarrow> str" where
  "show_recovery_error drv (Recovery_Storage e) = show_storage_error drv e"

section \<open>New identifiers\<close>

text \<open>
  The operating system's generator (\<open>getrandom\<close>) is a parameter: a draw is sixteen bytes, or
  the text of an entropy failure. A sequence of draws is a function of the number of the draw.
\<close>

datatype draw = Draw bytes | NoEntropy str

type_synonym entropy = "nat \<Rightarrow> draw"

fun id_new :: "draw \<Rightarrow> Error + Id" where
  "id_new (NoEntropy msg) = Inl (Error_Storage (Io msg))"
| "id_new (Draw bs) =
     (if bs = replicate 16 0 then Inr (from_bytes (bs[15 := 1])) else Inr (from_bytes bs))"

lemma id_new_nonzero:
  assumes "id_new d = Inr i" and "\<And>bs. d = Draw bs \<Longrightarrow> length bs = 16"
  shows "i \<noteq> ZERO"
proof (cases d)
  case (Draw bs)
  note zero = as_bytes_ZERO
  have len: "length bs = 16" using assms(2) Draw by simp
  show ?thesis
  proof (cases "bs = replicate 16 0")
    case True
    then have "i = from_bytes (bs[15 := 1])" using assms(1) Draw by simp
    then have "as_bytes i = bs[15 := 1]" using len by (simp add: as_from_bytes)
    then have "as_bytes i ! 15 = 1" using len by simp
    then show ?thesis using zero by auto
  next
    case False
    then have "as_bytes i = bs" using assms(1) Draw len by (auto simp: as_from_bytes)
    then show ?thesis using zero False by auto
  qed
qed (use assms in simp)

end
