(* ===== verification/Config.thy ===== *)
theory Config
  imports Errors
begin

text \<open>
  \<open>src/config.rs\<close>: durability levels, effect modes and the size limits every batch is checked
  against. A \<open>usize\<close> is only compared here, so it is a \<open>nat\<close>.
\<close>

datatype Durability = Strict | Relaxed

fun synchronous_pragma :: "Durability \<Rightarrow> str" where
  "synchronous_pragma Strict = ''FULL''"
| "synchronous_pragma Relaxed = ''NORMAL''"

datatype EffectMode = RequiresReconciliation | ExplicitlyIdempotent

fun effect_encode :: "EffectMode \<Rightarrow> int" where
  "effect_encode RequiresReconciliation = 0"
| "effect_encode ExplicitlyIdempotent = 1"

definition effect_decode :: "int \<Rightarrow> EffectMode option" where
  "effect_decode v =
     (if v = 0 then Some RequiresReconciliation
      else if v = 1 then Some ExplicitlyIdempotent
      else None)"

record Limits =
  max_event_payload :: nat
  max_metadata :: nat
  max_projection_key :: nat
  max_projection_value :: nat
  max_job_payload :: nat
  max_operations_per_commit :: nat
  max_string_len :: nat
  max_summary_len :: nat
  max_replace_entries :: nat

definition default_limits :: Limits where
  "default_limits =
     \<lparr>max_event_payload = push_bit 20 1, max_metadata = push_bit 10 64,
      max_projection_key = push_bit 20 1, max_projection_value = push_bit 20 4,
      max_job_payload = push_bit 20 1, max_operations_per_commit = 1024,
      max_string_len = 4096, max_summary_len = 4096, max_replace_entries = 10000\<rparr>"

definition too_large :: "str \<Rightarrow> nat \<Rightarrow> nat \<Rightarrow> ValidationError" where
  "too_large kind n limit =
     ValidationError (kind @ '' exceeds limit: '' @ show_nat n @ '' > '' @ show_nat limit)"

definition validate_metadata :: "Limits \<Rightarrow> nat \<Rightarrow> ValidationError + unit" where
  "validate_metadata l len =
     (if len > max_metadata l then Inl (too_large ''metadata'' len (max_metadata l)) else Inr ())"

definition validate_event :: "Limits \<Rightarrow> nat \<Rightarrow> nat \<Rightarrow> ValidationError + unit" where
  "validate_event l payload_len metadata_len =
     (if payload_len > max_event_payload l
      then Inl (too_large ''event payload'' payload_len (max_event_payload l))
      else validate_metadata l metadata_len)"

definition validate_projection_key :: "Limits \<Rightarrow> nat \<Rightarrow> ValidationError + unit" where
  "validate_projection_key l len =
     (if len > max_projection_key l
      then Inl (too_large ''projection key'' len (max_projection_key l)) else Inr ())"

definition validate_projection_value :: "Limits \<Rightarrow> nat \<Rightarrow> ValidationError + unit" where
  "validate_projection_value l len =
     (if len > max_projection_value l
      then Inl (too_large ''projection value'' len (max_projection_value l)) else Inr ())"

definition validate_job_payload :: "Limits \<Rightarrow> nat \<Rightarrow> ValidationError + unit" where
  "validate_job_payload l len =
     (if len > max_job_payload l
      then Inl (too_large ''job payload'' len (max_job_payload l)) else Inr ())"

definition validate_string :: "Limits \<Rightarrow> str \<Rightarrow> str \<Rightarrow> ValidationError + unit" where
  "validate_string l field s =
     (if length s > max_string_len l
      then Inl (too_large field (length s) (max_string_len l)) else Inr ())"

definition validate_summary :: "Limits \<Rightarrow> str \<Rightarrow> ValidationError + unit" where
  "validate_summary l s =
     (if length s > max_summary_len l
      then Inl (too_large ''error summary'' (length s) (max_summary_len l)) else Inr ())"

definition validate_limits :: "Limits \<Rightarrow> ValidationError + unit" where
  "validate_limits l =
     (if max_operations_per_commit l = 0
      then Inl (ValidationError ''max_operations_per_commit must be greater than 0'')
      else if max_replace_entries l = 0
      then Inl (ValidationError ''max_replace_entries must be greater than 0'')
      else Inr ())"

lemma effect_decode_encode [simp, codec_simps]: "effect_decode (effect_encode m) = Some m"
  by (cases m) (simp_all add: effect_decode_def)

lemma effect_encode_inject [simp]: "effect_encode m = effect_encode n \<longleftrightarrow> m = n"
  by (metis effect_decode_encode option.inject)

text \<open>Every check accepts exactly the sizes within its limit.\<close>

lemma validate_ok_iff [simp, result_simps]:
  "validate_metadata l n = Inr u \<longleftrightarrow> n \<le> max_metadata l"
  "validate_event l n m = Inr u \<longleftrightarrow> n \<le> max_event_payload l \<and> m \<le> max_metadata l"
  "validate_projection_key l n = Inr u \<longleftrightarrow> n \<le> max_projection_key l"
  "validate_projection_value l n = Inr u \<longleftrightarrow> n \<le> max_projection_value l"
  "validate_job_payload l n = Inr u \<longleftrightarrow> n \<le> max_job_payload l"
  "validate_string l f s = Inr u \<longleftrightarrow> length s \<le> max_string_len l"
  "validate_summary l s = Inr u \<longleftrightarrow> length s \<le> max_summary_len l"
  "validate_limits l = Inr u \<longleftrightarrow> 0 < max_operations_per_commit l \<and> 0 < max_replace_entries l"
  by (auto simp: validate_metadata_def validate_event_def validate_projection_key_def
      validate_projection_value_def validate_job_payload_def validate_string_def
      validate_summary_def validate_limits_def)

end
