(* ===== verification/JobTypes.thy ===== *)
theory JobTypes
  imports Config
begin

text \<open>
  The job types of \<open>src/jobs.rs\<close>: the specification of a job and its builders, the snapshot
  of a stored job, claim requests and outcomes, and the job operations of a batch.
\<close>

record JobSpec =
  js_job_id :: Id
  js_queue :: str
  js_partition_key :: str
  js_payload :: bytes
  js_not_before_ms :: i64
  js_max_attempts :: u32
  js_effect_mode :: EffectMode
  js_idempotency_key :: "str option"

definition job_base ::
    "Id \<Rightarrow> str \<Rightarrow> str \<Rightarrow> bytes \<Rightarrow> EffectMode \<Rightarrow> str option \<Rightarrow> JobSpec" where
  "job_base job_id queue partition_key payload effect_mode key =
     \<lparr>js_job_id = job_id, js_queue = queue, js_partition_key = partition_key,
      js_payload = payload, js_not_before_ms = 0, js_max_attempts = 3,
      js_effect_mode = effect_mode, js_idempotency_key = key\<rparr>"

definition reconcilable :: "Id \<Rightarrow> str \<Rightarrow> str \<Rightarrow> bytes \<Rightarrow> JobSpec" where
  "reconcilable job_id queue partition_key payload =
     job_base job_id queue partition_key payload RequiresReconciliation None"

definition idempotent :: "Id \<Rightarrow> str \<Rightarrow> str \<Rightarrow> bytes \<Rightarrow> str \<Rightarrow> JobSpec" where
  "idempotent job_id queue partition_key payload key =
     job_base job_id queue partition_key payload ExplicitlyIdempotent (Some key)"

definition intrinsically_idempotent :: "Id \<Rightarrow> str \<Rightarrow> str \<Rightarrow> bytes \<Rightarrow> JobSpec" where
  "intrinsically_idempotent job_id queue partition_key payload =
     job_base job_id queue partition_key payload ExplicitlyIdempotent None"

definition with_not_before_ms :: "JobSpec \<Rightarrow> i64 \<Rightarrow> JobSpec" where
  "with_not_before_ms s ms = s\<lparr>js_not_before_ms := ms\<rparr>"

definition with_max_attempts :: "JobSpec \<Rightarrow> u32 \<Rightarrow> JobSpec" where
  "with_max_attempts s n = s\<lparr>js_max_attempts := n\<rparr>"

record JobInfo =
  ji_job_id :: Id
  ji_spec :: JobSpec
  ji_state :: JobState
  ji_attempt :: u32
  ji_lease_expires_at_ms :: "i64 option"
  ji_worker_id :: "str option"
  ji_retry_after_ms :: "i64 option"
  ji_terminal_at_ms :: "i64 option"
  ji_result_digest :: "bytes option"
  ji_error_summary :: "str option"

record ClaimedJob =
  cj_job_id :: Id
  cj_queue :: str
  cj_partition_key :: str
  cj_payload :: bytes
  cj_worker_id :: str
  cj_lease_token :: Id
  cj_attempt :: u32
  cj_lease_expires_at_ms :: i64
  cj_idempotency_key :: "str option"

record ClaimRequest =
  cr_queue :: str
  cr_worker_id :: str
  cr_now_ms :: i64
  cr_lease_ms :: i64
  cr_limit :: nat

record MaintenanceReceipt =
  mr_transaction_id :: Id

record CommittedClaims =
  cc_transaction_id :: Id
  cc_jobs :: "ClaimedJob list"
  cc_stale_jobs :: "Id list"

datatype ClaimOutcome =
    Noop
  | MaintenanceCommitted MaintenanceReceipt
  | Committed CommittedClaims

datatype ClaimRecovery =
    Recovered_Committed CommittedClaims
  | Recovered_MaintenanceCommitted MaintenanceReceipt
  | Recovered_Absent

datatype Resolution = Retry | MarkSucceeded | MarkDead

record JobAck =
  ack_job_id :: Id
  ack_lease_token :: Id
  ack_result_digest :: "bytes option"

record JobFailure =
  jf_job_id :: Id
  jf_lease_token :: Id
  jf_error_summary :: str
  jf_retry_after_ms :: "i64 option"

record JobCancellation =
  jc_job_id :: Id
  jc_lease_token :: "Id option"

record JobResolution =
  jres_job_id :: Id
  jres_resolution :: Resolution

record LeaseExtension =
  le_job_id :: Id
  le_lease_token :: Id
  le_new_expiry_ms :: i64

record LeaseExtensionReceipt =
  ler_job_id :: Id
  ler_attempt :: u32
  ler_lease_expires_at_ms :: i64

definition claims_len :: "CommittedClaims \<Rightarrow> nat" where
  "claims_len c = length (cc_jobs c)"

definition claims_is_empty :: "CommittedClaims \<Rightarrow> bool" where
  "claims_is_empty c \<longleftrightarrow> cc_jobs c = []"

end
