(* ===== verification/EventTypes.thy ===== *)
theory EventTypes
  imports Errors
begin

text \<open>\<open>src/event.rs\<close>: domain events before and after they are persisted.\<close>

record Event =
  ev_event_id :: Id
  ev_stream_id :: str
  ev_event_type :: str
  ev_schema_version :: u32
  ev_occurred_at_ms :: i64
  ev_causation_id :: "Id option"
  ev_correlation_id :: "Id option"
  ev_payload :: bytes
  ev_metadata :: bytes

definition event_new ::
    "Id \<Rightarrow> str \<Rightarrow> str \<Rightarrow> u32 \<Rightarrow> i64 \<Rightarrow> Id option \<Rightarrow> Id option \<Rightarrow> bytes \<Rightarrow> bytes \<Rightarrow> Event" where
  "event_new event_id stream_id event_type schema_version occurred_at_ms causation_id
     correlation_id payload metadata =
     \<lparr>ev_event_id = event_id, ev_stream_id = stream_id, ev_event_type = event_type,
      ev_schema_version = schema_version, ev_occurred_at_ms = occurred_at_ms,
      ev_causation_id = causation_id, ev_correlation_id = correlation_id,
      ev_payload = payload, ev_metadata = metadata\<rparr>"

definition with_json_payload :: "Id \<Rightarrow> str \<Rightarrow> str \<Rightarrow> i64 \<Rightarrow> bytes \<Rightarrow> Event" where
  "with_json_payload event_id stream_id event_type occurred_at_ms payload =
     event_new event_id stream_id event_type 1 occurred_at_ms None None payload []"

record PersistedEvent =
  pe_transaction_id :: Id
  pe_global_sequence :: u64
  pe_stream_version :: u64
  pe_event :: Event

record StreamVersion =
  sv_stream_id :: str
  sv_version :: u64

end
