(* ===== verification/ProjectionTypes.thy ===== *)
theory ProjectionTypes
  imports Errors
begin

text \<open>
  \<open>src/projection.rs\<close>: projection entries, mutations, versioned patches and the static
  validation of a patch, with a declarative account of what validation accepts.
\<close>

record ProjectionEntry =
  pn_key :: bytes
  pn_value :: bytes

datatype ProjectionMutation =
    Put bytes bytes
  | Delete bytes
  | Clear
  | Replace "ProjectionEntry list"

record ProjectionPatch =
  pp_projection :: str
  pp_expected_version :: u64
  pp_new_version :: u64
  pp_mutations :: "ProjectionMutation list"

definition projection_entry_new :: "bytes \<Rightarrow> bytes \<Rightarrow> ProjectionEntry" where
  "projection_entry_new key value = \<lparr>pn_key = key, pn_value = value\<rparr>"

definition patch_new :: "str \<Rightarrow> u64 \<Rightarrow> ProjectionPatch" where
  "patch_new projection expected_version =
     \<lparr>pp_projection = projection, pp_expected_version = expected_version,
      pp_new_version = saturating_add_u64 expected_version 1, pp_mutations = []\<rparr>"

definition patch_push :: "ProjectionMutation \<Rightarrow> ProjectionPatch \<Rightarrow> ProjectionPatch" where
  "patch_push m p = p\<lparr>pp_mutations := pp_mutations p @ [m]\<rparr>"

definition patch_put :: "ProjectionPatch \<Rightarrow> bytes \<Rightarrow> bytes \<Rightarrow> ProjectionPatch" where
  "patch_put p key value = patch_push (Put key value) p"

definition patch_delete :: "ProjectionPatch \<Rightarrow> bytes \<Rightarrow> ProjectionPatch" where
  "patch_delete p key = patch_push (Delete key) p"

definition patch_clear :: "ProjectionPatch \<Rightarrow> ProjectionPatch" where
  "patch_clear p = patch_push Clear p"

definition patch_replace :: "ProjectionPatch \<Rightarrow> ProjectionEntry list \<Rightarrow> ProjectionPatch" where
  "patch_replace p entries = patch_push (Replace entries) p"

section \<open>Validation\<close>

text \<open>\<open>if !seen.insert(key) { return Err(e) }\<close>\<close>

definition seen_insert :: "ValidationError \<Rightarrow> bytes \<Rightarrow> bytes set \<Rightarrow> ValidationError + bytes set" where
  "seen_insert e key seen = (if key \<in> seen then Inl e else Inr (insert key seen))"

definition patch_duplicate :: "str \<Rightarrow> ValidationError" where
  "patch_duplicate projection =
     ValidationError (''projection '' @ projection @ '' patch has contradictory duplicate key'')"

definition replace_duplicate :: "str \<Rightarrow> ValidationError" where
  "replace_duplicate projection =
     ValidationError (''projection '' @ projection @ '' replace has contradictory duplicate key'')"

fun track_mutation ::
    "str \<Rightarrow> ProjectionMutation \<Rightarrow> bytes set \<Rightarrow> ValidationError + bytes set" where
  "track_mutation projection (Put key value) seen =
     seen_insert (patch_duplicate projection) key seen"
| "track_mutation projection (Delete key) seen =
     seen_insert (patch_duplicate projection) key seen"
| "track_mutation projection Clear seen = Inr {}"
| "track_mutation projection (Replace entries) seen =
     fold_res (\<lambda>entry. seen_insert (replace_duplicate projection) (pn_key entry)) entries {}"

definition patch_validate :: "ProjectionPatch \<Rightarrow> ValidationError + unit" where
  "patch_validate p =
     (if pp_new_version p \<noteq> pp_expected_version p + 1 \<or> pp_new_version p = 0
      then Inl (ValidationError (''projection '' @ pp_projection p @ '' patch new_version ''
        @ show_u64 (pp_new_version p) @ '' must be expected_version ''
        @ show_u64 (pp_expected_version p) @ '' + 1''))
      else and_then (fold_res (track_mutation (pp_projection p)) (pp_mutations p) {})
        (\<lambda>_. Inr ()))"

section \<open>What validation accepts\<close>

text \<open>
  The keys a mutation names and whether it resets the baseline. A patch is free of
  contradictions when no mutation names a key twice, and two mutations that name the same
  key have a reset between them (the later one included).
\<close>

fun mutation_keys :: "ProjectionMutation \<Rightarrow> bytes list" where
  "mutation_keys (Put key value) = [key]"
| "mutation_keys (Delete key) = [key]"
| "mutation_keys Clear = []"
| "mutation_keys (Replace entries) = map pn_key entries"

fun is_reset :: "ProjectionMutation \<Rightarrow> bool" where
  "is_reset Clear = True"
| "is_reset (Replace entries) = True"
| "is_reset m = False"

definition no_contradiction :: "ProjectionMutation list \<Rightarrow> bool" where
  "no_contradiction ms \<longleftrightarrow>
     (\<forall>m \<in> set ms. distinct (mutation_keys m)) \<and>
     (\<forall>xs m ys n zs. ms = xs @ m # ys @ n # zs \<and> set (mutation_keys m) \<inter> set (mutation_keys n) \<noteq> {} \<longrightarrow>
        (\<exists>r \<in> set (ys @ [n]). is_reset r))"

text \<open>The keys that count as already named after a list of mutations.\<close>

definition live_keys :: "ProjectionMutation list \<Rightarrow> bytes set" where
  "live_keys ms =
     {k. \<exists>xs m ys. ms = xs @ m # ys \<and> k \<in> set (mutation_keys m) \<and> (\<forall>r \<in> set ys. \<not> is_reset r)}"

lemma snoc_split: "ms @ [n] = xs @ m # ys \<longleftrightarrow>
    (ms = xs \<and> m = n \<and> ys = []) \<or> (\<exists>ys'. ys = ys' @ [n] \<and> ms = xs @ m # ys')"
  by (cases ys rule: rev_cases) auto

lemma live_keys_Nil [simp]: "live_keys [] = {}"
  by (simp add: live_keys_def)

lemma live_keys_snoc:
  "live_keys (ms @ [n]) = set (mutation_keys n) \<union> (if is_reset n then {} else live_keys ms)"
proof (rule set_eqI)
  fix k
  have "k \<in> live_keys (ms @ [n]) \<longleftrightarrow>
      k \<in> set (mutation_keys n) \<or>
      \<not> is_reset n \<and> (\<exists>xs m ys. ms = xs @ m # ys \<and> k \<in> set (mutation_keys m) \<and> (\<forall>r \<in> set ys. \<not> is_reset r))"
    (is "?l \<longleftrightarrow> ?r")
  proof
    assume ?l
    then show ?r unfolding live_keys_def snoc_split by fastforce
  next
    assume ?r
    then show ?l
    proof (elim disjE conjE exE)
      assume "k \<in> set (mutation_keys n)"
      then show ?l
        unfolding live_keys_def by (intro CollectI exI [of _ ms] exI [of _ n] exI [of _ "[]"]) simp
    next
      fix xs m ys
      assume "\<not> is_reset n" "ms = xs @ m # ys" "k \<in> set (mutation_keys m)"
        "\<forall>r \<in> set ys. \<not> is_reset r"
      then show ?l
        unfolding live_keys_def
        by (intro CollectI exI [of _ xs] exI [of _ m] exI [of _ "ys @ [n]"]) auto
    qed
  qed
  then show "k \<in> live_keys (ms @ [n]) \<longleftrightarrow>
      k \<in> set (mutation_keys n) \<union> (if is_reset n then {} else live_keys ms)"
    by (auto simp: live_keys_def)
qed

lemma no_contradiction_Nil [simp]: "no_contradiction []"
  by (simp add: no_contradiction_def)

lemma no_contradictionD:
  assumes "no_contradiction (xs @ m # ys @ n # zs)"
    and "k \<in> set (mutation_keys m)" "k \<in> set (mutation_keys n)"
  shows "\<exists>r \<in> set (ys @ [n]). is_reset r"
  using assms unfolding no_contradiction_def by blast

lemma no_contradiction_snocI:
  assumes "no_contradiction ms" "distinct (mutation_keys n)"
    and "is_reset n \<or> set (mutation_keys n) \<inter> live_keys ms = {}"
  shows "no_contradiction (ms @ [n])"
  unfolding no_contradiction_def
proof (intro conjI allI impI ballI)
  fix xs m ys n' zs
  assume *: "ms @ [n] = xs @ m # ys @ n' # zs \<and> set (mutation_keys m) \<inter> set (mutation_keys n') \<noteq> {}"
  show "\<exists>r \<in> set (ys @ [n']). is_reset r"
  proof (cases zs rule: rev_cases)
    case Nil
    with * have "n' = n" "ms = xs @ m # ys" by auto
    with * assms(3) show ?thesis unfolding live_keys_def by fastforce
  next
    case (snoc zs' z)
    with * have "ms = xs @ m # ys @ n' # zs'" by auto
    with * assms(1) show ?thesis unfolding no_contradiction_def by blast
  qed
qed (use assms in \<open>auto simp: no_contradiction_def\<close>)

lemma no_contradiction_snocD:
  assumes "no_contradiction (ms @ [n])"
  shows "no_contradiction ms" "distinct (mutation_keys n)"
    "is_reset n \<or> set (mutation_keys n) \<inter> live_keys ms = {}"
proof -
  show "no_contradiction ms"
    using assms unfolding no_contradiction_def by (simp, metis append_Cons append_assoc)
  show "distinct (mutation_keys n)"
    using assms unfolding no_contradiction_def by simp
  show "is_reset n \<or> set (mutation_keys n) \<inter> live_keys ms = {}"
  proof (rule ccontr)
    assume "\<not> ?thesis"
    then obtain k xs m ys where *: "\<not> is_reset n" "k \<in> set (mutation_keys n)"
        "ms = xs @ m # ys" "k \<in> set (mutation_keys m)" "\<forall>r \<in> set ys. \<not> is_reset r"
      unfolding live_keys_def by auto
    then have "no_contradiction (xs @ m # ys @ n # [])" using assms by simp
    from no_contradictionD [OF this *(4,2)] * show False by auto
  qed
qed

text \<open>The checking loop computes exactly this.\<close>

lemma seen_insert_iff:
  "seen_insert e k seen = Inr seen' \<longleftrightarrow> k \<notin> seen \<and> seen' = insert k seen"
  by (auto simp: seen_insert_def)

lemma fold_seen_insert:
  "fold_res (\<lambda>entry. seen_insert e (pn_key entry)) entries seen = Inr seen' \<longleftrightarrow>
     distinct (map pn_key entries) \<and> set (map pn_key entries) \<inter> seen = {} \<and>
     seen' = set (map pn_key entries) \<union> seen"
  by (induction entries arbitrary: seen) (auto simp: and_then_Inr_iff seen_insert_iff)

lemma track_mutation_iff:
  "track_mutation p m seen = Inr seen' \<longleftrightarrow>
     distinct (mutation_keys m) \<and> (is_reset m \<or> set (mutation_keys m) \<inter> seen = {}) \<and>
     seen' = set (mutation_keys m) \<union> (if is_reset m then {} else seen)"
  by (cases m) (auto simp: seen_insert_iff fold_seen_insert)

lemma track_mutations_iff:
  "fold_res (track_mutation p) ms {} = Inr seen \<longleftrightarrow> no_contradiction ms \<and> seen = live_keys ms"
proof (induction ms arbitrary: seen rule: rev_induct)
  case (snoc m ms)
  then show ?case
    using no_contradiction_snocI [of ms m] no_contradiction_snocD [of ms m]
    by (auto simp: fold_res_append and_then_Inr_iff track_mutation_iff live_keys_snoc)
qed auto

lemma patch_validate_accepts:
  "patch_validate p = Inr u \<longleftrightarrow>
     uint (pp_new_version p) = uint (pp_expected_version p) + 1 \<and> no_contradiction (pp_mutations p)"
  using u64_succ_iff [of "pp_new_version p" "pp_expected_version p"]
  by (auto simp: patch_validate_def and_then_Inr_iff track_mutations_iff)

text \<open>
  A patch passes validation exactly when its new version is the expected version plus
  one without wrap-around and no two of its mutations contradict each other: the loop over
  the set of seen keys decides the declarative condition.
\<close>

theorem patch_validate_iff:
  "patch_validate p = Inr u \<longleftrightarrow>
     uint (pp_new_version p) = uint (pp_expected_version p) + 1 \<and> no_contradiction (pp_mutations p)"
  by (rule patch_validate_accepts)

end
