(* ===== verification/Sha.thy ===== *)
theory Sha
  imports Prelude "HOL-Library.While_Combinator"
begin

text \<open>
  The incremental SHA-256 hasher of \<open>src/sha256.rs\<close>, a specification of the digest of a whole
  message, and the proof that any sequence of updates followed by \<open>finish\<close> computes it.
  Arrays are lists of the array's length; \<open>holds_message\<close> carries the lengths as an invariant.
\<close>

section \<open>The compression function\<close>

text \<open>The round constants of the source, in decimal, four to a row.\<close>

definition K :: "u32 list" where
  "K =
    [1116352408, 1899447441, 3049323471, 3921009573,
     961987163, 1508970993, 2453635748, 2870763221,
     3624381080, 310598401, 607225278, 1426881987,
     1925078388, 2162078206, 2614888103, 3248222580,
     3835390401, 4022224774, 264347078, 604807628,
     770255983, 1249150122, 1555081692, 1996064986,
     2554220882, 2821834349, 2952996808, 3210313671,
     3336571891, 3584528711, 113926993, 338241895,
     666307205, 773529912, 1294757372, 1396182291,
     1695183700, 1986661051, 2177026350, 2456956037,
     2730485921, 2820302411, 3259730800, 3345764771,
     3516065817, 3600352804, 4094571909, 275423344,
     430227734, 506948616, 659060556, 883997877,
     958139571, 1322822218, 1537002063, 1747873779,
     1955562222, 2024104815, 2227730452, 2361852424,
     2428436474, 2756734187, 3204031479, 3329325298]"

definition H0 :: "u32 list" where
  "H0 = [0x6a09e667, 0xbb67ae85, 0x3c6ef372, 0xa54ff53a,
         0x510e527f, 0x9b05688c, 0x1f83d9ab, 0x5be0cd19]"

text \<open>The whole 4-byte chunks of a slice (\<open>as_chunks::<4>().0\<close>).\<close>

fun chunks4 :: "'a list \<Rightarrow> 'a list list" where
  "chunks4 (a # b # c # d # xs) = [a, b, c, d] # chunks4 xs"
| "chunks4 xs = []"

definition schedule_step :: "nat \<Rightarrow> u32 list \<Rightarrow> u32 list" where
  "schedule_step i w =
     (let s0 = word_rotr 7 (w ! (i - 15)) XOR word_rotr 18 (w ! (i - 15)) XOR drop_bit 3 (w ! (i - 15));
          s1 = word_rotr 17 (w ! (i - 2)) XOR word_rotr 19 (w ! (i - 2)) XOR drop_bit 10 (w ! (i - 2))
      in w[i := w ! (i - 16) + s0 + w ! (i - 7) + s1])"

definition schedule :: "bytes \<Rightarrow> u32 list" where
  "schedule block =
     fold schedule_step [16..<64] (map from_be_bytes (chunks4 block) @ replicate 48 0)"

type_synonym working = "u32 \<times> u32 \<times> u32 \<times> u32 \<times> u32 \<times> u32 \<times> u32 \<times> u32"

fun sha_round :: "u32 list \<Rightarrow> nat \<Rightarrow> working \<Rightarrow> working" where
  "sha_round w i (a, b, c, d, e, f, g, h) =
     (let s1 = word_rotr 6 e XOR word_rotr 11 e XOR word_rotr 25 e;
          ch = (e AND f) XOR (NOT e AND g);
          t1 = h + s1 + ch + K ! i + w ! i;
          s0 = word_rotr 2 a XOR word_rotr 13 a XOR word_rotr 22 a;
          maj = (a AND b) XOR (a AND c) XOR (b AND c);
          t2 = s0 + maj
      in (t1 + t2, a, b, c, d + t1, e, f, g))"

definition compress :: "u32 list \<Rightarrow> bytes \<Rightarrow> u32 list" where
  "compress st block =
     (case fold (sha_round (schedule block)) [0..<64]
        (st ! 0, st ! 1, st ! 2, st ! 3, st ! 4, st ! 5, st ! 6, st ! 7) of
        (a, b, c, d, e, f, g, h) \<Rightarrow>
          [st ! 0 + a, st ! 1 + b, st ! 2 + c, st ! 3 + d,
           st ! 4 + e, st ! 5 + f, st ! 6 + g, st ! 7 + h])"

section \<open>The incremental hasher\<close>

record Sha256 =
  sh_state :: "u32 list"
  sh_buffer :: bytes
  sh_buffer_len :: nat
  sh_total_len :: u64

definition sha_new :: Sha256 where
  "sha_new = \<lparr>sh_state = H0, sh_buffer = replicate 64 0, sh_buffer_len = 0, sh_total_len = 0\<rparr>"

text \<open>\<open>while data.len() >= 64 { ... }\<close>: the state after the whole blocks, and the rest.\<close>

function absorb_blocks :: "u32 list \<Rightarrow> bytes \<Rightarrow> u32 list \<times> bytes" where
  "absorb_blocks st data =
     (if 64 \<le> length data then absorb_blocks (compress st (take 64 data)) (drop 64 data)
      else (st, data))"
  by pat_completeness auto
termination
  by (relation "measure (\<lambda>(st, data). length data)") auto

declare absorb_blocks.simps [simp del]

text \<open>The part of \<open>update\<close> that tops up a partly filled buffer, and what is left of the data.\<close>

definition fill_buffer :: "Sha256 \<Rightarrow> bytes \<Rightarrow> Sha256 \<times> bytes" where
  "fill_buffer h data =
     (if sh_buffer_len h > 0 then
        let n = min (64 - sh_buffer_len h) (length data);
            buf = take (sh_buffer_len h) (sh_buffer h) @ take n data
                    @ drop (sh_buffer_len h + n) (sh_buffer h);
            len = sh_buffer_len h + n;
            data' = drop n data
        in if len = 64
           then (h\<lparr>sh_buffer := buf, sh_state := compress (sh_state h) buf, sh_buffer_len := 0\<rparr>, data')
           else (h\<lparr>sh_buffer := buf, sh_buffer_len := len\<rparr>, data')
      else (h, data))"

definition sha_update :: "Sha256 \<Rightarrow> bytes \<Rightarrow> Sha256" where
  "sha_update h data =
     (let h1 = h\<lparr>sh_total_len := sh_total_len h + of_nat (length data)\<rparr>;
          (h2, data2) = fill_buffer h1 data;
          (st, rest) = absorb_blocks (sh_state h2) data2;
          h3 = h2\<lparr>sh_state := st\<rparr>
      in if rest \<noteq> []
         then h3\<lparr>sh_buffer := rest @ drop (length rest) (sh_buffer h3), sh_buffer_len := length rest\<rparr>
         else h3)"

definition pad_zeros :: "Sha256 \<Rightarrow> Sha256" where
  "pad_zeros h = while (\<lambda>h. sh_buffer_len h \<noteq> 56) (\<lambda>h. sha_update h [0]) h"

definition sha_finish :: "Sha256 \<Rightarrow> bytes" where
  "sha_finish h =
     (let bit_len = sh_total_len h * 8;
          h1 = sha_update h [0x80];
          h2 = pad_zeros h1;
          h3 = sha_update h2 (to_be_bytes bit_len)
      in concat (map to_be_bytes (sh_state h3)))"

section \<open>The digest of a message\<close>

definition sha_blocks :: "bytes \<Rightarrow> u32 list" where
  "sha_blocks m = fst (absorb_blocks H0 m)"

definition sha_pad :: "bytes \<Rightarrow> bytes" where
  "sha_pad m =
     m @ [0x80] @ replicate ((119 - length m mod 64) mod 64) 0
       @ to_be_bytes (of_nat (length m) * 8 :: u64)"

definition sha256 :: "bytes \<Rightarrow> bytes" where
  "sha256 m = concat (map to_be_bytes (sha_blocks (sha_pad m)))"

text \<open>A hasher holds a message when its state is that of the whole blocks and its buffer the rest.\<close>

definition holds_message :: "Sha256 \<Rightarrow> bytes \<Rightarrow> bool" where
  "holds_message h m \<longleftrightarrow>
     sh_state h = sha_blocks m \<and>
     take (sh_buffer_len h) (sh_buffer h) = snd (absorb_blocks H0 m) \<and>
     sh_buffer_len h = length m mod 64 \<and> length (sh_buffer h) = 64 \<and>
     sh_total_len h = of_nat (length m)"

lemma absorb_short: "length data < 64 \<Longrightarrow> absorb_blocks st data = (st, data)"
  by (simp add: absorb_blocks.simps)

lemma absorb_long:
  "64 \<le> length data \<Longrightarrow>
     absorb_blocks st data = absorb_blocks (compress st (take 64 data)) (drop 64 data)"
  by (subst absorb_blocks.simps) simp

lemma length_absorb_rest: "length (snd (absorb_blocks st data)) = length data mod 64"
proof (induction st data rule: absorb_blocks.induct)
  case (1 st data)
  then show ?case
    by (cases "64 \<le> length data") (auto simp: absorb_long [of data st] absorb_short le_mod_geq)
qed

lemma absorb_append:
  "absorb_blocks st (m @ d) =
     absorb_blocks (fst (absorb_blocks st m)) (snd (absorb_blocks st m) @ d)"
proof (induction st m rule: absorb_blocks.induct)
  case (1 st m)
  then show ?case
    by (cases "64 \<le> length m") (auto simp: absorb_long [of m st] absorb_long [of "m @ d" st] absorb_short)
qed

lemma holds_new: "holds_message sha_new []"
  by (simp add: holds_message_def sha_new_def sha_blocks_def absorb_short)

lemma holds_update:
  assumes "holds_message h m"
  shows "holds_message (sha_update h d) (m @ d)"
proof -
  let ?n = "sh_buffer_len h" and ?b = "take (sh_buffer_len h) (sh_buffer h)"
  let ?r = "absorb_blocks (sh_state h) (?b @ d)"
  have h: "sh_state h = fst (absorb_blocks H0 m)" "?b = snd (absorb_blocks H0 m)"
    "?n = length m mod 64" "length (sh_buffer h) = 64" "sh_total_len h = of_nat (length m)"
    using assms by (auto simp: holds_message_def sha_blocks_def)
  from h(3) have n: "?n < 64" by simp
  with h(4) have b: "length ?b = ?n" by simp
  have whole: "absorb_blocks H0 (m @ d) = ?r"
    using absorb_append [of H0 m d] h(1,2) by simp
  then have len: "length (snd ?r) = length (m @ d) mod 64"
    using length_absorb_rest [of H0 "m @ d"] by simp
  have "sh_state (sha_update h d) = fst ?r \<and>
      take (sh_buffer_len (sha_update h d)) (sh_buffer (sha_update h d)) = snd ?r \<and>
      sh_buffer_len (sha_update h d) = length (snd ?r) \<and>
      length (sh_buffer (sha_update h d)) = 64 \<and>
      sh_total_len (sha_update h d) = sh_total_len h + of_nat (length d)"
  proof (cases "?n = 0")
    case True
    obtain st rest where r: "absorb_blocks (sh_state h) d = (st, rest)" by fastforce
    moreover have "length rest < 64"
      using length_absorb_rest [of "sh_state h" d] r by simp
    ultimately show ?thesis
      using True h(4) by (auto simp: sha_update_def fill_buffer_def Let_def)
  next
    case False
    show ?thesis
    proof (cases "?n + length d < 64")
      case True
      then have "?r = (sh_state h, ?b @ d)"
        using b by (intro absorb_short) simp
      then show ?thesis
        using True False h(4) n
        by (auto simp: sha_update_def fill_buffer_def Let_def absorb_short min_def)
    next
      case big: False
      let ?k = "64 - ?n"
      let ?blk = "?b @ take ?k d"
      have k: "min ?k (length d) = ?k" "length ?blk = 64" using big n b by auto
      have take64: "take 64 (?b @ d) = ?blk" "drop 64 (?b @ d) = drop ?k d"
        using b n by (auto simp: take_append drop_append)
      have r: "?r = absorb_blocks (compress (sh_state h) ?blk) (drop ?k d)"
        using absorb_long [of "?b @ d" "sh_state h"] big b take64 by simp
      obtain st rest where r': "absorb_blocks (compress (sh_state h) ?blk) (drop ?k d) = (st, rest)"
        by fastforce
      have "length rest < 64"
        using length_absorb_rest [of "compress (sh_state h) ?blk" "drop ?k d"] r' by simp
      then show ?thesis
        using False n k h(4) r r'
        by (auto simp: sha_update_def fill_buffer_def Let_def)
    qed
  qed
  then show ?thesis
    unfolding holds_message_def sha_blocks_def whole using len h(5) by auto
qed

text \<open>
  The padding loop: from a buffer of any length it stops, after the number of zero bytes that
  takes the buffer to 56.
\<close>

definition pad_count :: "nat \<Rightarrow> nat" where
  "pad_count len = (120 - len mod 64) mod 64"

lemma pad_count_cases:
  "pad_count len = (if len mod 64 \<le> 56 then 56 - len mod 64 else 120 - len mod 64)"
proof -
  have "len mod 64 < 64" by simp
  then show ?thesis by (auto simp: pad_count_def mod_if [of "120 - _"])
qed

lemma pad_count_0_iff: "pad_count len = 0 \<longleftrightarrow> len mod 64 = 56"
proof -
  have "len mod 64 < 64" by simp
  then show ?thesis unfolding pad_count_cases by simp linarith
qed

lemma pad_count_Suc: "pad_count len = Suc k \<Longrightarrow> pad_count (Suc len) = k"
  unfolding pad_count_cases mod_Suc by (auto split: if_splits)

lemma pad_count_after_marker:
  "pad_count (length (m @ [x])) = (119 - length m mod 64) mod 64"
  by (simp add: pad_count_def mod_Suc) 

lemma holds_pad_zeros:
  "holds_message h m \<Longrightarrow> pad_count (length m) = k \<Longrightarrow>
     holds_message (pad_zeros h) (m @ replicate k 0) \<and>
     while_option (\<lambda>h. sh_buffer_len h \<noteq> 56) (\<lambda>h. sha_update h [0]) h = Some (pad_zeros h)"
proof (induction k arbitrary: h m)
  case 0
  then have "sh_buffer_len h = 56"
    by (simp add: holds_message_def pad_count_0_iff)
  then have stop: "while_option (\<lambda>h. sh_buffer_len h \<noteq> 56) (\<lambda>h. sha_update h [0]) h = Some h"
    by (simp add: while_option_unfold [of _ _ h])
  then have "pad_zeros h = h"
    by (simp add: pad_zeros_def while_def)
  with stop show ?case
    using 0 by simp
next
  case (Suc k)
  then have ne: "sh_buffer_len h \<noteq> 56"
    using pad_count_0_iff [of "length m"] by (auto simp: holds_message_def)
  have "holds_message (sha_update h [0]) (m @ [0])"
    by (rule holds_update) (rule Suc.prems)
  moreover have "pad_count (length (m @ [0 :: u8])) = k"
    using pad_count_Suc Suc.prems by simp
  ultimately have IH: "holds_message (pad_zeros (sha_update h [0])) ((m @ [0]) @ replicate k 0)"
    "while_option (\<lambda>h. sh_buffer_len h \<noteq> 56) (\<lambda>h. sha_update h [0]) (sha_update h [0])
       = Some (pad_zeros (sha_update h [0]))"
    using Suc.IH by blast+
  have "pad_zeros h = pad_zeros (sha_update h [0])"
    unfolding pad_zeros_def by (subst while_unfold) (simp add: ne)
  then show ?case
    using IH ne by (simp add: while_option_unfold [of _ _ h])
qed

lemma finish_holds:
  assumes "holds_message h m"
  shows "sha_finish h = sha256 m"
proof -
  let ?m1 = "m @ [0x80]"
  let ?k = "pad_count (length ?m1)"
  have h1: "holds_message (sha_update h [0x80]) ?m1"
    using assms by (rule holds_update)
  then have "holds_message (pad_zeros (sha_update h [0x80])) (?m1 @ replicate ?k 0)"
    using holds_pad_zeros by blast
  then have "holds_message
      (sha_update (pad_zeros (sha_update h [0x80])) (to_be_bytes (sh_total_len h * 8)))
      ((?m1 @ replicate ?k 0) @ to_be_bytes (sh_total_len h * 8))"
    by (rule holds_update)
  then have "sh_state (sha_update (pad_zeros (sha_update h [0x80])) (to_be_bytes (sh_total_len h * 8)))
      = sha_blocks ((?m1 @ replicate ?k 0) @ to_be_bytes (sh_total_len h * 8))"
    unfolding holds_message_def by (rule conjunct1)
  moreover have "(?m1 @ replicate ?k 0) @ to_be_bytes (sh_total_len h * 8) = sha_pad m"
    using assms pad_count_after_marker [of m] by (simp add: sha_pad_def holds_message_def)
  ultimately show ?thesis
    unfolding sha_finish_def Let_def sha256_def by (simp only:)
qed

section \<open>The interface of an incremental hasher\<close>

text \<open>
  What the canonical serialisation relies on: absorbing pieces one after the other is
  absorbing their concatenation, and \<open>finish\<close> depends on the absorbed bytes only.
\<close>

locale hasher =
  fixes start :: 'h
    and absorb :: "'h \<Rightarrow> bytes \<Rightarrow> 'h"
    and finish :: "'h \<Rightarrow> bytes"
    and holds :: "'h \<Rightarrow> bytes \<Rightarrow> bool"
    and digest :: "bytes \<Rightarrow> bytes"
  assumes start_holds: "holds start []"
    and absorb_holds: "holds h m \<Longrightarrow> holds (absorb h d) (m @ d)"
    and finish_digest: "holds h m \<Longrightarrow> finish h = digest m"
begin

lemma foldl_holds: "holds h m \<Longrightarrow> holds (foldl absorb h parts) (m @ concat parts)"
proof (induction parts arbitrary: h m)
  case (Cons d parts)
  then show ?case using Cons.IH [OF absorb_holds, of h m d] by simp
qed simp

lemma finish_parts: "finish (foldl absorb start parts) = digest (concat parts)"
  using finish_digest [OF foldl_holds [OF start_holds]] by simp

lemma finish_regroup:
  "concat parts = concat parts' \<Longrightarrow>
     finish (foldl absorb start parts) = finish (foldl absorb start parts')"
  by (simp add: finish_parts)

end

interpretation sha_hasher: hasher sha_new sha_update sha_finish holds_message sha256
  by unfold_locales (fact holds_new holds_update finish_holds)+

text \<open>
  Feeding a message to the hasher in any pieces and finishing gives the digest of the
  whole message: padded, cut into 64-byte blocks and compressed block by block.
\<close>

theorem sha_incremental:
  "sha_finish (foldl sha_update sha_new parts) = sha256 (concat parts)"
  by (rule sha_hasher.finish_parts)

text \<open>
  The padding loop of \<open>finish\<close> always stops, whatever was absorbed, with 56 bytes in the
  buffer.
\<close>

theorem sha_padding_stops:
  "\<exists>t. while_option (\<lambda>h. sh_buffer_len h \<noteq> 56) (\<lambda>h. sha_update h [0])
        (sha_update (foldl sha_update sha_new parts) [0x80]) = Some t \<and> sh_buffer_len t = 56"
proof -
  let ?h = "sha_update (foldl sha_update sha_new parts) [0x80]"
  have "holds_message ?h (concat parts @ [0x80])"
    using holds_update sha_hasher.foldl_holds [OF holds_new, of parts] by simp
  then have "while_option (\<lambda>h. sh_buffer_len h \<noteq> 56) (\<lambda>h. sha_update h [0]) ?h = Some (pad_zeros ?h)"
    using holds_pad_zeros by blast
  moreover from this have "sh_buffer_len (pad_zeros ?h) = 56"
    using while_option_stop by fastforce
  ultimately show ?thesis by blast
qed

end
