(* ===== verification/Transactions.thy ===== *)
theory Transactions
  imports JobTypes EventTypes ProjectionTypes Sha
begin

text \<open>
  \<open>src/transaction.rs\<close>: operations, commit batches and their builders, receipts, and the
  request digest. The digest is a sequence of writes to the incremental hasher; the canonical
  bytes of a batch are the specification: what is written is exactly that byte string, and
  two different batches never have the same one.
\<close>

section \<open>Batches\<close>

datatype Operation =
    AppendEvent Event
  | ProjectionPatch ProjectionPatch
  | EnqueueJob JobSpec
  | AckJob JobAck
  | FailJob JobFailure
  | CancelJob JobCancellation
  | ResolveJob JobResolution
  | ExtendLease LeaseExtension

record ExpectedStreamVersion =
  es_stream_id :: str
  es_version :: u64

record CommitBatch =
  cb_transaction_id :: Id
  cb_committed_at_ms :: i64
  cb_correlation_id :: "Id option"
  cb_metadata :: bytes
  cb_expected_stream_versions :: "ExpectedStreamVersion list"
  cb_operations :: "Operation list"

record CommitReceipt =
  rc_transaction_id :: Id
  rc_transaction_sequence :: u64
  rc_committed_at_ms :: i64

datatype TransactionRecovery = Tx_Committed CommitReceipt | Tx_Absent

definition batch_new :: "Id \<Rightarrow> i64 \<Rightarrow> CommitBatch" where
  "batch_new transaction_id committed_at_ms =
     \<lparr>cb_transaction_id = transaction_id, cb_committed_at_ms = committed_at_ms,
      cb_correlation_id = None, cb_metadata = [], cb_expected_stream_versions = [],
      cb_operations = []\<rparr>"

definition with_correlation_id :: "CommitBatch \<Rightarrow> Id \<Rightarrow> CommitBatch" where
  "with_correlation_id b i = b\<lparr>cb_correlation_id := Some i\<rparr>"

definition with_metadata :: "CommitBatch \<Rightarrow> bytes \<Rightarrow> CommitBatch" where
  "with_metadata b metadata = b\<lparr>cb_metadata := metadata\<rparr>"

definition expect_stream_version :: "CommitBatch \<Rightarrow> str \<Rightarrow> u64 \<Rightarrow> CommitBatch" where
  "expect_stream_version b stream_id version =
     b\<lparr>cb_expected_stream_versions :=
         cb_expected_stream_versions b @ [\<lparr>es_stream_id = stream_id, es_version = version\<rparr>]\<rparr>"

definition push_operation :: "CommitBatch \<Rightarrow> Operation \<Rightarrow> CommitBatch" where
  "push_operation b op = b\<lparr>cb_operations := cb_operations b @ [op]\<rparr>"

definition append_event :: "CommitBatch \<Rightarrow> Event \<Rightarrow> CommitBatch" where
  "append_event b event = push_operation b (AppendEvent event)"

definition apply_projection_patch :: "CommitBatch \<Rightarrow> ProjectionPatch \<Rightarrow> CommitBatch" where
  "apply_projection_patch b patch = push_operation b (ProjectionPatch patch)"

definition enqueue_job :: "CommitBatch \<Rightarrow> JobSpec \<Rightarrow> CommitBatch" where
  "enqueue_job b job = push_operation b (EnqueueJob job)"

definition acknowledge_job :: "CommitBatch \<Rightarrow> Id \<Rightarrow> Id \<Rightarrow> bytes option \<Rightarrow> CommitBatch" where
  "acknowledge_job b job_id lease_token result_digest =
     push_operation b (AckJob \<lparr>ack_job_id = job_id, ack_lease_token = lease_token,
       ack_result_digest = result_digest\<rparr>)"

definition fail_job :: "CommitBatch \<Rightarrow> Id \<Rightarrow> Id \<Rightarrow> str \<Rightarrow> i64 option \<Rightarrow> CommitBatch" where
  "fail_job b job_id lease_token error_summary retry_after_ms =
     push_operation b (FailJob \<lparr>jf_job_id = job_id, jf_lease_token = lease_token,
       jf_error_summary = error_summary, jf_retry_after_ms = retry_after_ms\<rparr>)"

definition cancel_job :: "CommitBatch \<Rightarrow> Id \<Rightarrow> Id option \<Rightarrow> CommitBatch" where
  "cancel_job b job_id lease_token =
     push_operation b (CancelJob \<lparr>jc_job_id = job_id, jc_lease_token = lease_token\<rparr>)"

definition resolve_uncertain_job :: "CommitBatch \<Rightarrow> Id \<Rightarrow> Resolution \<Rightarrow> CommitBatch" where
  "resolve_uncertain_job b job_id resolution =
     push_operation b (ResolveJob \<lparr>jres_job_id = job_id, jres_resolution = resolution\<rparr>)"

definition extend_lease_op :: "CommitBatch \<Rightarrow> Id \<Rightarrow> Id \<Rightarrow> i64 \<Rightarrow> CommitBatch" where
  "extend_lease_op b job_id lease_token new_expiry_ms =
     push_operation b (ExtendLease \<lparr>le_job_id = job_id, le_lease_token = lease_token,
       le_new_expiry_ms = new_expiry_ms\<rparr>)"

section \<open>The request digest\<close>

type_synonym Digest = Sha256

definition write_raw :: "bytes \<Rightarrow> Digest \<Rightarrow> Digest" where
  "write_raw bs d = sha_update d bs"

definition write_u8 :: "u8 \<Rightarrow> Digest \<Rightarrow> Digest" where
  "write_u8 v d = write_raw [v] d"

definition write_u64 :: "u64 \<Rightarrow> Digest \<Rightarrow> Digest" where
  "write_u64 v d = write_raw (to_be_bytes v) d"

definition write_i64 :: "i64 \<Rightarrow> Digest \<Rightarrow> Digest" where
  "write_i64 v d = write_raw (i64_to_be_bytes v) d"

definition write_bytes :: "bytes \<Rightarrow> Digest \<Rightarrow> Digest" where
  "write_bytes bs d = write_raw bs (write_u64 (of_nat (length bs)) d)"

definition write_str :: "str \<Rightarrow> Digest \<Rightarrow> Digest" where
  "write_str s d = write_bytes (str_bytes s) d"

definition write_id :: "Id \<Rightarrow> Digest \<Rightarrow> Digest" where
  "write_id i d = write_raw (as_bytes i) d"

fun write_opt_id :: "Id option \<Rightarrow> Digest \<Rightarrow> Digest" where
  "write_opt_id (Some i) d = write_id i (write_u8 1 d)"
| "write_opt_id None d = write_u8 0 d"

text \<open>A sequence of writes, and a loop of writes.\<close>

definition run :: "(Digest \<Rightarrow> Digest) list \<Rightarrow> Digest \<Rightarrow> Digest" where
  "run ws = fold (\<lambda>w. w) ws"

text \<open>\<open>match v { Some(x) => { write_u8(1); write(x) } None => write_u8(0) }\<close>\<close>

fun write_opt :: "('a \<Rightarrow> Digest \<Rightarrow> Digest) \<Rightarrow> 'a option \<Rightarrow> Digest \<Rightarrow> Digest" where
  "write_opt write (Some x) d = write x (write_u8 1 d)"
| "write_opt write None d = write_u8 0 d"

definition digest_entry :: "ProjectionEntry \<Rightarrow> Digest \<Rightarrow> Digest" where
  "digest_entry entry = run [write_bytes (pn_key entry), write_bytes (pn_value entry)]"

fun digest_mutation :: "ProjectionMutation \<Rightarrow> Digest \<Rightarrow> Digest" where
  "digest_mutation (Put key value) = run [write_u8 1, write_bytes key, write_bytes value]"
| "digest_mutation (Delete key) = run [write_u8 2, write_bytes key]"
| "digest_mutation Clear = run [write_u8 3]"
| "digest_mutation (Replace entries) =
     run [write_u8 4, write_u64 (of_nat (length entries)), fold digest_entry entries]"

fun digest_resolution :: "Resolution \<Rightarrow> u8" where
  "digest_resolution Retry = 1"
| "digest_resolution MarkSucceeded = 2"
| "digest_resolution MarkDead = 3"

fun digest_operation :: "Operation \<Rightarrow> Digest \<Rightarrow> Digest" where
  "digest_operation (AppendEvent e) =
     run [write_u8 1, write_id (ev_event_id e), write_str (ev_stream_id e),
       write_str (ev_event_type e), write_u64 (ucast (ev_schema_version e)),
       write_i64 (ev_occurred_at_ms e), write_opt_id (ev_causation_id e),
       write_opt_id (ev_correlation_id e), write_bytes (ev_payload e),
       write_bytes (ev_metadata e)]"
| "digest_operation (ProjectionPatch p) =
     run [write_u8 2, write_str (pp_projection p), write_u64 (pp_expected_version p),
       write_u64 (pp_new_version p), write_u64 (of_nat (length (pp_mutations p))),
       fold digest_mutation (pp_mutations p)]"
| "digest_operation (EnqueueJob j) =
     run [write_u8 3, write_id (js_job_id j), write_str (js_queue j),
       write_str (js_partition_key j), write_bytes (js_payload j),
       write_i64 (js_not_before_ms j), write_u64 (ucast (js_max_attempts j)),
       write_u8 (of_int (effect_encode (js_effect_mode j))),
       write_opt write_str (js_idempotency_key j)]"
| "digest_operation (AckJob a) =
     run [write_u8 4, write_id (ack_job_id a), write_id (ack_lease_token a),
       write_opt write_bytes (ack_result_digest a)]"
| "digest_operation (FailJob f) =
     run [write_u8 5, write_id (jf_job_id f), write_id (jf_lease_token f),
       write_str (jf_error_summary f), write_opt write_i64 (jf_retry_after_ms f)]"
| "digest_operation (CancelJob c) =
     run [write_u8 6, write_id (jc_job_id c), write_opt_id (jc_lease_token c)]"
| "digest_operation (ResolveJob r) =
     run [write_u8 7, write_id (jres_job_id r), write_u8 (digest_resolution (jres_resolution r))]"
| "digest_operation (ExtendLease e) =
     run [write_u8 8, write_id (le_job_id e), write_id (le_lease_token e),
       write_i64 (le_new_expiry_ms e)]"

definition digest_expected :: "ExpectedStreamVersion \<Rightarrow> Digest \<Rightarrow> Digest" where
  "digest_expected expected = run [write_str (es_stream_id expected), write_u64 (es_version expected)]"

definition request_digest :: "CommitBatch \<Rightarrow> bytes" where
  "request_digest b =
     sha_finish (run [write_i64 (cb_committed_at_ms b), write_opt_id (cb_correlation_id b),
       write_bytes (cb_metadata b), write_u64 (of_nat (length (cb_expected_stream_versions b))),
       fold digest_expected (cb_expected_stream_versions b),
       write_u64 (of_nat (length (cb_operations b))),
       fold digest_operation (cb_operations b)] sha_new)"

section \<open>The canonical bytes\<close>

definition enc_bytes :: "bytes \<Rightarrow> bytes" where
  "enc_bytes bs = to_be_bytes (of_nat (length bs) :: u64) @ bs"

definition enc_str :: "str \<Rightarrow> bytes" where
  "enc_str s = enc_bytes (str_bytes s)"

definition enc_opt :: "('a \<Rightarrow> bytes) \<Rightarrow> 'a option \<Rightarrow> bytes" where
  "enc_opt enc v = (case v of Some x \<Rightarrow> 1 # enc x | None \<Rightarrow> [0])"

definition enc_list :: "('a \<Rightarrow> bytes) \<Rightarrow> 'a list \<Rightarrow> bytes" where
  "enc_list enc xs = to_be_bytes (of_nat (length xs) :: u64) @ concat (map enc xs)"

definition enc_entry :: "ProjectionEntry \<Rightarrow> bytes" where
  "enc_entry e = enc_bytes (pn_key e) @ enc_bytes (pn_value e)"

fun enc_mutation :: "ProjectionMutation \<Rightarrow> bytes" where
  "enc_mutation (Put key value) = 1 # enc_bytes key @ enc_bytes value"
| "enc_mutation (Delete key) = 2 # enc_bytes key"
| "enc_mutation Clear = [3]"
| "enc_mutation (Replace entries) = 4 # enc_list enc_entry entries"

fun enc_operation :: "Operation \<Rightarrow> bytes" where
  "enc_operation (AppendEvent e) =
     1 # as_bytes (ev_event_id e) @ enc_str (ev_stream_id e) @ enc_str (ev_event_type e)
       @ to_be_bytes (ucast (ev_schema_version e) :: u64) @ i64_to_be_bytes (ev_occurred_at_ms e)
       @ enc_opt as_bytes (ev_causation_id e) @ enc_opt as_bytes (ev_correlation_id e)
       @ enc_bytes (ev_payload e) @ enc_bytes (ev_metadata e)"
| "enc_operation (ProjectionPatch p) =
     2 # enc_str (pp_projection p) @ to_be_bytes (pp_expected_version p)
       @ to_be_bytes (pp_new_version p) @ enc_list enc_mutation (pp_mutations p)"
| "enc_operation (EnqueueJob j) =
     3 # as_bytes (js_job_id j) @ enc_str (js_queue j) @ enc_str (js_partition_key j)
       @ enc_bytes (js_payload j) @ i64_to_be_bytes (js_not_before_ms j)
       @ to_be_bytes (ucast (js_max_attempts j) :: u64)
       @ [of_int (effect_encode (js_effect_mode j))] @ enc_opt enc_str (js_idempotency_key j)"
| "enc_operation (AckJob a) =
     4 # as_bytes (ack_job_id a) @ as_bytes (ack_lease_token a)
       @ enc_opt enc_bytes (ack_result_digest a)"
| "enc_operation (FailJob f) =
     5 # as_bytes (jf_job_id f) @ as_bytes (jf_lease_token f) @ enc_str (jf_error_summary f)
       @ enc_opt i64_to_be_bytes (jf_retry_after_ms f)"
| "enc_operation (CancelJob c) =
     6 # as_bytes (jc_job_id c) @ enc_opt as_bytes (jc_lease_token c)"
| "enc_operation (ResolveJob r) =
     7 # as_bytes (jres_job_id r) @ [digest_resolution (jres_resolution r)]"
| "enc_operation (ExtendLease e) =
     8 # as_bytes (le_job_id e) @ as_bytes (le_lease_token e) @ i64_to_be_bytes (le_new_expiry_ms e)"

definition enc_expected :: "ExpectedStreamVersion \<Rightarrow> bytes" where
  "enc_expected e = enc_str (es_stream_id e) @ to_be_bytes (es_version e)"

definition canonical_bytes :: "CommitBatch \<Rightarrow> bytes" where
  "canonical_bytes b =
     i64_to_be_bytes (cb_committed_at_ms b) @ enc_opt as_bytes (cb_correlation_id b)
       @ enc_bytes (cb_metadata b) @ enc_list enc_expected (cb_expected_stream_versions b)
       @ enc_list enc_operation (cb_operations b)"

section \<open>The digest is that of the canonical bytes\<close>

named_theorems writes_intros \<open>what each writer appends to the hashed message\<close>

definition writes :: "(Digest \<Rightarrow> Digest) \<Rightarrow> bytes \<Rightarrow> bool" where
  "writes w bs \<longleftrightarrow> (\<forall>h m. holds_message h m \<longrightarrow> holds_message (w h) (m @ bs))"

lemma writes_comp: "writes w bs \<Longrightarrow> writes v cs \<Longrightarrow> writes (\<lambda>d. v (w d)) (bs @ cs)"
  by (fastforce simp: writes_def)

lemma writes_run [writes_intros]: "writes (run []) []"
  by (simp add: writes_def run_def)

lemma writes_run_Cons [writes_intros]:
  "writes w bs \<Longrightarrow> writes (run ws) cs \<Longrightarrow> writes (run (w # ws)) (bs @ cs)"
  using writes_comp [of w bs "run ws" cs] by (simp add: run_def comp_def)

lemma writes_raw [writes_intros]: "writes (write_raw bs) bs"
  by (simp add: writes_def write_raw_def holds_update)

lemma writes_basic [writes_intros]:
  "writes (write_u8 v) [v]"
  "writes (write_u64 u) (to_be_bytes u)"
  "writes (write_i64 i) (i64_to_be_bytes i)"
  "writes (write_id x) (as_bytes x)"
  using writes_raw by (simp_all add: writes_def write_u8_def write_u64_def write_i64_def write_id_def)

lemma writes_bytes [writes_intros]: "writes (write_bytes bs) (enc_bytes bs)"
  unfolding write_bytes_def enc_bytes_def by (intro writes_comp writes_intros)

lemma writes_str [writes_intros]: "writes (write_str s) (enc_str s)"
  using writes_bytes by (simp add: writes_def write_str_def enc_str_def)

lemma writes_opt [writes_intros]:
  assumes "\<And>x. writes (write x) (enc x)"
  shows "writes (write_opt write v) (enc_opt enc v)"
proof (cases v)
  case None
  then show ?thesis using writes_basic(1) [of 0] by (simp add: writes_def enc_opt_def)
next
  case (Some x)
  then show ?thesis
    using writes_comp [OF writes_basic(1) [of 1] assms [of x]] by (simp add: writes_def enc_opt_def)
qed

lemma writes_opt_id [writes_intros]: "writes (write_opt_id v) (enc_opt as_bytes v)"
proof -
  have "write_opt_id v = write_opt write_id v" by (cases v) auto
  then show ?thesis using writes_opt [OF writes_basic(4)] by simp
qed

lemma writes_fold [writes_intros]:
  assumes "\<And>x. x \<in> set xs \<Longrightarrow> writes (write x) (enc x)"
  shows "writes (fold write xs) (concat (map enc xs))"
  using assms
proof (induction xs)
  case (Cons x xs)
  then show ?case
    using writes_comp [of "write x" "enc x" "fold write xs"] by (simp add: comp_def)
qed (simp add: writes_def)

lemma writes_run_list:
  assumes "\<And>x. x \<in> set xs \<Longrightarrow> writes (write x) (enc x)" and "writes (run ws) cs"
  shows "writes (run (write_u64 (of_nat (length xs)) # fold write xs # ws)) (enc_list enc xs @ cs)"
  using writes_run_Cons [OF writes_basic(2) writes_run_Cons [OF writes_fold [OF assms(1)] assms(2)]]
  by (simp add: enc_list_def)

text \<open>Adjusting a canonical byte string to the shape the rules produce.\<close>

lemma writes_cong: "writes w bs \<Longrightarrow> bs = cs \<Longrightarrow> writes w cs"
  by simp

lemma digest_entry_writes [writes_intros]: "writes (digest_entry e) (enc_entry e)"
  unfolding digest_entry_def by (rule writes_cong, (rule writes_intros)+) (simp add: enc_entry_def)

lemma digest_mutation_writes [writes_intros]: "writes (digest_mutation m) (enc_mutation m)"
  by (cases m) (simp, rule writes_cong, (rule writes_intros)+, simp add: enc_list_def)+

lemma digest_operation_writes [writes_intros]: "writes (digest_operation op) (enc_operation op)"
  by (cases op) (simp, rule writes_cong, (rule writes_intros)+, simp add: enc_list_def)+

lemma digest_expected_writes [writes_intros]: "writes (digest_expected e) (enc_expected e)"
  unfolding digest_expected_def by (rule writes_cong, (rule writes_intros)+) (simp add: enc_expected_def)

lemma request_digest_sha: "request_digest b = sha256 (canonical_bytes b)"
proof -
  have "writes (run [write_i64 (cb_committed_at_ms b), write_opt_id (cb_correlation_id b),
       write_bytes (cb_metadata b), write_u64 (of_nat (length (cb_expected_stream_versions b))),
       fold digest_expected (cb_expected_stream_versions b),
       write_u64 (of_nat (length (cb_operations b))),
       fold digest_operation (cb_operations b)]) (canonical_bytes b)" (is "writes ?w _")
    by (rule writes_cong, (rule writes_intros)+) (simp add: canonical_bytes_def enc_list_def)
  then have "holds_message (?w sha_new) (canonical_bytes b)"
    using holds_new unfolding writes_def by fastforce
  then show ?thesis
    unfolding request_digest_def by (rule sha_hasher.finish_digest)
qed

text \<open>
  C40: the request digest of a batch is the SHA-256 digest of the batch's canonical bytes.
\<close>

theorem request_digest_canonical: "request_digest b = sha256 (canonical_bytes b)"
  by (rule request_digest_sha)

section \<open>Distinct batches have distinct canonical bytes\<close>

text \<open>
  An encoder is a prefix code on the values \<open>P\<close> when an encoding can be split off the front of
  a byte string in one way only. What the types of the source guarantee (an \<open>i64\<close> is in range,
  a \<open>Vec\<close> or \<open>String\<close> has fewer than \<open>2^64\<close> elements) is \<open>P\<close>.
\<close>

definition prefix_code :: "('a \<Rightarrow> bool) \<Rightarrow> ('a \<Rightarrow> bytes) \<Rightarrow> bool" where
  "prefix_code P enc \<longleftrightarrow>
     (\<forall>x y r s. P x \<longrightarrow> P y \<longrightarrow> (enc x @ r = enc y @ s \<longleftrightarrow> x = y \<and> r = s))"

definition fits :: "'a list \<Rightarrow> bool" where
  "fits xs \<longleftrightarrow> length xs < 2 ^ 64"

named_theorems split_simps \<open>splitting an encoded value off a byte string\<close>

lemma prefix_codeD:
  "prefix_code P enc \<Longrightarrow> P x \<Longrightarrow> P y \<Longrightarrow> enc x @ r = enc y @ s \<longleftrightarrow> x = y \<and> r = s"
  by (simp add: prefix_code_def)

lemma prefix_codeD_end:
  "prefix_code P enc \<Longrightarrow> P x \<Longrightarrow> P y \<Longrightarrow> enc x = enc y \<longleftrightarrow> x = y"
  using prefix_codeD [of P enc x y "[]" "[]"] by simp

lemma split_u64 [split_simps]: "to_be_bytes u @ r = to_be_bytes (v :: u64) @ s \<longleftrightarrow> u = v \<and> r = s"
  by (metis append_eq_append_conv from_to_be_bytes_u64 length_to_be_bytes)

lemma split_id [split_simps]: "as_bytes i @ r = as_bytes j @ s \<longleftrightarrow> i = j \<and> r = s"
  by (metis append_eq_append_conv from_as_bytes length_as_bytes)

lemma i64_as_u64_inject: "is_i64 a \<Longrightarrow> is_i64 b \<Longrightarrow> i64_as_u64 a = i64_as_u64 b \<longleftrightarrow> a = b"
  by (metis u64_as_i64_of_i64)

lemma split_i64 [split_simps]:
  "is_i64 a \<Longrightarrow> is_i64 b \<Longrightarrow> i64_to_be_bytes a @ r = i64_to_be_bytes b @ s \<longleftrightarrow> a = b \<and> r = s"
  by (simp add: i64_to_be_bytes_def split_u64 i64_as_u64_inject)

lemma of_nat_u64_inject: "m < 2 ^ 64 \<Longrightarrow> n < 2 ^ 64 \<Longrightarrow> (of_nat m :: u64) = of_nat n \<longleftrightarrow> m = n"
  by (auto simp: word_unat_eq_iff unat_of_nat)

lemma split_bytes [split_simps]:
  "fits a \<Longrightarrow> fits b \<Longrightarrow> enc_bytes a @ r = enc_bytes b @ s \<longleftrightarrow> a = b \<and> r = s"
  by (auto simp: enc_bytes_def split_u64 fits_def of_nat_u64_inject)

lemma split_str [split_simps]:
  "fits a \<Longrightarrow> fits b \<Longrightarrow> enc_str a @ r = enc_str b @ s \<longleftrightarrow> a = b \<and> r = s"
  by (simp add: enc_str_def split_bytes fits_def)

lemma codes:
  "prefix_code (\<lambda>_. True) as_bytes"
  "prefix_code is_i64 i64_to_be_bytes"
  "prefix_code fits enc_bytes"
  "prefix_code fits enc_str"
  by (simp_all add: prefix_code_def split_simps)

lemma split_opt:
  assumes "prefix_code P enc" and "pred_option P v" and "pred_option P w"
  shows "enc_opt enc v @ r = enc_opt enc w @ s \<longleftrightarrow> v = w \<and> r = s"
  using assms by (cases v; cases w) (auto simp: enc_opt_def prefix_code_def)

lemma split_opt_codes [split_simps]:
  "enc_opt as_bytes v @ r = enc_opt as_bytes w @ s \<longleftrightarrow> v = w \<and> r = s"
  "pred_option fits b \<Longrightarrow> pred_option fits c \<Longrightarrow>
     enc_opt enc_bytes b @ r = enc_opt enc_bytes c @ s \<longleftrightarrow> b = c \<and> r = s"
  "pred_option fits x \<Longrightarrow> pred_option fits y \<Longrightarrow>
     enc_opt enc_str x @ r = enc_opt enc_str y @ s \<longleftrightarrow> x = y \<and> r = s"
  "pred_option is_i64 i \<Longrightarrow> pred_option is_i64 j \<Longrightarrow>
     enc_opt i64_to_be_bytes i @ r = enc_opt i64_to_be_bytes j @ s \<longleftrightarrow> i = j \<and> r = s"
  by (rule split_opt, rule codes; simp add: option.pred_True)+

lemma split_concat:
  assumes "prefix_code P enc" and "length xs = length ys"
    and "list_all P xs" and "list_all P ys"
  shows "concat (map enc xs) @ r = concat (map enc ys) @ s \<longleftrightarrow> xs = ys \<and> r = s"
  using assms(2-)
proof (induction xs ys rule: list_induct2)
  case (Cons x xs y ys)
  then show ?case using prefix_codeD [OF assms(1), of x y] by auto
qed simp

lemma split_list:
  assumes "prefix_code P enc" and "fits xs" and "fits ys"
    and "list_all P xs" and "list_all P ys"
  shows "enc_list enc xs @ r = enc_list enc ys @ s \<longleftrightarrow> xs = ys \<and> r = s"
proof -
  have "enc_list enc xs @ r = enc_list enc ys @ s \<longleftrightarrow>
      length xs = length ys \<and> concat (map enc xs) @ r = concat (map enc ys) @ s"
    using assms(2,3) by (simp add: enc_list_def split_u64 fits_def of_nat_u64_inject)
  then show ?thesis using split_concat [OF assms(1) _ assms(4,5)] by auto
qed

text \<open>What the Rust types guarantee of the parts of a batch.\<close>

definition rep_entry :: "ProjectionEntry \<Rightarrow> bool" where
  "rep_entry e \<longleftrightarrow> fits (pn_key e) \<and> fits (pn_value e)"

fun rep_mutation :: "ProjectionMutation \<Rightarrow> bool" where
  "rep_mutation (Put key value) \<longleftrightarrow> fits key \<and> fits value"
| "rep_mutation (Delete key) \<longleftrightarrow> fits key"
| "rep_mutation Clear \<longleftrightarrow> True"
| "rep_mutation (Replace entries) \<longleftrightarrow> fits entries \<and> list_all rep_entry entries"

fun rep_operation :: "Operation \<Rightarrow> bool" where
  "rep_operation (AppendEvent e) \<longleftrightarrow>
     fits (ev_stream_id e) \<and> fits (ev_event_type e) \<and> is_i64 (ev_occurred_at_ms e) \<and>
     fits (ev_payload e) \<and> fits (ev_metadata e)"
| "rep_operation (ProjectionPatch p) \<longleftrightarrow>
     fits (pp_projection p) \<and> fits (pp_mutations p) \<and> list_all rep_mutation (pp_mutations p)"
| "rep_operation (EnqueueJob j) \<longleftrightarrow>
     fits (js_queue j) \<and> fits (js_partition_key j) \<and> fits (js_payload j) \<and>
     is_i64 (js_not_before_ms j) \<and> pred_option fits (js_idempotency_key j)"
| "rep_operation (AckJob a) \<longleftrightarrow> pred_option fits (ack_result_digest a)"
| "rep_operation (FailJob f) \<longleftrightarrow>
     fits (jf_error_summary f) \<and> pred_option is_i64 (jf_retry_after_ms f)"
| "rep_operation (CancelJob c) \<longleftrightarrow> True"
| "rep_operation (ResolveJob r) \<longleftrightarrow> True"
| "rep_operation (ExtendLease e) \<longleftrightarrow> is_i64 (le_new_expiry_ms e)"

definition rep_expected :: "ExpectedStreamVersion \<Rightarrow> bool" where
  "rep_expected e \<longleftrightarrow> fits (es_stream_id e)"

definition rep_batch :: "CommitBatch \<Rightarrow> bool" where
  "rep_batch b \<longleftrightarrow>
     is_i64 (cb_committed_at_ms b) \<and> fits (cb_metadata b) \<and>
     fits (cb_expected_stream_versions b) \<and> list_all rep_expected (cb_expected_stream_versions b) \<and>
     fits (cb_operations b) \<and> list_all rep_operation (cb_operations b)"

lemma entry_code: "prefix_code rep_entry enc_entry"
  by (auto simp: prefix_code_def rep_entry_def enc_entry_def split_simps intro: ProjectionEntry.equality)

lemmas split_entries [split_simps] = split_list [OF entry_code]

lemma mutation_code: "prefix_code rep_mutation enc_mutation"
  unfolding prefix_code_def
proof (intro allI impI)
  fix m n r s
  assume "rep_mutation m" and "rep_mutation n"
  then show "enc_mutation m @ r = enc_mutation n @ s \<longleftrightarrow> m = n \<and> r = s"
    by (cases m; cases n) (auto simp: split_simps)
qed

lemmas split_mutations [split_simps] = split_list [OF mutation_code]

lemma digest_resolution_inject: "digest_resolution a = digest_resolution b \<longleftrightarrow> a = b"
  by (cases a; cases b) auto

lemma effect_byte_inject:
  "(of_int (effect_encode a) :: u8) = of_int (effect_encode b) \<longleftrightarrow> a = b"
  by (cases a; cases b) auto

lemma ucast_u32_u64_inject: "(ucast (a :: u32) :: u64) = ucast b \<longleftrightarrow> a = b"
  by transfer (simp add: take_bit_eq_mod)

lemmas operation_inject = digest_resolution_inject effect_byte_inject ucast_u32_u64_inject

lemma operation_code: "prefix_code rep_operation enc_operation"
  unfolding prefix_code_def
proof (intro allI impI)
  fix x y r s
  assume "rep_operation x" and "rep_operation y"
  then show "enc_operation x @ r = enc_operation y @ s \<longleftrightarrow> x = y \<and> r = s"
    by (cases x; cases y) (auto simp: split_simps operation_inject
        intro: Event.equality ProjectionPatch.equality JobSpec.equality JobAck.equality
          JobFailure.equality JobCancellation.equality JobResolution.equality LeaseExtension.equality)
qed

lemma expected_code: "prefix_code rep_expected enc_expected"
  by (auto simp: prefix_code_def rep_expected_def enc_expected_def split_simps
      intro: ExpectedStreamVersion.equality)

text \<open>Equal canonical bytes, for one transaction id, mean equal batches.\<close>

lemma canonical_bytes_inject:
  assumes "rep_batch a" and "rep_batch b"
    and "cb_transaction_id a = cb_transaction_id b"
  shows "canonical_bytes a = canonical_bytes b \<longleftrightarrow> a = b"
proof
  assume eq: "canonical_bytes a = canonical_bytes b"
  have rep: "list_all rep_operation (cb_operations a)" "list_all rep_operation (cb_operations b)"
    "fits (cb_operations a)" "fits (cb_operations b)"
    using assms by (auto simp: rep_batch_def)
  have "cb_committed_at_ms a = cb_committed_at_ms b \<and>
      cb_correlation_id a = cb_correlation_id b \<and> cb_metadata a = cb_metadata b \<and>
      cb_expected_stream_versions a = cb_expected_stream_versions b \<and>
      enc_list enc_operation (cb_operations a) = enc_list enc_operation (cb_operations b)"
    using eq assms unfolding canonical_bytes_def rep_batch_def
    by (simp add: split_simps split_list [OF expected_code])
  moreover from this have "cb_operations a = cb_operations b"
    using split_list [OF operation_code rep(3,4,1,2), of "[]" "[]"] by simp
  ultimately show "a = b"
    using assms(3) by (auto intro: CommitBatch.equality)
qed simp

text \<open>
  C39: the request digest identifies a batch: two batches for one transaction id have the same digest
  exactly when they are the same batch, but for a collision of SHA-256 on two different byte strings, which are
  named. So a resubmission is accepted with the original content only.
\<close>

theorem request_digest_identifies:
  assumes "rep_batch a" and "rep_batch b" and "cb_transaction_id a = cb_transaction_id b"
  shows "request_digest a = request_digest b \<longleftrightarrow>
    a = b \<or> (canonical_bytes a \<noteq> canonical_bytes b \<and> sha256 (canonical_bytes a) = sha256 (canonical_bytes b))"
  using canonical_bytes_inject [OF assms] by (auto simp: request_digest_sha)

theorem request_digest_identifies_witness:
  "let e = with_json_payload ZERO ''s'' ''t'' 7 [1, 2];
       a = append_event (batch_new ZERO 5) e;
       b = append_event (batch_new ZERO 5) (e\<lparr>ev_payload := [2, 1]\<rparr>)
   in request_digest a = request_digest b \<longleftrightarrow>
     canonical_bytes a \<noteq> canonical_bytes b \<and> sha256 (canonical_bytes a) = sha256 (canonical_bytes b)"
proof -
  let ?e = "with_json_payload ZERO ''s'' ''t'' 7 [1, 2]"
  let ?a = "append_event (batch_new ZERO 5) ?e"
  let ?b = "append_event (batch_new ZERO 5) (?e\<lparr>ev_payload := [2, 1]\<rparr>)"
  note defs = append_event_def push_operation_def batch_new_def with_json_payload_def
    event_new_def rep_batch_def fits_def is_i64_def i64_min_def i64_max_def
  have "request_digest ?a = request_digest ?b \<longleftrightarrow> ?a = ?b \<or>
      (canonical_bytes ?a \<noteq> canonical_bytes ?b \<and> sha256 (canonical_bytes ?a) = sha256 (canonical_bytes ?b))"
    by (rule request_digest_identifies) (simp_all add: defs)
  moreover have "?a \<noteq> ?b" by (simp add: defs)
  ultimately show ?thesis by (simp add: Let_def)
qed

end
