(* ===== verification/Database.thy ===== *)
theory Database
  imports Transactions "HOL-Library.AList"
begin

text \<open>
  The tables of the schema of \<open>src/store/migrations.rs\<close> (version 2) with their columns decoded,
  and the statements the store runs on them. A table with a rowid order is the list of its rows
  in that order; a table the store only addresses by its primary key is an association list. An
  INSERT or UPDATE that violates a PRIMARY KEY, UNIQUE, FOREIGN KEY or CHECK clause of the
  schema is an error and writes nothing. Where a row violates several clauses, the model reports
  the first in the order written here.
\<close>

section \<open>Rows and tables\<close>

record TransactionRow =
  tr_transaction_id :: Id
  tr_transaction_sequence :: i64
  tr_committed_at_ms :: i64
  tr_correlation_id :: "Id option"
  tr_metadata :: bytes
  tr_request_digest :: bytes
  tr_operation_count :: i64

record EventRow =
  er_global_sequence :: i64
  er_event_id :: Id
  er_transaction_id :: Id
  er_stream_id :: str
  er_stream_version :: i64
  er_event_type :: str
  er_schema_version :: u32
  er_occurred_at_ms :: i64
  er_causation_id :: "Id option"
  er_correlation_id :: "Id option"
  er_payload :: bytes
  er_metadata :: bytes

record JobRow =
  jr_job_id :: Id
  jr_enqueue_sequence :: i64
  jr_enqueue_transaction_id :: Id
  jr_queue :: str
  jr_partition_key :: str
  jr_payload :: bytes
  jr_not_before_ms :: i64
  jr_max_attempts :: u32
  jr_effect_mode :: EffectMode
  jr_idempotency_key :: "str option"
  jr_state :: JobState
  jr_attempt :: u32
  jr_lease_token :: "Id option"
  jr_worker_id :: "str option"
  jr_lease_expires_at_ms :: "i64 option"
  jr_retry_after_ms :: "i64 option"
  jr_terminal_at_ms :: "i64 option"
  jr_result_digest :: "bytes option"
  jr_error_summary :: "str option"
  jr_updated_transaction_id :: Id

record ReceiptRow =
  cl_transaction_id :: Id
  cl_job_id :: Id
  cl_lease_token :: Id
  cl_attempt :: u32
  cl_worker_id :: str
  cl_lease_expires_at_ms :: i64

text \<open>\<open>db_event_counter\<close> is the AUTOINCREMENT counter SQLite keeps for \<open>events\<close>.\<close>

record db =
  db_transactions :: "TransactionRow list"
  db_events :: "EventRow list"
  db_event_counter :: i64
  db_streams :: "(str \<times> i64) list"
  db_projection_meta :: "(str \<times> i64) list"
  db_projection_entries :: "((str \<times> bytes) \<times> bytes) list"
  db_jobs :: "JobRow list"
  db_queue_cursors :: "(str \<times> str option) list"
  db_active_partitions :: "((str \<times> str) \<times> i64) list"
  db_claim_receipts :: "ReceiptRow list"

definition empty_db :: db where
  "empty_db =
     \<lparr>db_transactions = [], db_events = [], db_event_counter = 0, db_streams = [],
      db_projection_meta = [], db_projection_entries = [], db_jobs = [], db_queue_cursors = [],
      db_active_partitions = [], db_claim_receipts = []\<rparr>"

section \<open>Statements\<close>

definition constraint_failed :: "Constraint \<Rightarrow> StorageError" where
  "constraint_failed c = Sqlite (ConstraintFailed c)"

text \<open>\<open>SELECT COALESCE(MAX(c), 0) + 1\<close>, read as an \<open>i64\<close>.\<close>

definition next_sequence :: "str \<Rightarrow> i64 list \<Rightarrow> StorageError + i64" where
  "next_sequence column xs =
     (let m = (if xs = [] then 0 else fold max xs (hd xs))
      in if m < i64_max then Inr (m + 1) else Inl (constraint_failed (Overflow column)))"

definition has_transaction :: "db \<Rightarrow> Id \<Rightarrow> bool" where
  "has_transaction d i \<longleftrightarrow> i \<in> tr_transaction_id ` set (db_transactions d)"

definition insert_transaction :: "TransactionRow \<Rightarrow> db \<Rightarrow> StorageError + db" where
  "insert_transaction r d =
     (if has_transaction d (tr_transaction_id r)
      then Inl (constraint_failed (Unique ''transactions.transaction_id''))
      else if tr_transaction_sequence r \<in> tr_transaction_sequence ` set (db_transactions d)
      then Inl (constraint_failed (Unique ''transactions.transaction_sequence''))
      else Inr (d\<lparr>db_transactions := db_transactions d @ [r]\<rparr>))"

definition insert_event_row :: "EventRow \<Rightarrow> db \<Rightarrow> StorageError + db" where
  "insert_event_row r d =
     (if \<not> db_event_counter d < i64_max
      then Inl (constraint_failed (Overflow ''events.global_sequence''))
      else if er_event_id r \<in> er_event_id ` set (db_events d)
      then Inl (constraint_failed (Unique ''events.event_id''))
      else if (er_stream_id r, er_stream_version r)
          \<in> (\<lambda>e. (er_stream_id e, er_stream_version e)) ` set (db_events d)
      then Inl (constraint_failed (Unique ''events.stream_id, events.stream_version''))
      else if \<not> has_transaction d (er_transaction_id r)
      then Inl (constraint_failed (ForeignKey ''events.transaction_id''))
      else Inr (d\<lparr>db_events := db_events d @ [r\<lparr>er_global_sequence := db_event_counter d + 1\<rparr>],
                  db_event_counter := db_event_counter d + 1\<rparr>))"

definition insert_projection_entry ::
    "str \<Rightarrow> bytes \<Rightarrow> bytes \<Rightarrow> db \<Rightarrow> StorageError + db" where
  "insert_projection_entry projection key value d =
     (if map_of (db_projection_entries d) (projection, key) \<noteq> None
      then Inl (constraint_failed (Unique ''projection_entries.projection, projection_entries.key''))
      else if map_of (db_projection_meta d) projection = None
      then Inl (constraint_failed (ForeignKey ''projection_entries.projection''))
      else Inr (d\<lparr>db_projection_entries := AList.update (projection, key) value (db_projection_entries d)\<rparr>))"

definition upsert_projection_entry ::
    "str \<Rightarrow> bytes \<Rightarrow> bytes \<Rightarrow> db \<Rightarrow> StorageError + db" where
  "upsert_projection_entry projection key value d =
     (if map_of (db_projection_meta d) projection = None
      then Inl (constraint_failed (ForeignKey ''projection_entries.projection''))
      else Inr (d\<lparr>db_projection_entries := AList.update (projection, key) value (db_projection_entries d)\<rparr>))"

text \<open>The CHECK clauses of \<open>jobs_v2\<close>; those on the ranges of \<open>state\<close> and \<open>attempt\<close> hold by type.\<close>

definition job_checks :: "JobRow \<Rightarrow> bool" where
  "job_checks r \<longleftrightarrow>
     0 < jr_max_attempts r \<and>
     (jr_state r = Leased \<longrightarrow>
        jr_lease_token r \<noteq> None \<and> jr_worker_id r \<noteq> None \<and> jr_lease_expires_at_ms r \<noteq> None) \<and>
     (jr_state r \<noteq> Leased \<longrightarrow>
        jr_lease_token r = None \<and> jr_worker_id r = None \<and> jr_lease_expires_at_ms r = None) \<and>
     (jr_state r = RetryWait \<longrightarrow> jr_retry_after_ms r \<noteq> None) \<and>
     (is_terminal (jr_state r) \<longleftrightarrow> jr_terminal_at_ms r \<noteq> None)"

definition insert_job :: "JobRow \<Rightarrow> db \<Rightarrow> StorageError + db" where
  "insert_job r d =
     (if \<not> job_checks r
      then Inl (constraint_failed (Check ''jobs''))
      else if jr_job_id r \<in> jr_job_id ` set (db_jobs d)
      then Inl (constraint_failed (Unique ''jobs.job_id''))
      else if jr_enqueue_sequence r \<in> jr_enqueue_sequence ` set (db_jobs d)
      then Inl (constraint_failed (Unique ''jobs.enqueue_sequence''))
      else if \<not> has_transaction d (jr_enqueue_transaction_id r)
      then Inl (constraint_failed (ForeignKey ''jobs.enqueue_transaction_id''))
      else Inr (d\<lparr>db_jobs := db_jobs d @ [r]\<rparr>))"

text \<open>\<open>UPDATE jobs SET ... WHERE job_id = ?1\<close>, the assignments given as a function of the row.\<close>

definition update_rows :: "Id \<Rightarrow> (JobRow \<Rightarrow> JobRow) \<Rightarrow> JobRow list \<Rightarrow> JobRow list" where
  "update_rows i f rows = map (\<lambda>r. if jr_job_id r = i then f r else r) rows"

definition update_job :: "Id \<Rightarrow> (JobRow \<Rightarrow> JobRow) \<Rightarrow> db \<Rightarrow> StorageError + db" where
  "update_job i f d =
     (if list_all job_checks (map f (filter (\<lambda>r. jr_job_id r = i) (db_jobs d)))
      then Inr (d\<lparr>db_jobs := update_rows i f (db_jobs d)\<rparr>)
      else Inl (constraint_failed (Check ''jobs'')))"

definition insert_receipt :: "ReceiptRow \<Rightarrow> db \<Rightarrow> StorageError + db" where
  "insert_receipt r d =
     (if (cl_transaction_id r, cl_job_id r)
          \<in> (\<lambda>c. (cl_transaction_id c, cl_job_id c)) ` set (db_claim_receipts d)
      then Inl (constraint_failed (Unique ''claim_receipts.transaction_id, claim_receipts.job_id''))
      else if \<not> has_transaction d (cl_transaction_id r)
      then Inl (constraint_failed (ForeignKey ''claim_receipts.transaction_id''))
      else Inr (d\<lparr>db_claim_receipts := db_claim_receipts d @ [r]\<rparr>))"

text \<open>\<open>LIMIT\<close> with a \<open>usize\<close> cast to \<open>i64\<close>: a negative limit is no limit.\<close>

definition sql_limit :: "nat \<Rightarrow> 'a list \<Rightarrow> 'a list" where
  "sql_limit n xs =
     (let l = u64_as_i64 (of_nat n) in if l < 0 then xs else take (nat l) xs)"

text \<open>A column stored as \<open>i64\<close> that the code reads back with \<open>as u64\<close>, absent rows being 0.\<close>

definition version_of :: "(str \<times> i64) list \<Rightarrow> str \<Rightarrow> u64" where
  "version_of tbl k = i64_as_u64 (case map_of tbl k of Some v \<Rightarrow> v | None \<Rightarrow> 0)"

section \<open>Facts on the statements\<close>

lemma u64_as_i64_of_nat: "int n \<le> i64_max \<Longrightarrow> u64_as_i64 (of_nat n) = int n"
  using u64_as_i64_of_i64 [of "int n"]
  by (simp add: i64_as_u64_def is_i64_def i64_min_def)

lemma fold_max_upto: "0 < n \<Longrightarrow> fold max [1..int n] (hd [1..int n]) = int n"
proof -
  assume n: "0 < n"
  then have ne: "[1..int n] = 1 # [2..int n]"
    by (simp add: upto_rec1)
  have "fold max [1..int n] 1 = Max (set [1..int n])"
    using Max.set_eq_fold [of 1 "[1..int n]"] n by (simp add: insert_absorb)
  also have "\<dots> = int n"
    using n by (intro Max_eqI) auto
  finally show ?thesis using ne by simp
qed

text \<open>In a table whose sequence column is 1, 2, ..., n the next value is n + 1.\<close>

lemma next_sequence_upto:
  assumes "xs = [1..int (length xs)]"
  shows "next_sequence c xs =
    (if int (length xs) < i64_max then Inr (int (length xs) + 1) else Inl (constraint_failed (Overflow c)))"
proof (cases "xs = []")
  case False
  then show ?thesis
    using assms fold_max_upto [of "length xs"] by (simp add: next_sequence_def Let_def)
qed (simp add: next_sequence_def i64_max_def)

lemma upto_snoc: "[1..int (Suc n)] = [1..int n] @ [int n + 1]"
  using upto_rec2 [of 1 "int (Suc n)"] by simp

text \<open>Numbered rows: a lower bound on the number cuts off a prefix of the table.\<close>

lemma numbered_snocD:
  assumes "map g (xs @ [x]) = [1..int (length (xs @ [x]))]"
  shows "map g xs = [1..int (length xs)]" and "g x = int (length xs) + 1"
  using assms upto_snoc [of "length xs"] by (simp_all add: add.commute)

lemma numbered_filter:
  "map g xs = [1..int (length xs)] \<Longrightarrow> filter (\<lambda>x. int a < g x) xs = drop a xs"
proof (induction xs rule: rev_induct)
  case (snoc x xs)
  note split = numbered_snocD [OF snoc.prems]
  show ?case using snoc.IH [OF split(1)] split(2) by auto
qed simp

lemma numbered_nth: "map g xs = [1..int (length xs)] \<Longrightarrow> k < length xs \<Longrightarrow> g (xs ! k) = int k + 1"
  by (metis add.commute le_add1 length_map length_upto nat_int nth_map nth_upto of_nat_Suc plus_1_eq_Suc
      of_nat_le_iff Suc_leI)

lemma sorted_numbered: "sorted [1..int n]"
  by simp

lemma sort_key_numbered: "map g xs = [1..int n] \<Longrightarrow> sort_key g (xs :: 'a list) = xs" for g :: "'a \<Rightarrow> int"
  by (simp add: sort_key_id_if_sorted)

lemma sql_limit_take: "int n \<le> i64_max \<Longrightarrow> sql_limit n xs = take n xs"
  using u64_as_i64_of_nat [of n] by (simp add: sql_limit_def)

lemma insert_transaction_Inr [result_simps]:
  "insert_transaction r d = Inr d' \<longleftrightarrow>
     \<not> has_transaction d (tr_transaction_id r) \<and>
     tr_transaction_sequence r \<notin> tr_transaction_sequence ` set (db_transactions d) \<and>
     d' = d\<lparr>db_transactions := db_transactions d @ [r]\<rparr>"
  by (auto simp: insert_transaction_def)

lemma insert_event_row_Inr [result_simps]:
  "insert_event_row r d = Inr d' \<longleftrightarrow>
     db_event_counter d < i64_max \<and>
     er_event_id r \<notin> er_event_id ` set (db_events d) \<and>
     (er_stream_id r, er_stream_version r)
       \<notin> (\<lambda>e. (er_stream_id e, er_stream_version e)) ` set (db_events d) \<and>
     has_transaction d (er_transaction_id r) \<and>
     d' = d\<lparr>db_events := db_events d @ [r\<lparr>er_global_sequence := db_event_counter d + 1\<rparr>],
            db_event_counter := db_event_counter d + 1\<rparr>"
  by (auto simp: insert_event_row_def)

lemma insert_job_Inr [result_simps]:
  "insert_job r d = Inr d' \<longleftrightarrow>
     job_checks r \<and> jr_job_id r \<notin> jr_job_id ` set (db_jobs d) \<and>
     jr_enqueue_sequence r \<notin> jr_enqueue_sequence ` set (db_jobs d) \<and>
     has_transaction d (jr_enqueue_transaction_id r) \<and>
     d' = d\<lparr>db_jobs := db_jobs d @ [r]\<rparr>"
  by (auto simp: insert_job_def)

lemma update_job_Inr [result_simps]:
  "update_job i f d = Inr d' \<longleftrightarrow>
     (\<forall>r \<in> set (db_jobs d). jr_job_id r = i \<longrightarrow> job_checks (f r)) \<and>
     d' = d\<lparr>db_jobs := update_rows i f (db_jobs d)\<rparr>"
  by (auto simp: update_job_def list_all_iff)

lemma insert_receipt_Inr [result_simps]:
  "insert_receipt r d = Inr d' \<longleftrightarrow>
     (cl_transaction_id r, cl_job_id r)
       \<notin> (\<lambda>c. (cl_transaction_id c, cl_job_id c)) ` set (db_claim_receipts d) \<and>
     has_transaction d (cl_transaction_id r) \<and>
     d' = d\<lparr>db_claim_receipts := db_claim_receipts d @ [r]\<rparr>"
  by (auto simp: insert_receipt_def)

lemma insert_projection_entry_Inr [result_simps]:
  "insert_projection_entry p k v d = Inr d' \<longleftrightarrow>
     map_of (db_projection_entries d) (p, k) = None \<and> map_of (db_projection_meta d) p \<noteq> None \<and>
     d' = d\<lparr>db_projection_entries := AList.update (p, k) v (db_projection_entries d)\<rparr>"
  by (auto simp: insert_projection_entry_def)

lemma upsert_projection_entry_Inr [result_simps]:
  "upsert_projection_entry p k v d = Inr d' \<longleftrightarrow>
     map_of (db_projection_meta d) p \<noteq> None \<and>
     d' = d\<lparr>db_projection_entries := AList.update (p, k) v (db_projection_entries d)\<rparr>"
  by (auto simp: upsert_projection_entry_def)

section \<open>The interface of a table addressed by its key\<close>

locale keyed_table =
  fixes get :: "'t \<Rightarrow> 'k \<Rightarrow> 'v option"
    and put :: "'k \<Rightarrow> 'v \<Rightarrow> 't \<Rightarrow> 't"
    and remove :: "'k \<Rightarrow> 't \<Rightarrow> 't"
  assumes get_put: "get (put k v t) = (get t)(k \<mapsto> v)"
    and get_remove: "get (remove k t) = (get t)(k := None)"
begin

lemma get_put_all: "get (fold (\<lambda>(k, v). put k v) kvs t) = get t ++ map_of (rev kvs)"
proof (induction kvs arbitrary: t)
  case (Cons kv kvs)
  obtain k v where kv: "kv = (k, v)" by fastforce
  have "get (fold (\<lambda>(k, v). put k v) (kv # kvs) t) = (get t)(k \<mapsto> v) ++ map_of (rev kvs)"
    using Cons.IH [of "put k v t"] by (simp add: kv get_put fun_upd_def)
  also have "\<dots> = get t ++ map_of (rev (kv # kvs))"
    by (auto simp: kv map_add_def fun_eq_iff map_of_append split: option.splits)
  finally show ?case .
qed simp

text \<open>Writing distinct keys in any order gives the same table.\<close>

lemma put_all_order:
  assumes "distinct (map fst kvs)" and "set kvs = set kvs'" and "distinct (map fst kvs')"
  shows "get (fold (\<lambda>(k, v). put k v) kvs t) = get (fold (\<lambda>(k, v). put k v) kvs' t)"
proof -
  have "map_of (rev kvs) = map_of (rev kvs')"
    using assms by (intro map_of_inject_set [THEN iffD2]) (auto simp: rev_map [symmetric])
  then show ?thesis by (simp add: get_put_all)
qed

lemma get_remove_all: "get (fold remove ks t) = (\<lambda>k. if k \<in> set ks then None else get t k)"
  by (induction ks arbitrary: t) (auto simp: get_remove fun_eq_iff)

end

interpretation assoc: keyed_table map_of AList.update AList.delete
  by unfold_locales (simp_all add: update_conv' delete_conv')

end
