(* ===== verification/EventStore.thy ===== *)
theory EventStore
  imports Database
begin

text \<open>
  \<open>src/store/events.rs\<close>: inserting an event row and the reads of the events and streams tables.
  Reads decode the raw columns of a row; the round trip shows that decoding what was stored
  never fails.
\<close>

section \<open>Rows\<close>

record RawEvent =
  re_global_sequence :: i64
  re_event_id :: bytes
  re_transaction_id :: bytes
  re_stream_id :: str
  re_stream_version :: i64
  re_event_type :: str
  re_schema_version :: u32
  re_occurred_at_ms :: i64
  re_causation_id :: "bytes option"
  re_correlation_id :: "bytes option"
  re_payload :: bytes
  re_metadata :: bytes

text \<open>The column values bound by the INSERT, as a later SELECT reads them.\<close>

definition event_columns :: "EventRow \<Rightarrow> RawEvent" where
  "event_columns r =
     \<lparr>re_global_sequence = er_global_sequence r, re_event_id = as_bytes (er_event_id r),
      re_transaction_id = as_bytes (er_transaction_id r), re_stream_id = er_stream_id r,
      re_stream_version = er_stream_version r, re_event_type = er_event_type r,
      re_schema_version = er_schema_version r, re_occurred_at_ms = er_occurred_at_ms r,
      re_causation_id = map_option as_bytes (er_causation_id r),
      re_correlation_id = map_option as_bytes (er_correlation_id r),
      re_payload = er_payload r, re_metadata = er_metadata r\<rparr>"

definition blob_to_id :: "bytes \<Rightarrow> StorageError + Id" where
  "blob_to_id blob =
     (if length blob = 16 then Inr (from_bytes blob)
      else Inl (Sqlite (SqliteText ''corrupt 16-byte id column'')))"

fun opt_blob_to_id :: "bytes option \<Rightarrow> StorageError + Id option" where
  "opt_blob_to_id None = Inr None"
| "opt_blob_to_id (Some blob) = and_then (blob_to_id blob) (\<lambda>i. Inr (Some i))"

definition row_to_persisted_event :: "RawEvent \<Rightarrow> StorageError + PersistedEvent" where
  "row_to_persisted_event row =
     and_then (blob_to_id (re_transaction_id row)) (\<lambda>transaction_id.
     and_then (blob_to_id (re_event_id row)) (\<lambda>event_id.
     and_then (opt_blob_to_id (re_causation_id row)) (\<lambda>causation_id.
     and_then (opt_blob_to_id (re_correlation_id row)) (\<lambda>correlation_id.
     Inr \<lparr>pe_transaction_id = transaction_id,
          pe_global_sequence = i64_as_u64 (re_global_sequence row),
          pe_stream_version = i64_as_u64 (re_stream_version row),
          pe_event =
            \<lparr>ev_event_id = event_id, ev_stream_id = re_stream_id row,
             ev_event_type = re_event_type row, ev_schema_version = re_schema_version row,
             ev_occurred_at_ms = re_occurred_at_ms row, ev_causation_id = causation_id,
             ev_correlation_id = correlation_id, ev_payload = re_payload row,
             ev_metadata = re_metadata row\<rparr>\<rparr>))))"

fun collect :: "('e + 'a) list \<Rightarrow> 'e + 'a list" where
  "collect [] = Inr []"
| "collect (row # rows) =
     and_then row (\<lambda>x. and_then (collect rows) (\<lambda>xs. Inr (x # xs)))"

definition read_events :: "EventRow list \<Rightarrow> StorageError + PersistedEvent list" where
  "read_events rows = collect (map (\<lambda>r. row_to_persisted_event (event_columns r)) rows)"

section \<open>Operations\<close>

definition insert_event :: "Id \<Rightarrow> Event \<Rightarrow> u64 \<Rightarrow> db \<Rightarrow> StorageError + db" where
  "insert_event transaction_id event stream_version d =
     insert_event_row
       \<lparr>er_global_sequence = 0, er_event_id = ev_event_id event,
        er_transaction_id = transaction_id, er_stream_id = ev_stream_id event,
        er_stream_version = u64_as_i64 stream_version, er_event_type = ev_event_type event,
        er_schema_version = ev_schema_version event, er_occurred_at_ms = ev_occurred_at_ms event,
        er_causation_id = ev_causation_id event, er_correlation_id = ev_correlation_id event,
        er_payload = ev_payload event, er_metadata = ev_metadata event\<rparr> d"

definition events_after :: "db \<Rightarrow> u64 \<Rightarrow> nat \<Rightarrow> StorageError + PersistedEvent list" where
  "events_after d after limit =
     read_events (sql_limit limit (sort_key er_global_sequence
       (filter (\<lambda>r. er_global_sequence r > u64_as_i64 after) (db_events d))))"

definition stream_events ::
    "db \<Rightarrow> str \<Rightarrow> u64 \<Rightarrow> nat \<Rightarrow> StorageError + PersistedEvent list" where
  "stream_events d stream_id from_version limit =
     read_events (sql_limit limit (sort_key er_stream_version
       (filter (\<lambda>r. er_stream_id r = stream_id \<and> er_stream_version r \<ge> u64_as_i64 from_version)
         (db_events d))))"

definition last_events :: "db \<Rightarrow> nat \<Rightarrow> StorageError + PersistedEvent list" where
  "last_events d limit =
     and_then (read_events (sql_limit limit (rev (sort_key er_global_sequence (db_events d)))))
       (\<lambda>events. Inr (rev events))"

definition get_event :: "db \<Rightarrow> Id \<Rightarrow> StorageError + PersistedEvent option" where
  "get_event d event_id =
     (case find (\<lambda>r. er_event_id r = event_id) (db_events d) of
        None \<Rightarrow> Inr None
      | Some r \<Rightarrow> and_then (row_to_persisted_event (event_columns r)) (\<lambda>e. Inr (Some e)))"

definition stream_version :: "db \<Rightarrow> str \<Rightarrow> StorageError + u64" where
  "stream_version d stream_id = Inr (version_of (db_streams d) stream_id)"

section \<open>Reading back what was stored\<close>

definition persisted :: "EventRow \<Rightarrow> PersistedEvent" where
  "persisted r =
     \<lparr>pe_transaction_id = er_transaction_id r,
      pe_global_sequence = i64_as_u64 (er_global_sequence r),
      pe_stream_version = i64_as_u64 (er_stream_version r),
      pe_event =
        \<lparr>ev_event_id = er_event_id r, ev_stream_id = er_stream_id r,
         ev_event_type = er_event_type r, ev_schema_version = er_schema_version r,
         ev_occurred_at_ms = er_occurred_at_ms r, ev_causation_id = er_causation_id r,
         ev_correlation_id = er_correlation_id r, ev_payload = er_payload r,
         ev_metadata = er_metadata r\<rparr>\<rparr>"

lemma blob_to_id_as_bytes [simp, codec_simps]: "blob_to_id (as_bytes i) = Inr i"
  by (simp add: blob_to_id_def)

lemma opt_blob_to_id_as_bytes [simp, codec_simps]:
  "opt_blob_to_id (map_option as_bytes v) = Inr v"
  by (cases v) auto

lemma row_to_persisted_event_columns [simp, codec_simps]:
  "row_to_persisted_event (event_columns r) = Inr (persisted r)"
  by (simp add: row_to_persisted_event_def event_columns_def persisted_def)

lemma collect_Inr [simp]: "collect (map (\<lambda>x. Inr (f x)) xs) = Inr (map f xs)"
  by (induction xs) auto

lemma read_events_map [simp]: "read_events rows = Inr (map persisted rows)"
  by (simp add: read_events_def)

section \<open>The invariant of the event log\<close>

definition in_stream :: "str \<Rightarrow> EventRow list \<Rightarrow> EventRow list" where
  "in_stream s rows = filter (\<lambda>r. er_stream_id r = s) rows"

definition stream_count :: "db \<Rightarrow> str \<Rightarrow> nat" where
  "stream_count d s = length (in_stream s (db_events d))"

text \<open>
  Global sequences are 1, 2, ..., n in insertion order, the versions of every stream are
  1, 2, ..., k in insertion order, event ids are unique and every event belongs to a committed
  transaction.
\<close>

definition events_ok :: "db \<Rightarrow> bool" where
  "events_ok d \<longleftrightarrow>
     map er_global_sequence (db_events d) = [1..int (length (db_events d))] \<and>
     db_event_counter d = int (length (db_events d)) \<and>
     int (length (db_events d)) \<le> i64_max \<and>
     distinct (map er_event_id (db_events d)) \<and>
     (\<forall>s. map er_stream_version (in_stream s (db_events d)) = [1..int (stream_count d s)]) \<and>
     (\<forall>r \<in> set (db_events d). has_transaction d (er_transaction_id r))"

lemma events_okD:
  assumes "events_ok d"
  shows "map er_global_sequence (db_events d) = [1..int (length (db_events d))]"
    and "int (length (db_events d)) \<le> i64_max"
    and "distinct (map er_event_id (db_events d))"
    and "map er_stream_version (in_stream s (db_events d)) = [1..int (stream_count d s)]"
  using assms by (simp_all add: events_ok_def)

lemma in_stream_simps [simp]:
  "in_stream s [] = []"
  "in_stream s (rows @ rows') = in_stream s rows @ in_stream s rows'"
  "in_stream s (r # rows) = (if er_stream_id r = s then r # in_stream s rows else in_stream s rows)"
  by (simp_all add: in_stream_def)

lemma stream_count_bound: "events_ok d \<Longrightarrow> int (stream_count d s) \<le> i64_max"
  using length_filter_le [of "\<lambda>r. er_stream_id r = s" "db_events d"] events_okD(2) [of d]
  unfolding stream_count_def in_stream_def by linarith

text \<open>Inserting the next version of a stream keeps the log well formed.\<close>

lemma insert_event_ok:
  assumes ok: "events_ok d"
    and ins: "insert_event t e v d = Inr d'"
    and next_version: "u64_as_i64 v = int (stream_count d (ev_stream_id e)) + 1"
  shows "events_ok d'"
    and "stream_count d' s = stream_count d s + (if s = ev_stream_id e then 1 else 0)"
proof -
  define r where "r = \<lparr>er_global_sequence = int (length (db_events d)) + 1,
    er_event_id = ev_event_id e, er_transaction_id = t, er_stream_id = ev_stream_id e,
    er_stream_version = u64_as_i64 v, er_event_type = ev_event_type e,
    er_schema_version = ev_schema_version e, er_occurred_at_ms = ev_occurred_at_ms e,
    er_causation_id = ev_causation_id e, er_correlation_id = ev_correlation_id e,
    er_payload = ev_payload e, er_metadata = ev_metadata e\<rparr>"
  have r: "er_event_id r = ev_event_id e" "er_stream_id r = ev_stream_id e"
    "er_stream_version r = int (stream_count d (ev_stream_id e)) + 1"
    "er_global_sequence r = int (length (db_events d)) + 1" "er_transaction_id r = t"
    using next_version by (simp_all add: r_def)
  have d': "db_events d' = db_events d @ [r]"
      "db_event_counter d' = int (length (db_events d)) + 1"
      "db_transactions d' = db_transactions d"
      "int (length (db_events d)) < i64_max" "er_event_id r \<notin> er_event_id ` set (db_events d)"
      "has_transaction d t"
    using ins ok by (auto simp: insert_event_def result_simps events_ok_def r_def)
  show count: "stream_count d' s = stream_count d s + (if s = ev_stream_id e then 1 else 0)" for s
    using r(2) d'(1) by (simp add: stream_count_def)
  have "has_transaction d' = has_transaction d"
    using d'(3) by (simp add: has_transaction_def fun_eq_iff)
  moreover have "map er_stream_version (in_stream s (db_events d')) = [1..int (stream_count d' s)]" for s
    using ok r(2,3) d'(1) upto_snoc [of "stream_count d s"] unfolding count
    by (auto simp: events_ok_def add.commute)
  moreover have "map er_global_sequence (db_events d') = [1..int (length (db_events d'))]"
    using ok r(4) d'(1) upto_snoc [of "length (db_events d)"]
    by (simp add: events_ok_def add.commute)
  ultimately show "events_ok d'"
    using ok r(1,5) d' by (auto simp: events_ok_def)
qed

text \<open>An event that is not a duplicate is accepted as long as the sequence has room.\<close>

lemma insert_event_succeeds:
  assumes "events_ok d" and "has_transaction d t"
    and "ev_event_id e \<notin> er_event_id ` set (db_events d)"
    and "u64_as_i64 v = int (stream_count d (ev_stream_id e)) + 1"
    and "int (length (db_events d)) < i64_max"
  shows "\<exists>d'. insert_event t e v d = Inr d'"
proof -
  have "(ev_stream_id e, u64_as_i64 v)
      \<notin> (\<lambda>r. (er_stream_id r, er_stream_version r)) ` set (db_events d)"
  proof
    assume "(ev_stream_id e, u64_as_i64 v)
      \<in> (\<lambda>r. (er_stream_id r, er_stream_version r)) ` set (db_events d)"
    then have "u64_as_i64 v \<in> set (map er_stream_version (in_stream (ev_stream_id e) (db_events d)))"
      by (auto simp: in_stream_def)
    then show False
      using assms(4) events_okD(4) [OF assms(1)] by simp
  qed
  then show ?thesis
    using assms by (auto simp: insert_event_def result_simps events_ok_def)
qed

section \<open>Reads\<close>

text \<open>
  With a cursor below 2^63 and an i64 limit, \<open>events_after\<close> returns the \<open>limit\<close> events that
  follow the first \<open>after\<close> ones in insertion order, without gap or repetition.
\<close>

theorem events_after_page:
  assumes "events_ok d" and "uint after < 2 ^ 63" and "int limit \<le> i64_max"
  shows "events_after d after limit =
    Inr (map persisted (take limit (drop (unat after) (db_events d))))"
proof -
  have "filter (\<lambda>r. u64_as_i64 after < er_global_sequence r) (db_events d)
      = drop (unat after) (db_events d)"
    using numbered_filter [OF events_okD(1) [OF assms(1)], of "unat after"]
      u64_as_i64_small [OF assms(2)] by simp
  moreover have "sort_key er_global_sequence (drop n (db_events d)) = drop n (db_events d)" for n
    using sorted_wrt_drop [OF sorted_numbered, of n "length (db_events d)"]
    by (simp add: sort_key_id_if_sorted drop_map [symmetric] events_okD(1) [OF assms(1)])
  ultimately show ?thesis
    using assms(3) by (simp add: events_after_def sql_limit_take)
qed

text \<open>
  C37: a cursor of 2^63 or more is read as a negative \<open>i64\<close>: instead of nothing, the first events
  of the log come back.
\<close>

theorem events_after_wraps:
  assumes "events_ok d" and "2 ^ 63 \<le> uint after"
  shows "events_after d after limit = events_after d 0 limit"
proof -
  have "u64_as_i64 after < 0"
    using u64_as_i64_big [OF assms(2)] uint_lt2p [of after] by simp
  moreover have "0 < er_global_sequence r" if "r \<in> set (db_events d)" for r
  proof -
    have "er_global_sequence r \<in> set (map er_global_sequence (db_events d))"
      using that by simp
    then show ?thesis by (simp add: events_okD(1) [OF assms(1)] del: set_map)
  qed
  ultimately have "filter (\<lambda>r. u64_as_i64 after < er_global_sequence r) (db_events d)
      = filter (\<lambda>r. 0 < er_global_sequence r) (db_events d)"
    by (intro filter_cong) force+
  then show ?thesis
    by (simp add: events_after_def u64_as_i64_def)
qed

lemma sort_key_suffix:
  assumes "map (g :: 'a \<Rightarrow> int) xs = [1..int n]"
  shows "sort_key g (drop k xs) = drop k xs"
  using assms sorted_wrt_drop [OF sorted_numbered, of k n]
  by (simp add: sort_key_id_if_sorted drop_map [symmetric])

text \<open>
  Reading a stream from a version below 2^63 returns the \<open>limit\<close> events of that stream
  from that version on, oldest first: version \<open>k\<close> is the \<open>k\<close>-th event of the stream.
\<close>

theorem stream_events_page:
  assumes "events_ok d" and "uint from < 2 ^ 63" and "int limit \<le> i64_max"
  shows "stream_events d s from limit =
    Inr (map persisted (take limit (drop (unat from - 1) (in_stream s (db_events d)))))"
proof -
  let ?rows = "in_stream s (db_events d)"
  have num: "map er_stream_version ?rows = [1..int (length ?rows)]"
    using events_okD(4) [OF assms(1)] by (simp add: stream_count_def)
  have positive: "0 < er_stream_version r" if "r \<in> set ?rows" for r
  proof -
    have "er_stream_version r \<in> set (map er_stream_version ?rows)" using that by simp
    then show ?thesis by (simp add: num del: set_map)
  qed
  have "filter (\<lambda>r. er_stream_id r = s \<and> u64_as_i64 from \<le> er_stream_version r) (db_events d)
      = filter (\<lambda>r. u64_as_i64 from \<le> er_stream_version r) ?rows"
    by (simp add: in_stream_def conj_commute)
  also have "\<dots> = filter (\<lambda>r. int (unat from - 1) < er_stream_version r) ?rows"
  proof (intro filter_cong refl)
    fix r assume "r \<in> set ?rows"
    moreover have "u64_as_i64 from = int (unat from)"
      using u64_as_i64_small [OF assms(2)] by simp
    ultimately show "(u64_as_i64 from \<le> er_stream_version r) = (int (unat from - 1) < er_stream_version r)"
      using positive [of r] by (cases "unat from") auto
  qed
  also have "\<dots> = drop (unat from - 1) ?rows"
    by (rule numbered_filter [OF num])
  finally show ?thesis
    using assms(3) sort_key_suffix [OF num] by (simp add: stream_events_def sql_limit_take)
qed

text \<open>
  \<open>last_events\<close> returns the last \<open>limit\<close> events in the order they were committed.
\<close>

theorem last_events_suffix:
  assumes "events_ok d" and "int limit \<le> i64_max"
  shows "last_events d limit =
    Inr (map persisted (drop (length (db_events d) - limit) (db_events d)))"
  using assms sort_key_suffix [OF events_okD(1) [OF assms(1)], of 0]
  by (simp add: last_events_def sql_limit_take rev_map take_rev)

text \<open>
  An inserted event is found by its id, with every field it was appended with, the
  transaction that wrote it and the stream version it was given.
\<close>

theorem insert_get_event:
  assumes "events_ok d" and "insert_event t e v d = Inr d'"
  shows "get_event d' (ev_event_id e) =
    Inr (Some \<lparr>pe_transaction_id = t,
               pe_global_sequence = of_nat (length (db_events d) + 1),
               pe_stream_version = v, pe_event = e\<rparr>)"
proof -
  have "find (\<lambda>r. er_event_id r = ev_event_id e) (db_events d) = None"
    using assms by (simp add: find_key_None insert_event_def result_simps)
  then show ?thesis
    using assms
    by (auto simp: insert_event_def result_simps get_event_def persisted_def events_ok_def find_append
        i64_as_u64_def)
qed

end
