(* ===== verification/JobStore.thy ===== *)
theory JobStore
  imports Database EventStore
begin

text \<open>
  The job operations of \<open>src/store/jobs.rs\<close> that run inside an open transaction, and the reads
  of the jobs table. A stored row is decoded by \<open>row_to_job\<close> wherever the code reads one.
\<close>

section \<open>Decoding a row\<close>

text \<open>
  The selected columns as the driver returns them, and two columns no read looks at
  (\<open>enqueue_transaction_id\<close> and \<open>updated_transaction_id\<close>), which are carried along.
\<close>

record RawJob =
  rj_job_id :: bytes
  rj_enqueue_sequence :: i64
  rj_queue :: str
  rj_partition_key :: str
  rj_payload :: bytes
  rj_not_before_ms :: i64
  rj_max_attempts :: i64
  rj_effect_mode :: i64
  rj_idempotency_key :: "str option"
  rj_state :: i64
  rj_attempt :: i64
  rj_lease_token :: "bytes option"
  rj_worker_id :: "str option"
  rj_lease_expires_at_ms :: "i64 option"
  rj_retry_after_ms :: "i64 option"
  rj_terminal_at_ms :: "i64 option"
  rj_result_digest :: "bytes option"
  rj_error_summary :: "str option"
  rj_enqueue_transaction_id :: Id
  rj_updated_transaction_id :: Id

definition job_columns :: "JobRow \<Rightarrow> RawJob" where
  "job_columns r =
     \<lparr>rj_job_id = as_bytes (jr_job_id r), rj_enqueue_sequence = jr_enqueue_sequence r,
      rj_queue = jr_queue r, rj_partition_key = jr_partition_key r, rj_payload = jr_payload r,
      rj_not_before_ms = jr_not_before_ms r, rj_max_attempts = uint (jr_max_attempts r),
      rj_effect_mode = effect_encode (jr_effect_mode r),
      rj_idempotency_key = jr_idempotency_key r, rj_state = state_encode (jr_state r),
      rj_attempt = uint (jr_attempt r), rj_lease_token = map_option as_bytes (jr_lease_token r),
      rj_worker_id = jr_worker_id r, rj_lease_expires_at_ms = jr_lease_expires_at_ms r,
      rj_retry_after_ms = jr_retry_after_ms r, rj_terminal_at_ms = jr_terminal_at_ms r,
      rj_result_digest = jr_result_digest r, rj_error_summary = jr_error_summary r,
      rj_enqueue_transaction_id = jr_enqueue_transaction_id r,
      rj_updated_transaction_id = jr_updated_transaction_id r\<rparr>"

text \<open>\<open>id_from_blob\<close> is the same function as \<open>blob_to_id\<close> of the event reads.\<close>

definition row_to_job :: "RawJob \<Rightarrow> StorageError + JobRow" where
  "row_to_job row =
     and_then (blob_to_id (rj_job_id row)) (\<lambda>job_id.
     and_then (ok_or (effect_decode (rj_effect_mode row))
       (Sqlite (SqliteText (''corrupt effect mode '' @ show_int (rj_effect_mode row))))) (\<lambda>effect_mode.
     and_then (ok_or (state_decode (rj_state row))
       (Sqlite (SqliteText (''corrupt job state '' @ show_int (rj_state row))))) (\<lambda>state.
     and_then (opt_blob_to_id (rj_lease_token row)) (\<lambda>lease_token.
     Inr \<lparr>jr_job_id = job_id, jr_enqueue_sequence = rj_enqueue_sequence row,
          jr_enqueue_transaction_id = rj_enqueue_transaction_id row, jr_queue = rj_queue row,
          jr_partition_key = rj_partition_key row, jr_payload = rj_payload row,
          jr_not_before_ms = rj_not_before_ms row,
          jr_max_attempts = word_of_int (rj_max_attempts row), jr_effect_mode = effect_mode,
          jr_idempotency_key = rj_idempotency_key row, jr_state = state,
          jr_attempt = word_of_int (rj_attempt row), jr_lease_token = lease_token,
          jr_worker_id = rj_worker_id row, jr_lease_expires_at_ms = rj_lease_expires_at_ms row,
          jr_retry_after_ms = rj_retry_after_ms row, jr_terminal_at_ms = rj_terminal_at_ms row,
          jr_result_digest = rj_result_digest row, jr_error_summary = rj_error_summary row,
          jr_updated_transaction_id = rj_updated_transaction_id row\<rparr>))))"

lemma row_to_job_columns [simp, codec_simps]: "row_to_job (job_columns r) = Inr r"
  by (simp add: row_to_job_def job_columns_def)

definition into_info :: "JobRow \<Rightarrow> JobInfo" where
  "into_info r =
     \<lparr>ji_job_id = jr_job_id r,
      ji_spec = \<lparr>js_job_id = jr_job_id r, js_queue = jr_queue r,
        js_partition_key = jr_partition_key r, js_payload = jr_payload r,
        js_not_before_ms = jr_not_before_ms r, js_max_attempts = jr_max_attempts r,
        js_effect_mode = jr_effect_mode r, js_idempotency_key = jr_idempotency_key r\<rparr>,
      ji_state = jr_state r, ji_attempt = jr_attempt r,
      ji_lease_expires_at_ms = jr_lease_expires_at_ms r, ji_worker_id = jr_worker_id r,
      ji_retry_after_ms = jr_retry_after_ms r, ji_terminal_at_ms = jr_terminal_at_ms r,
      ji_result_digest = jr_result_digest r, ji_error_summary = jr_error_summary r\<rparr>"

section \<open>Building blocks\<close>

definition DEFAULT_RETRY_DELAY_MS :: i64 where
  "DEFAULT_RETRY_DELAY_MS = 30000"

definition ACTIVE_STATES :: "JobState list" where
  "ACTIVE_STATES = [Pending, Leased, RetryWait, Uncertain]"

definition TERMINAL_STATES :: "JobState list" where
  "TERMINAL_STATES = [Succeeded, Dead, Cancelled]"

definition load_job :: "db \<Rightarrow> Id \<Rightarrow> StorageError + JobRow option" where
  "load_job d job_id =
     (case find (\<lambda>r. jr_job_id r = job_id) (db_jobs d) of
        None \<Rightarrow> Inr None
      | Some r \<Rightarrow> and_then (row_to_job (job_columns r)) (\<lambda>job. Inr (Some job)))"

definition require_job :: "db \<Rightarrow> Id \<Rightarrow> Error + JobRow" where
  "require_job d job_id =
     and_then (map_err Error_Storage (load_job d job_id)) (\<lambda>job.
       ok_or job (Error_Validation (ValidationError (''job '' @ to_hex job_id @ '' does not exist''))))"

definition ensure_transition :: "JobRow \<Rightarrow> JobState \<Rightarrow> Error + unit" where
  "ensure_transition job to =
     guard (can_transition_to (jr_state job) to)
       (Error_Conflict (JobTransition (jr_job_id job) (jr_state job) to))"

definition ensure_lease_token :: "JobRow \<Rightarrow> Id \<Rightarrow> Error + unit" where
  "ensure_lease_token job token =
     guard (jr_lease_token job = Some token)
       (Error_Validation (ValidationError (''stale lease token for job '' @ to_hex (jr_job_id job))))"

text \<open>\<open>SELECT 1 FROM jobs WHERE queue = ?1 AND partition_key = ?2 AND state IN (...)\<close>\<close>

definition partition_active :: "db \<Rightarrow> str \<Rightarrow> str \<Rightarrow> bool" where
  "partition_active d queue part \<longleftrightarrow>
     list_ex (\<lambda>r. jr_queue r = queue \<and> jr_partition_key r = part
       \<and> jr_state r \<in> set ACTIVE_STATES) (db_jobs d)"

definition drain_partition_if_empty :: "str \<Rightarrow> str \<Rightarrow> db \<Rightarrow> db" where
  "drain_partition_if_empty queue part d =
     (if partition_active d queue part then d
      else d\<lparr>db_active_partitions := AList.delete (queue, part) (db_active_partitions d)\<rparr>)"

definition coalesce :: "'a option \<Rightarrow> 'a option \<Rightarrow> 'a option" where
  "coalesce a b = (case a of Some x \<Rightarrow> Some x | None \<Rightarrow> b)"

definition terminal_row ::
    "JobState \<Rightarrow> i64 \<Rightarrow> Id \<Rightarrow> bytes option \<Rightarrow> str option \<Rightarrow> JobRow \<Rightarrow> JobRow" where
  "terminal_row state now_ms transaction_id result_digest error_summary r =
     r\<lparr>jr_state := state, jr_lease_token := None, jr_worker_id := None,
       jr_lease_expires_at_ms := None, jr_retry_after_ms := None,
       jr_terminal_at_ms := Some now_ms,
       jr_result_digest := coalesce result_digest (jr_result_digest r),
       jr_error_summary := coalesce error_summary (jr_error_summary r),
       jr_updated_transaction_id := transaction_id\<rparr>"

definition set_terminal ::
    "JobRow \<Rightarrow> JobState \<Rightarrow> i64 \<Rightarrow> Id \<Rightarrow> bytes option \<Rightarrow> str option \<Rightarrow> db \<Rightarrow> StorageError + db" where
  "set_terminal job state now_ms transaction_id result_digest error_summary d =
     and_then (update_job (jr_job_id job)
         (terminal_row state now_ms transaction_id result_digest error_summary) d)
       (\<lambda>d. Inr (drain_partition_if_empty (jr_queue job) (jr_partition_key job) d))"

definition nonterminal_row :: "JobState \<Rightarrow> i64 option \<Rightarrow> Id \<Rightarrow> JobRow \<Rightarrow> JobRow" where
  "nonterminal_row state retry_after_ms transaction_id r =
     r\<lparr>jr_state := state, jr_lease_token := None, jr_worker_id := None,
       jr_lease_expires_at_ms := None, jr_retry_after_ms := retry_after_ms,
       jr_updated_transaction_id := transaction_id\<rparr>"

definition set_nonterminal ::
    "Id \<Rightarrow> JobState \<Rightarrow> i64 option \<Rightarrow> Id \<Rightarrow> db \<Rightarrow> StorageError + db" where
  "set_nonterminal job_id state retry_after_ms transaction_id d =
     update_job job_id (nonterminal_row state retry_after_ms transaction_id) d"

section \<open>Job operations of a commit\<close>

definition new_job_row :: "Id \<Rightarrow> JobSpec \<Rightarrow> i64 \<Rightarrow> JobRow" where
  "new_job_row transaction_id spec enqueue_sequence =
     \<lparr>jr_job_id = js_job_id spec, jr_enqueue_sequence = enqueue_sequence,
      jr_enqueue_transaction_id = transaction_id, jr_queue = js_queue spec,
      jr_partition_key = js_partition_key spec, jr_payload = js_payload spec,
      jr_not_before_ms = js_not_before_ms spec, jr_max_attempts = js_max_attempts spec,
      jr_effect_mode = js_effect_mode spec, jr_idempotency_key = js_idempotency_key spec,
      jr_state = Pending, jr_attempt = 0, jr_lease_token = None, jr_worker_id = None,
      jr_lease_expires_at_ms = None, jr_retry_after_ms = None, jr_terminal_at_ms = None,
      jr_result_digest = None, jr_error_summary = None,
      jr_updated_transaction_id = transaction_id\<rparr>"

text \<open>\<open>INSERT OR IGNORE INTO active_partitions\<close>\<close>

definition activate_partition :: "str \<Rightarrow> str \<Rightarrow> i64 \<Rightarrow> db \<Rightarrow> db" where
  "activate_partition queue part first d =
     (if map_of (db_active_partitions d) (queue, part) \<noteq> None then d
      else d\<lparr>db_active_partitions := db_active_partitions d @ [((queue, part), first)]\<rparr>)"

definition apply_enqueue :: "Id \<Rightarrow> JobSpec \<Rightarrow> db \<Rightarrow> Error + db" where
  "apply_enqueue transaction_id spec d =
     and_then (map_err Error_Storage (load_job d (js_job_id spec))) (\<lambda>existing.
       if existing \<noteq> None
       then Inl (Error_Validation (ValidationError
              (''job '' @ to_hex (js_job_id spec) @ '' already exists'')))
       else map_err Error_Storage (
         and_then (next_sequence ''jobs.enqueue_sequence'' (map jr_enqueue_sequence (db_jobs d)))
           (\<lambda>enqueue_sequence.
         and_then (insert_job (new_job_row transaction_id spec enqueue_sequence) d) (\<lambda>d.
         Inr (activate_partition (js_queue spec) (js_partition_key spec) enqueue_sequence d)))))"

definition apply_ack :: "Id \<Rightarrow> i64 \<Rightarrow> JobAck \<Rightarrow> db \<Rightarrow> Error + db" where
  "apply_ack transaction_id now_ms ack d =
     and_then (require_job d (ack_job_id ack)) (\<lambda>job.
     and_then (ensure_transition job Succeeded) (\<lambda>_.
     and_then (ensure_lease_token job (ack_lease_token ack)) (\<lambda>_.
     map_err Error_Storage
       (set_terminal job Succeeded now_ms transaction_id (ack_result_digest ack) None d))))"

definition retry_overflow :: Error where
  "retry_overflow = Error_Validation (ValidationError
     ''default retry timestamp overflows i64; supply retry_after_ms explicitly'')"

definition apply_fail :: "Id \<Rightarrow> i64 \<Rightarrow> JobFailure \<Rightarrow> db \<Rightarrow> Error + db" where
  "apply_fail transaction_id now_ms failure d =
     and_then (require_job d (jf_job_id failure)) (\<lambda>job.
       let exhausted = jr_attempt job \<ge> jr_max_attempts job;
           to = (if exhausted then Dead else RetryWait)
       in and_then (ensure_transition job to) (\<lambda>_.
          and_then (ensure_lease_token job (jf_lease_token failure)) (\<lambda>_.
            if exhausted
            then map_err Error_Storage (set_terminal job Dead now_ms transaction_id None
                   (Some (jf_error_summary failure)) d)
            else
              and_then (case jf_retry_after_ms failure of
                  Some ms \<Rightarrow> Inr ms
                | None \<Rightarrow> ok_or (checked_add_i64 now_ms DEFAULT_RETRY_DELAY_MS) retry_overflow)
                (\<lambda>retry_after. map_err Error_Storage (
              and_then (set_nonterminal (jr_job_id job) RetryWait (Some retry_after) transaction_id d)
                (\<lambda>d. update_job (jr_job_id job)
                   (\<lambda>r. r\<lparr>jr_error_summary := Some (jf_error_summary failure)\<rparr>) d))))))"

definition apply_cancel :: "Id \<Rightarrow> i64 \<Rightarrow> JobCancellation \<Rightarrow> db \<Rightarrow> Error + db" where
  "apply_cancel transaction_id now_ms cancellation d =
     and_then (require_job d (jc_job_id cancellation)) (\<lambda>job.
     and_then (ensure_transition job Cancelled) (\<lambda>_.
     and_then (case jc_lease_token cancellation of
         Some token \<Rightarrow> ensure_lease_token job token
       | None \<Rightarrow> if jr_state job = Pending then Inr ()
           else Inl (Error_Validation (ValidationError (''cancelling leased job ''
                  @ to_hex (jr_job_id job) @ '' requires its lease token'')))) (\<lambda>_.
     map_err Error_Storage (set_terminal job Cancelled now_ms transaction_id None None d))))"

definition apply_resolve :: "Id \<Rightarrow> i64 \<Rightarrow> JobResolution \<Rightarrow> db \<Rightarrow> Error + db" where
  "apply_resolve transaction_id now_ms resolution d =
     and_then (require_job d (jres_job_id resolution)) (\<lambda>job.
       case jres_resolution resolution of
         Retry \<Rightarrow>
           if jr_attempt job \<ge> jr_max_attempts job
           then and_then (ensure_transition job Dead) (\<lambda>_.
                map_err Error_Storage (set_terminal job Dead now_ms transaction_id None
                  (Some ''retry resolution exhausted max_attempts'') d))
           else and_then (ensure_transition job Pending) (\<lambda>_.
                map_err Error_Storage (set_nonterminal (jr_job_id job) Pending None transaction_id d))
       | MarkSucceeded \<Rightarrow>
           and_then (ensure_transition job Succeeded) (\<lambda>_.
           map_err Error_Storage (set_terminal job Succeeded now_ms transaction_id None None d))
       | MarkDead \<Rightarrow>
           and_then (ensure_transition job Dead) (\<lambda>_.
           map_err Error_Storage (set_terminal job Dead now_ms transaction_id None
             (Some ''resolved as dead'') d)))"

text \<open>The two UPDATEs of a lease extension.\<close>

definition extend_receipts :: "Id \<Rightarrow> Id \<Rightarrow> i64 \<Rightarrow> ReceiptRow list \<Rightarrow> ReceiptRow list" where
  "extend_receipts job_id lease_token new_expiry_ms rows =
     map (\<lambda>c. if cl_job_id c = job_id \<and> cl_lease_token c = lease_token
              then c\<lparr>cl_lease_expires_at_ms := new_expiry_ms\<rparr> else c) rows"

definition apply_extend_lease ::
    "LeaseExtension \<Rightarrow> i64 \<Rightarrow> db \<Rightarrow> LeaseError + (LeaseExtensionReceipt \<times> db)" where
  "apply_extend_lease extension now_ms d =
     (let job_id = le_job_id extension; lease_token = le_lease_token extension;
          new_expiry_ms = le_new_expiry_ms extension in
      and_then (map_err Lease_Storage (load_job d job_id)) (\<lambda>found.
      and_then (ok_or found (Lease_Conflict (JobNotFound job_id))) (\<lambda>job.
        if jr_state job \<noteq> Leased then Inl (Lease_Conflict (NotLeased job_id (jr_state job)))
        else if jr_lease_token job \<noteq> Some lease_token then Inl (Lease_Conflict (InvalidToken job_id))
        else
          let current_ms = (case jr_lease_expires_at_ms job of Some ms \<Rightarrow> ms | None \<Rightarrow> i64_min) in
          if now_ms > current_ms then Inl (Lease_Conflict (Expired job_id current_ms now_ms))
          else if new_expiry_ms \<le> current_ms
          then Inl (Lease_Conflict (ExpiryNotLater job_id current_ms new_expiry_ms))
          else
            and_then (map_err Lease_Storage
              (update_job job_id (\<lambda>r. r\<lparr>jr_lease_expires_at_ms := Some new_expiry_ms\<rparr>) d)) (\<lambda>d.
            Inr (\<lparr>ler_job_id = job_id, ler_attempt = jr_attempt job,
                  ler_lease_expires_at_ms = new_expiry_ms\<rparr>,
                 d\<lparr>db_claim_receipts := extend_receipts job_id lease_token new_expiry_ms
                      (db_claim_receipts d)\<rparr>)))))"

section \<open>Reads\<close>

definition get_job :: "db \<Rightarrow> Id \<Rightarrow> Error + JobInfo option" where
  "get_job d job_id =
     and_then (map_err Error_Storage (load_job d job_id)) (\<lambda>job. Inr (map_option into_info job))"

definition job_matches :: "str option \<Rightarrow> JobState option \<Rightarrow> JobRow \<Rightarrow> bool" where
  "job_matches queue state r \<longleftrightarrow>
     (case queue of None \<Rightarrow> True | Some q \<Rightarrow> jr_queue r = q) \<and>
     (case state of None \<Rightarrow> True | Some s \<Rightarrow> jr_state r = s)"

definition read_jobs :: "JobRow list \<Rightarrow> Error + JobInfo list" where
  "read_jobs rows =
     and_then (map_err Error_Storage (collect (map (\<lambda>r. row_to_job (job_columns r)) rows)))
       (\<lambda>jobs. Inr (map into_info jobs))"

definition list_jobs :: "db \<Rightarrow> str option \<Rightarrow> JobState option \<Rightarrow> nat \<Rightarrow> Error + JobInfo list" where
  "list_jobs d queue state limit =
     read_jobs (sql_limit limit (sort_key jr_enqueue_sequence
       (filter (job_matches queue state) (db_jobs d))))"

definition list_jobs_page ::
    "db \<Rightarrow> str option \<Rightarrow> JobState option \<Rightarrow> u64 \<Rightarrow> nat \<Rightarrow> Error + (JobInfo list \<times> u64)" where
  "list_jobs_page d queue state after_sequence limit =
     (if uint after_sequence > i64_max
      then Inl (Error_Validation (ValidationError (''jobs_page after_sequence ''
             @ show_u64 after_sequence @ '' exceeds the supported range'')))
      else if int limit > i64_max
      then Inl (Error_Validation (ValidationError (''jobs_page limit ''
             @ show_nat limit @ '' exceeds the supported range'')))
      else
        let rows = sql_limit limit (sort_key jr_enqueue_sequence
              (filter (\<lambda>r. jr_enqueue_sequence r > uint after_sequence \<and> job_matches queue state r)
                (db_jobs d)));
            cursor = (if rows = [] then after_sequence
                      else i64_as_u64 (jr_enqueue_sequence (last rows)))
        in and_then (read_jobs rows) (\<lambda>jobs. Inr (jobs, cursor)))"

end
