(* ===== verification/JobInvariants.thy ===== *)
theory JobInvariants
  imports JobStore
begin

text \<open>
  What the jobs tables always satisfy, and the job operations of a commit as transitions of a
  single row: \<open>apply_ack\<close>, \<open>apply_fail\<close>, \<open>apply_cancel\<close> and \<open>apply_resolve\<close> each load a row,
  decide on it alone and store the result, so their common contract is proved once, in the
  locale \<open>row_operation\<close>.
\<close>

section \<open>Invariants\<close>

text \<open>A single row: the CHECK clauses, and the attempt bounds the code keeps.\<close>

definition job_row_ok :: "JobRow \<Rightarrow> bool" where
  "job_row_ok r \<longleftrightarrow>
     job_checks r \<and> jr_attempt r \<le> jr_max_attempts r \<and>
     (jr_state r \<in> {Pending, RetryWait} \<longrightarrow> jr_attempt r < jr_max_attempts r) \<and>
     (jr_state r \<in> {Leased, Uncertain} \<longrightarrow> 0 < jr_attempt r)"

definition job_partition :: "JobRow \<Rightarrow> str \<times> str" where
  "job_partition r = (jr_queue r, jr_partition_key r)"

text \<open>
  Rows are numbered in enqueue order, and once a job of a partition has been started every
  earlier job of that partition is terminal.
\<close>

definition rows_ok :: "JobRow list \<Rightarrow> bool" where
  "rows_ok rows \<longleftrightarrow>
     map jr_enqueue_sequence rows = [1..int (length rows)] \<and>
     int (length rows) \<le> i64_max \<and>
     distinct (map jr_job_id rows) \<and>
     (\<forall>r \<in> set rows. job_row_ok r) \<and>
     (\<forall>r \<in> set rows. \<forall>s \<in> set rows. job_partition r = job_partition s
        \<and> jr_enqueue_sequence r < jr_enqueue_sequence s \<and> 0 < jr_attempt s
        \<longrightarrow> is_terminal (jr_state r))"

text \<open>
  \<open>active_partitions\<close> lists exactly the partitions with a nonterminal job, with a sequence not
  above that of any such job.
\<close>

definition active_ok :: "((str \<times> str) \<times> i64) list \<Rightarrow> JobRow list \<Rightarrow> bool" where
  "active_ok active rows \<longleftrightarrow>
     distinct (map fst active) \<and>
     (\<forall>r \<in> set rows. \<not> is_terminal (jr_state r) \<longrightarrow>
        (\<exists>first. map_of active (job_partition r) = Some first \<and> first \<le> jr_enqueue_sequence r)) \<and>
     (\<forall>k first. map_of active k = Some first \<longrightarrow>
        (\<exists>r \<in> set rows. job_partition r = k \<and> \<not> is_terminal (jr_state r)))"

text \<open>Receipts name committed transactions and existing jobs, and a leased job has one.\<close>

definition receipt_of :: "JobRow \<Rightarrow> ReceiptRow \<Rightarrow> bool" where
  "receipt_of r c \<longleftrightarrow>
     cl_job_id c = jr_job_id r \<and> jr_lease_token r = Some (cl_lease_token c) \<and>
     jr_worker_id r = Some (cl_worker_id c) \<and>
     jr_lease_expires_at_ms r = Some (cl_lease_expires_at_ms c) \<and> cl_attempt c = jr_attempt r"

definition receipts_ok :: "ReceiptRow list \<Rightarrow> JobRow list \<Rightarrow> bool" where
  "receipts_ok receipts rows \<longleftrightarrow>
     distinct (map (\<lambda>c. (cl_transaction_id c, cl_job_id c)) receipts) \<and>
     (\<forall>c \<in> set receipts. cl_job_id c \<in> jr_job_id ` set rows) \<and>
     (\<forall>r \<in> set rows. jr_state r = Leased \<longrightarrow> (\<exists>c \<in> set receipts. receipt_of r c))"

definition jobs_ok :: "db \<Rightarrow> bool" where
  "jobs_ok d \<longleftrightarrow>
     rows_ok (db_jobs d) \<and> active_ok (db_active_partitions d) (db_jobs d) \<and>
     receipts_ok (db_claim_receipts d) (db_jobs d) \<and>
     (\<forall>r \<in> set (db_jobs d). has_transaction d (jr_enqueue_transaction_id r)) \<and>
     (\<forall>c \<in> set (db_claim_receipts d). has_transaction d (cl_transaction_id c))"

text \<open>The tables a job operation may change.\<close>

definition only_jobs :: "db \<Rightarrow> db \<Rightarrow> bool" where
  "only_jobs d d' \<longleftrightarrow>
     d'\<lparr>db_jobs := [], db_active_partitions := [], db_claim_receipts := []\<rparr>
       = d\<lparr>db_jobs := [], db_active_partitions := [], db_claim_receipts := []\<rparr>"

lemma only_jobs_refl [simp]: "only_jobs d d"
  by (simp add: only_jobs_def)

lemma only_jobs_trans: "only_jobs d d' \<Longrightarrow> only_jobs d' d'' \<Longrightarrow> only_jobs d d''"
  by (simp add: only_jobs_def)

lemma only_jobsD:
  assumes "only_jobs d d'"
  shows "db_transactions d' = db_transactions d" "db_events d' = db_events d"
    "db_event_counter d' = db_event_counter d" "db_streams d' = db_streams d"
    "db_projection_meta d' = db_projection_meta d"
    "db_projection_entries d' = db_projection_entries d"
    "db_queue_cursors d' = db_queue_cursors d"
  using assms by (cases d; cases d'; simp add: only_jobs_def)+

lemma has_transaction_cong:
  "db_transactions d' = db_transactions d \<Longrightarrow> has_transaction d' = has_transaction d"
  by (simp add: has_transaction_def fun_eq_iff)

lemma rows_okD:
  assumes "rows_ok rows"
  shows "map jr_enqueue_sequence rows = [1..int (length rows)]"
    and "distinct (map jr_job_id rows)"
    and "r \<in> set rows \<Longrightarrow> job_row_ok r"
    and "r \<in> set rows \<Longrightarrow> s \<in> set rows \<Longrightarrow> job_partition r = job_partition s \<Longrightarrow>
      jr_enqueue_sequence r < jr_enqueue_sequence s \<Longrightarrow> 0 < jr_attempt s \<Longrightarrow> is_terminal (jr_state r)"
  using assms unfolding rows_ok_def by blast+

lemma rows_ok_unique:
  "rows_ok rows \<Longrightarrow> r \<in> set rows \<Longrightarrow> s \<in> set rows \<Longrightarrow> jr_job_id r = jr_job_id s \<Longrightarrow> r = s"
  using rows_okD(2) by (metis distinct_map inj_onD)

lemma rows_ok_sequence_unique:
  assumes "rows_ok rows" and "r \<in> set rows" and "s \<in> set rows"
    and "jr_enqueue_sequence r = jr_enqueue_sequence s"
  shows "r = s"
proof -
  have "distinct (map jr_enqueue_sequence rows)"
    using rows_okD(1) [OF assms(1)] by simp
  then show ?thesis using assms(2-) by (metis distinct_map inj_onD)
qed

lemma load_job_eq [simp]:
  "load_job d i = Inr (find (\<lambda>r. jr_job_id r = i) (db_jobs d))"
  by (simp add: load_job_def split: option.split)

lemma active_okD:
  assumes "active_ok active rows"
  shows "distinct (map fst active)"
    and "r \<in> set rows \<Longrightarrow> \<not> is_terminal (jr_state r) \<Longrightarrow>
      \<exists>first. map_of active (job_partition r) = Some first \<and> first \<le> jr_enqueue_sequence r"
    and "map_of active k = Some first \<Longrightarrow>
      \<exists>r \<in> set rows. job_partition r = k \<and> \<not> is_terminal (jr_state r)"
  using assms unfolding active_ok_def by blast+

section \<open>Changing one row\<close>

text \<open>What a step of a job keeps: everything it was enqueued with, and the attempt count.\<close>

definition same_job :: "JobRow \<Rightarrow> JobRow \<Rightarrow> bool" where
  "same_job r r' \<longleftrightarrow>
     jr_job_id r' = jr_job_id r \<and> jr_enqueue_sequence r' = jr_enqueue_sequence r \<and>
     jr_enqueue_transaction_id r' = jr_enqueue_transaction_id r \<and> jr_queue r' = jr_queue r \<and>
     jr_partition_key r' = jr_partition_key r \<and> jr_payload r' = jr_payload r \<and>
     jr_not_before_ms r' = jr_not_before_ms r \<and> jr_max_attempts r' = jr_max_attempts r \<and>
     jr_effect_mode r' = jr_effect_mode r \<and> jr_idempotency_key r' = jr_idempotency_key r"

definition row_step :: "JobRow \<Rightarrow> JobRow \<Rightarrow> bool" where
  "row_step r r' \<longleftrightarrow>
     same_job r r' \<and> jr_attempt r' = jr_attempt r \<and> job_row_ok r' \<and>
     can_transition_to (jr_state r) (jr_state r') \<and> jr_state r' \<noteq> Leased"

lemma same_jobD:
  assumes "same_job r r'"
  shows "jr_job_id r' = jr_job_id r" "jr_enqueue_sequence r' = jr_enqueue_sequence r"
    "job_partition r' = job_partition r" "jr_enqueue_transaction_id r' = jr_enqueue_transaction_id r"
    "jr_max_attempts r' = jr_max_attempts r"
  using assms by (simp_all add: same_job_def job_partition_def)

lemma update_rows_cong:
  "(\<And>r. r \<in> set rows \<Longrightarrow> jr_job_id r = i \<Longrightarrow> f r = g r) \<Longrightarrow> update_rows i f rows = update_rows i g rows"
  by (simp add: update_rows_def)

lemma update_rows_update:
  "(\<And>r. jr_job_id (f r) = jr_job_id r) \<Longrightarrow>
     update_rows i g (update_rows i f rows) = update_rows i (\<lambda>r. g (f r)) rows"
  by (simp add: update_rows_def)

lemma set_update_rows:
  assumes "rows_ok rows" and "r \<in> set rows"
  shows "set (update_rows (jr_job_id r) (\<lambda>_. r') rows) = insert r' (set rows - {r})"
  using assms rows_ok_unique [OF assms(1)] by (force simp: update_rows_def)

lemma find_update_rows:
  assumes "\<And>r. r \<in> set rows \<Longrightarrow> jr_job_id r = i \<Longrightarrow> jr_job_id (f r) = i"
  shows "find (\<lambda>r. jr_job_id r = k) (update_rows i f rows) =
    (if k = i then map_option f (find (\<lambda>r. jr_job_id r = k) rows) else find (\<lambda>r. jr_job_id r = k) rows)"
  using assms by (induction rows) (auto simp: update_rows_def)

text \<open>Replacing a row by one of the same job keeps the order of the table.\<close>

lemma rows_ok_replace:
  assumes ok: "rows_ok rows" and r: "r \<in> set rows" and same: "same_job r r'"
    and row: "job_row_ok r'"
    and mono: "is_terminal (jr_state r) \<Longrightarrow> is_terminal (jr_state r')"
    and started: "jr_attempt r' = jr_attempt r \<or>
      (\<forall>s \<in> set rows. job_partition s = job_partition r \<and> jr_enqueue_sequence s < jr_enqueue_sequence r
         \<longrightarrow> is_terminal (jr_state s))"
  shows "rows_ok (update_rows (jr_job_id r) (\<lambda>_. r') rows)"
proof -
  let ?rows = "update_rows (jr_job_id r) (\<lambda>_. r') rows"
  note keep = same_jobD [OF same]
  have "map jr_enqueue_sequence ?rows = map jr_enqueue_sequence rows"
    "map jr_job_id ?rows = map jr_job_id rows"
    using keep rows_ok_unique [OF ok _ r] by (auto simp: update_rows_def)
  moreover have "is_terminal (jr_state a)"
    if "a \<in> set ?rows" "b \<in> set ?rows" "job_partition a = job_partition b"
      "jr_enqueue_sequence a < jr_enqueue_sequence b" "0 < jr_attempt b" for a b
    using that started rows_okD(4) [OF ok] r keep mono
    unfolding set_update_rows [OF ok r] by (metis Diff_iff insert_iff order_less_irrefl)
  moreover have "length ?rows = length rows"
    by (simp add: update_rows_def)
  ultimately show ?thesis
    using ok row set_update_rows [OF ok r, of r'] by (auto simp: rows_ok_def)
qed

section \<open>Storing a row\<close>

text \<open>
  Replace the row of \<open>r\<close>, and drop its partition when no nonterminal job remains in it. While
  \<open>r\<close> itself is nonterminal its partition stays.
\<close>

definition put_row :: "JobRow \<Rightarrow> db \<Rightarrow> db" where
  "put_row r d =
     drain_partition_if_empty (jr_queue r) (jr_partition_key r)
       (d\<lparr>db_jobs := update_rows (jr_job_id r) (\<lambda>_. r) (db_jobs d)\<rparr>)"

lemma active_states [simp]: "s \<in> set ACTIVE_STATES \<longleftrightarrow> \<not> is_terminal s"
  by (cases s) (simp_all add: ACTIVE_STATES_def)

lemma partition_active_iff:
  "partition_active d q p \<longleftrightarrow>
     (\<exists>r \<in> set (db_jobs d). job_partition r = (q, p) \<and> \<not> is_terminal (jr_state r))"
  by (auto simp: partition_active_def list_ex_iff job_partition_def simp del: set_simps)

lemma drain_simps [simp]:
  "db_jobs (drain_partition_if_empty q p d) = db_jobs d"
  "db_claim_receipts (drain_partition_if_empty q p d) = db_claim_receipts d"
  "db_transactions (drain_partition_if_empty q p d) = db_transactions d"
  "only_jobs d (drain_partition_if_empty q p d)"
  by (simp_all add: drain_partition_if_empty_def only_jobs_def)

lemma drain_noop:
  "r \<in> set (db_jobs d) \<Longrightarrow> \<not> is_terminal (jr_state r) \<Longrightarrow> jr_queue r = q \<Longrightarrow> jr_partition_key r = p \<Longrightarrow>
     drain_partition_if_empty q p d = d"
  by (auto simp: drain_partition_if_empty_def partition_active_iff job_partition_def)

text \<open>Draining repairs a table whose only possible stale entry is the partition at hand.\<close>

lemma drain_active_ok:
  assumes "distinct (map fst (db_active_partitions d))"
    and "\<forall>r \<in> set (db_jobs d). \<not> is_terminal (jr_state r) \<longrightarrow>
      (\<exists>first. map_of (db_active_partitions d) (job_partition r) = Some first \<and> first \<le> jr_enqueue_sequence r)"
    and "\<forall>k first. k \<noteq> (q, p) \<longrightarrow> map_of (db_active_partitions d) k = Some first \<longrightarrow>
      (\<exists>r \<in> set (db_jobs d). job_partition r = k \<and> \<not> is_terminal (jr_state r))"
  shows "active_ok (db_active_partitions (drain_partition_if_empty q p d)) (db_jobs d)"
proof (cases "partition_active d q p")
  case True
  then show ?thesis
    using assms unfolding active_ok_def drain_partition_if_empty_def partition_active_iff
    by simp metis
next
  case False
  then have none: "\<forall>r \<in> set (db_jobs d). job_partition r = (q, p) \<longrightarrow> is_terminal (jr_state r)"
    by (auto simp: partition_active_iff)
  have "active_ok (AList.delete (q, p) (db_active_partitions d)) (db_jobs d)"
    unfolding active_ok_def delete_conv'
  proof (intro conjI allI ballI impI)
    show "distinct (map fst (AList.delete (q, p) (db_active_partitions d)))"
      using assms(1) by (rule distinct_delete)
  next
    fix r assume "r \<in> set (db_jobs d)" "\<not> is_terminal (jr_state r)"
    then show "\<exists>first. ((map_of (db_active_partitions d))((q, p) := None)) (job_partition r) = Some first
        \<and> first \<le> jr_enqueue_sequence r"
      using assms(2) none by auto
  next
    fix k first assume "((map_of (db_active_partitions d))((q, p) := None)) k = Some first"
    then show "\<exists>r \<in> set (db_jobs d). job_partition r = k \<and> \<not> is_terminal (jr_state r)"
      using assms(3) by (metis fun_upd_apply option.distinct(1))
  qed
  then show ?thesis using False by (simp add: drain_partition_if_empty_def)
qed

lemma put_row_jobs [simp]:
  "db_jobs (put_row r d) = update_rows (jr_job_id r) (\<lambda>_. r) (db_jobs d)"
  "db_claim_receipts (put_row r d) = db_claim_receipts d"
  "db_transactions (put_row r d) = db_transactions d"
  by (simp_all add: put_row_def)

lemma put_row_only_jobs: "only_jobs d (put_row r d)"
  unfolding put_row_def by (rule only_jobs_trans [OF _ drain_simps(4)]) (simp add: only_jobs_def)

lemma put_row_active_ok:
  assumes ok: "rows_ok (db_jobs d)" "active_ok (db_active_partitions d) (db_jobs d)"
    and r: "r \<in> set (db_jobs d)" "\<not> is_terminal (jr_state r)" and same: "same_job r r'"
  shows "active_ok (db_active_partitions (put_row r' d)) (db_jobs (put_row r' d))"
proof -
  let ?d = "d\<lparr>db_jobs := update_rows (jr_job_id r) (\<lambda>_. r') (db_jobs d)\<rparr>"
  note keep = same_jobD [OF same]
  have rows: "set (db_jobs ?d) = insert r' (set (db_jobs d) - {r})"
    using set_update_rows [OF ok(1) r(1)] by simp
  have part: "job_partition r' = (jr_queue r', jr_partition_key r')"
    by (simp add: job_partition_def)
  have "active_ok (db_active_partitions (drain_partition_if_empty (jr_queue r') (jr_partition_key r') ?d)) (db_jobs ?d)"
  proof (rule drain_active_ok)
    show "distinct (map fst (db_active_partitions ?d))"
      using ok(2) by (simp add: active_ok_def)
    show "\<forall>s \<in> set (db_jobs ?d). \<not> is_terminal (jr_state s) \<longrightarrow>
        (\<exists>first. map_of (db_active_partitions ?d) (job_partition s) = Some first \<and> first \<le> jr_enqueue_sequence s)"
      unfolding rows using ok(2) r keep by (auto simp: active_ok_def)
    show "\<forall>k first. k \<noteq> (jr_queue r', jr_partition_key r') \<longrightarrow>
        map_of (db_active_partitions ?d) k = Some first \<longrightarrow>
        (\<exists>s \<in> set (db_jobs ?d). job_partition s = k \<and> \<not> is_terminal (jr_state s))"
    proof (intro allI impI)
      fix k first
      assume k: "k \<noteq> (jr_queue r', jr_partition_key r')" "map_of (db_active_partitions ?d) k = Some first"
      then obtain s where "s \<in> set (db_jobs d)" "job_partition s = k" "\<not> is_terminal (jr_state s)"
        using active_okD(3) [OF ok(2), of k first] by auto
      moreover from this have "s \<noteq> r" using k(1) keep(3) part by auto
      ultimately show "\<exists>s \<in> set (db_jobs ?d). job_partition s = k \<and> \<not> is_terminal (jr_state s)"
        unfolding rows by blast
    qed
  qed
  then show ?thesis
    using keep(1) by (simp add: put_row_def)
qed

lemma row_stepD:
  assumes "row_step r r'"
  shows "same_job r r'" "jr_attempt r' = jr_attempt r" "job_row_ok r'"
    "can_transition_to (jr_state r) (jr_state r')" "jr_state r' \<noteq> Leased" "\<not> is_terminal (jr_state r)"
  using assms transition_from_nonterminal by (auto simp: row_step_def)

lemma put_row_receipts_ok:
  assumes ok: "rows_ok (db_jobs d)" "receipts_ok (db_claim_receipts d) (db_jobs d)"
    and r: "r \<in> set (db_jobs d)" and same: "same_job r r'" and "jr_state r' \<noteq> Leased"
  shows "receipts_ok (db_claim_receipts (put_row r' d)) (db_jobs (put_row r' d))"
proof -
  have rows: "set (db_jobs (put_row r' d)) = insert r' (set (db_jobs d) - {r})"
    using set_update_rows [OF ok(1) r] same_jobD(1) [OF same] by simp
  then have "jr_job_id ` set (db_jobs (put_row r' d)) = jr_job_id ` set (db_jobs d)"
    using r same_jobD(1) [OF same] by (auto simp: image_iff)
  then show ?thesis
    using ok(2) assms(5) rows unfolding receipts_ok_def put_row_jobs(2) by auto
qed

lemma put_row_jobs_ok:
  assumes ok: "jobs_ok d" and r: "r \<in> set (db_jobs d)" and step: "row_step r r'"
  shows "jobs_ok (put_row r' d)"
proof -
  note st = row_stepD [OF step]
  have "rows_ok (db_jobs (put_row r' d))"
    using rows_ok_replace [OF _ r st(1,3)] ok st(2,6) same_jobD(1) [OF st(1)]
    by (auto simp: jobs_ok_def)
  moreover have "set (db_jobs (put_row r' d)) = insert r' (set (db_jobs d) - {r})"
    using set_update_rows [OF _ r] ok same_jobD(1) [OF st(1)] by (simp add: jobs_ok_def)
  moreover have "has_transaction (put_row r' d) = has_transaction d"
    by (rule has_transaction_cong) simp
  ultimately show ?thesis
    using ok put_row_active_ok [OF _ _ r st(6,1)] put_row_receipts_ok [OF _ _ r st(1,5)] r
      same_jobD(4) [OF st(1)]
    by (auto simp: jobs_ok_def simp del: put_row_jobs(1))
qed

section \<open>How the jobs of a store evolve\<close>

text \<open>
  Every job stays in the table with what it was enqueued with, its state moves along the
  transition table, its attempts never decrease, and a terminal job never changes again.
\<close>

definition row_evolves :: "JobRow \<Rightarrow> JobRow \<Rightarrow> bool" where
  "row_evolves r r' \<longleftrightarrow>
     same_job r r' \<and> job_path (jr_state r) (jr_state r') \<and> jr_attempt r \<le> jr_attempt r' \<and>
     (is_terminal (jr_state r) \<longrightarrow> r' = r)"

definition jobs_evolve :: "db \<Rightarrow> db \<Rightarrow> bool" where
  "jobs_evolve d d' \<longleftrightarrow> (\<forall>r \<in> set (db_jobs d). \<exists>r' \<in> set (db_jobs d'). row_evolves r r')"

lemma same_job_refl [simp]: "same_job r r"
  by (simp add: same_job_def)

lemma same_job_trans: "same_job r s \<Longrightarrow> same_job s t \<Longrightarrow> same_job r t"
  by (simp add: same_job_def)

lemma row_evolves_refl [simp]: "row_evolves r r"
  by (simp add: row_evolves_def job_path_refl)

lemma row_evolves_trans: "row_evolves r s \<Longrightarrow> row_evolves s t \<Longrightarrow> row_evolves r t"
  unfolding row_evolves_def using same_job_trans job_path_trans order_trans by metis

lemma jobs_evolve_refl [simp]: "jobs_evolve d d"
  by (auto simp: jobs_evolve_def intro: row_evolves_refl)

lemma jobs_evolve_trans: "jobs_evolve d d' \<Longrightarrow> jobs_evolve d' d'' \<Longrightarrow> jobs_evolve d d''"
  unfolding jobs_evolve_def using row_evolves_trans by blast

lemma jobs_evolve_cong: "db_jobs d' = db_jobs d \<Longrightarrow> jobs_evolve d d'"
  by (auto simp: jobs_evolve_def intro: row_evolves_refl)

lemma jobs_evolve_replace:
  assumes "rows_ok (db_jobs d)" and "r \<in> set (db_jobs d)"
    and "set (db_jobs d') = insert r' (set (db_jobs d) - {r})" and "row_evolves r r'"
  shows "jobs_evolve d d'"
  using assms by (auto simp: jobs_evolve_def intro: row_evolves_refl)

lemma row_step_evolves: "row_step r r' \<Longrightarrow> row_evolves r r'"
  using row_stepD [of r r'] by (auto simp: row_evolves_def intro: job_path.intros)

text \<open>What a job operation establishes, in one place for the commit loop.\<close>

definition jobs_step :: "db \<Rightarrow> db \<Rightarrow> bool" where
  "jobs_step d d' \<longleftrightarrow> jobs_ok d' \<and> only_jobs d d' \<and> jobs_evolve d d'"

lemma jobs_stepD:
  assumes "jobs_step d d'"
  shows "jobs_ok d'" "only_jobs d d'" "jobs_evolve d d'"
  using assms by (simp_all add: jobs_step_def)

section \<open>The interface of an operation on one job\<close>

text \<open>An operation loads a job, lets \<open>step\<close> decide on its row, and stores the result.\<close>

definition on_job :: "(JobRow \<Rightarrow> Error + JobRow) \<Rightarrow> Id \<Rightarrow> db \<Rightarrow> Error + db" where
  "on_job step i d =
     and_then (require_job d i) (\<lambda>r. and_then (step r) (\<lambda>r'. Inr (put_row r' d)))"

lemma require_job_Inr:
  "rows_ok (db_jobs d) \<Longrightarrow>
     require_job d i = Inr r \<longleftrightarrow> r \<in> set (db_jobs d) \<and> jr_job_id r = i"
  by (simp add: require_job_def find_key_iff rows_okD(2))

locale row_operation =
  fixes step :: "JobRow \<Rightarrow> Error + JobRow"
  assumes step_ok: "step r = Inr r' \<Longrightarrow> job_row_ok r \<Longrightarrow> row_step r r'"
begin

lemma on_job_InrD:
  assumes "jobs_ok d" and "on_job step i d = Inr d'"
  obtains r r' where "r \<in> set (db_jobs d)" "jr_job_id r = i" "step r = Inr r'" "row_step r r'"
    "d' = put_row r' d"
proof -
  obtain r r' where "require_job d i = Inr r" "step r = Inr r'" "d' = put_row r' d"
    using assms(2) by (auto simp: on_job_def and_then_Inr_iff)
  moreover from this have "r \<in> set (db_jobs d)" "jr_job_id r = i"
    using assms(1) by (auto simp: jobs_ok_def require_job_Inr)
  moreover from this have "job_row_ok r"
    using assms(1) rows_okD(3) by (auto simp: jobs_ok_def)
  ultimately show ?thesis using that step_ok by blast
qed

lemma on_job_ok: "jobs_ok d \<Longrightarrow> on_job step i d = Inr d' \<Longrightarrow> jobs_ok d'"
  by (metis on_job_InrD put_row_jobs_ok)

lemma on_job_frame: "jobs_ok d \<Longrightarrow> on_job step i d = Inr d' \<Longrightarrow> only_jobs d d'"
  by (metis on_job_InrD put_row_only_jobs)

lemma on_job_evolves:
  assumes "jobs_ok d" and "on_job step i d = Inr d'"
  shows "jobs_evolve d d'"
proof -
  obtain r r' where r: "r \<in> set (db_jobs d)" "row_step r r'" "d' = put_row r' d"
    using on_job_InrD [OF assms] by metis
  moreover from this have "set (db_jobs d') = insert r' (set (db_jobs d) - {r})"
    using set_update_rows [OF _ r(1)] assms(1) same_jobD(1) [OF row_stepD(1) [OF r(2)]]
    by (simp add: jobs_ok_def)
  ultimately show ?thesis
    using assms(1) jobs_evolve_replace row_step_evolves by (auto simp: jobs_ok_def)
qed

lemma on_job_step: "jobs_ok d \<Longrightarrow> on_job step i d = Inr d' \<Longrightarrow> jobs_step d d'"
  unfolding jobs_step_def using on_job_ok on_job_frame on_job_evolves by blast

end

section \<open>The four operations as row operations\<close>

definition ack_row :: "Id \<Rightarrow> i64 \<Rightarrow> JobAck \<Rightarrow> JobRow \<Rightarrow> Error + JobRow" where
  "ack_row t now ack r =
     and_then (ensure_transition r Succeeded) (\<lambda>_.
     and_then (ensure_lease_token r (ack_lease_token ack)) (\<lambda>_.
     Inr (terminal_row Succeeded now t (ack_result_digest ack) None r)))"

definition retry_at :: "i64 \<Rightarrow> JobFailure \<Rightarrow> Error + i64" where
  "retry_at now failure =
     (case jf_retry_after_ms failure of
        Some ms \<Rightarrow> Inr ms
      | None \<Rightarrow> ok_or (checked_add_i64 now DEFAULT_RETRY_DELAY_MS) retry_overflow)"

definition fail_row :: "Id \<Rightarrow> i64 \<Rightarrow> JobFailure \<Rightarrow> JobRow \<Rightarrow> Error + JobRow" where
  "fail_row t now failure r =
     (if jr_attempt r \<ge> jr_max_attempts r then
        and_then (ensure_transition r Dead) (\<lambda>_.
        and_then (ensure_lease_token r (jf_lease_token failure)) (\<lambda>_.
        Inr (terminal_row Dead now t None (Some (jf_error_summary failure)) r)))
      else
        and_then (ensure_transition r RetryWait) (\<lambda>_.
        and_then (ensure_lease_token r (jf_lease_token failure)) (\<lambda>_.
        and_then (retry_at now failure) (\<lambda>ms.
        Inr ((nonterminal_row RetryWait (Some ms) t r)\<lparr>jr_error_summary := Some (jf_error_summary failure)\<rparr>)))))"

definition cancel_row :: "Id \<Rightarrow> i64 \<Rightarrow> JobCancellation \<Rightarrow> JobRow \<Rightarrow> Error + JobRow" where
  "cancel_row t now cancellation r =
     and_then (ensure_transition r Cancelled) (\<lambda>_.
     and_then (case jc_lease_token cancellation of
         Some token \<Rightarrow> ensure_lease_token r token
       | None \<Rightarrow> guard (jr_state r = Pending) (Error_Validation (ValidationError
           (''cancelling leased job '' @ to_hex (jr_job_id r) @ '' requires its lease token'')))) (\<lambda>_.
     Inr (terminal_row Cancelled now t None None r)))"

definition resolve_row :: "Id \<Rightarrow> i64 \<Rightarrow> JobResolution \<Rightarrow> JobRow \<Rightarrow> Error + JobRow" where
  "resolve_row t now resolution r =
     (case jres_resolution resolution of
        Retry \<Rightarrow>
          if jr_attempt r \<ge> jr_max_attempts r
          then and_then (ensure_transition r Dead) (\<lambda>_.
               Inr (terminal_row Dead now t None (Some ''retry resolution exhausted max_attempts'') r))
          else and_then (ensure_transition r Pending) (\<lambda>_. Inr (nonterminal_row Pending None t r))
      | MarkSucceeded \<Rightarrow>
          and_then (ensure_transition r Succeeded) (\<lambda>_. Inr (terminal_row Succeeded now t None None r))
      | MarkDead \<Rightarrow>
          and_then (ensure_transition r Dead) (\<lambda>_.
          Inr (terminal_row Dead now t None (Some ''resolved as dead'') r)))"

text \<open>The written rows satisfy the CHECK clauses, so the UPDATEs cannot fail.\<close>

lemma terminal_row_simps [simp]:
  "jr_job_id (terminal_row s now t d e r) = jr_job_id r"
  "jr_queue (terminal_row s now t d e r) = jr_queue r"
  "jr_partition_key (terminal_row s now t d e r) = jr_partition_key r"
  "jr_state (terminal_row s now t d e r) = s"
  "jr_attempt (terminal_row s now t d e r) = jr_attempt r"
  "same_job r (terminal_row s now t d e r)"
  by (simp_all add: terminal_row_def same_job_def)

lemma nonterminal_row_simps [simp]:
  "jr_job_id (nonterminal_row s m t r) = jr_job_id r"
  "jr_queue (nonterminal_row s m t r) = jr_queue r"
  "jr_partition_key (nonterminal_row s m t r) = jr_partition_key r"
  "jr_state (nonterminal_row s m t r) = s"
  "jr_attempt (nonterminal_row s m t r) = jr_attempt r"
  "same_job r (nonterminal_row s m t r)"
  by (simp_all add: nonterminal_row_def same_job_def)

lemma terminal_row_ok:
  "job_row_ok r \<Longrightarrow> is_terminal s \<Longrightarrow> job_row_ok (terminal_row s now t d e r)"
  by (cases s) (auto simp: job_row_ok_def job_checks_def terminal_row_def)

lemma nonterminal_row_ok:
  "job_row_ok r \<Longrightarrow> \<not> is_terminal (jr_state r) \<Longrightarrow> jr_attempt r < jr_max_attempts r \<Longrightarrow>
     s = Pending \<or> s = RetryWait \<and> m \<noteq> None \<Longrightarrow> job_row_ok (nonterminal_row s m t r)"
  by (auto simp: job_row_ok_def job_checks_def nonterminal_row_def)

lemma update_job_put:
  assumes "rows_ok (db_jobs d)" and "r \<in> set (db_jobs d)" and "job_checks (f r)"
  shows "update_job (jr_job_id r) f d
    = Inr (d\<lparr>db_jobs := update_rows (jr_job_id r) (\<lambda>_. f r) (db_jobs d)\<rparr>)"
proof -
  have eq: "s = r" if "s \<in> set (db_jobs d)" "jr_job_id s = jr_job_id r" for s
    using that rows_ok_unique [OF assms(1) _ assms(2)] by blast
  then have "update_rows (jr_job_id r) f (db_jobs d) = update_rows (jr_job_id r) (\<lambda>_. f r) (db_jobs d)"
    by (intro update_rows_cong) metis
  then show ?thesis
    using assms(3) eq by (auto simp: update_job_def list_all_iff)
qed

lemma set_terminal_put:
  assumes "rows_ok (db_jobs d)" and "r \<in> set (db_jobs d)" and "is_terminal s"
  shows "set_terminal r s now t dig e d = Inr (put_row (terminal_row s now t dig e r) d)"
proof -
  have "job_checks (terminal_row s now t dig e r)"
    using terminal_row_ok [OF rows_okD(3) [OF assms(1,2)] assms(3)] by (simp add: job_row_ok_def)
  from update_job_put [where f = "terminal_row s now t dig e", OF assms(1,2) this] show ?thesis
    by (simp add: set_terminal_def put_row_def)
qed

lemma put_nonterminal:
  assumes "rows_ok (db_jobs d)" and "r \<in> set (db_jobs d)" and "\<not> is_terminal (jr_state r')"
    and "same_job r r'"
  shows "put_row r' d = d\<lparr>db_jobs := update_rows (jr_job_id r) (\<lambda>_. r') (db_jobs d)\<rparr>"
  unfolding put_row_def same_jobD(1) [OF assms(4)]
  by (rule drain_noop [of r']) (use set_update_rows [OF assms(1,2)] assms(3) in auto)

lemma set_nonterminal_put:
  assumes "rows_ok (db_jobs d)" and "r \<in> set (db_jobs d)" and "\<not> is_terminal (jr_state r)"
    and "jr_attempt r < jr_max_attempts r" and "s = Pending \<or> s = RetryWait \<and> m \<noteq> None"
  shows "set_nonterminal (jr_job_id r) s m t d = Inr (put_row (nonterminal_row s m t r) d)"
proof -
  have "job_checks (nonterminal_row s m t r)"
    using nonterminal_row_ok [OF rows_okD(3) [OF assms(1,2)] assms(3-5)] by (simp add: job_row_ok_def)
  moreover have "put_row (nonterminal_row s m t r) d
      = d\<lparr>db_jobs := update_rows (jr_job_id r) (\<lambda>_. nonterminal_row s m t r) (db_jobs d)\<rparr>"
    using put_nonterminal [OF assms(1,2), of "nonterminal_row s m t r"] assms(5) by auto
  ultimately show ?thesis
    using update_job_put [OF assms(1,2), of "nonterminal_row s m t"] by (simp add: set_nonterminal_def)
qed

lemma guarded_cong:
  "(b \<Longrightarrow> f () = g ()) \<Longrightarrow> and_then (guard b e) f = and_then (guard b e) g"
  by (cases b) auto

lemma and_then_assoc: "and_then (and_then m f) g = and_then m (\<lambda>x. and_then (f x) g)"
  by (cases m) auto

lemma and_then_cong2: "(\<And>x. m = Inr x \<Longrightarrow> f x = g x) \<Longrightarrow> and_then m f = and_then m g"
  by (cases m) auto

text \<open>The shape all four proofs share: decide on the loaded row, then store it.\<close>

lemma on_job_eqI:
  assumes "jobs_ok d"
    and "\<And>r. r \<in> set (db_jobs d) \<Longrightarrow> jr_job_id r = i \<Longrightarrow>
      f r = and_then (step r) (\<lambda>r'. Inr (put_row r' d))"
  shows "and_then (require_job d i) f = on_job step i d"
  unfolding on_job_def
  by (rule and_then_cong2) (use assms require_job_Inr in \<open>auto simp: jobs_ok_def\<close>)

lemma ensure_transition_Inr [simp, result_simps]:
  "ensure_transition r s = Inr u \<longleftrightarrow> can_transition_to (jr_state r) s"
  by (simp add: ensure_transition_def)

lemma apply_ack_on_job:
  assumes "jobs_ok d"
  shows "apply_ack t now ack d = on_job (ack_row t now ack) (ack_job_id ack) d"
proof -
  have ok: "rows_ok (db_jobs d)" using assms by (simp add: jobs_ok_def)
  show ?thesis
    unfolding apply_ack_def
    by (intro on_job_eqI [OF assms]) (simp add: ack_row_def and_then_assoc set_terminal_put [OF ok])
qed

lemma apply_cancel_on_job:
  assumes "jobs_ok d"
  shows "apply_cancel t now c d = on_job (cancel_row t now c) (jc_job_id c) d"
proof -
  have ok: "rows_ok (db_jobs d)" using assms by (simp add: jobs_ok_def)
  show ?thesis
    unfolding apply_cancel_def
    by (intro on_job_eqI [OF assms])
      (simp add: cancel_row_def and_then_assoc guard_def set_terminal_put [OF ok] cong: option.case_cong)
qed

lemma set_nonterminal_after_transition:
  assumes "rows_ok (db_jobs d)" and "r \<in> set (db_jobs d)" and "jr_attempt r < jr_max_attempts r"
    and "jr_job_id r = i"
  shows "and_then (ensure_transition r Pending)
      (\<lambda>_. map_err Error_Storage (set_nonterminal i Pending None t d)) =
    and_then (ensure_transition r Pending) (\<lambda>_. Inr (put_row (nonterminal_row Pending None t r) d))"
  by (rule and_then_cong2) (use set_nonterminal_put [OF assms(1,2) _ assms(3)] assms(4) in auto)

lemma apply_resolve_on_job:
  assumes "jobs_ok d"
  shows "apply_resolve t now c d = on_job (resolve_row t now c) (jres_job_id c) d"
proof -
  have ok: "rows_ok (db_jobs d)" using assms by (simp add: jobs_ok_def)
  show ?thesis
    unfolding apply_resolve_def
    by (intro on_job_eqI [OF assms])
      (auto simp: resolve_row_def and_then_assoc set_terminal_put [OF ok] not_le
        set_nonterminal_after_transition [OF ok] split: Resolution.split)
qed

text \<open>Storing a row twice.\<close>

lemma put_row_twice:
  assumes "rows_ok (db_jobs d)" and "r \<in> set (db_jobs d)" and "\<not> is_terminal (jr_state r')"
    and "same_job r r'" and "job_checks (f r')" and "jr_state (f r') = jr_state r'"
    and "\<And>x. same_job x (f x)"
  shows "update_job (jr_job_id r) f (put_row r' d) = Inr (put_row (f r') d)"
proof -
  have same: "same_job r (f r')"
    using assms(4,7) same_job_trans by blast
  have put: "put_row r' d = d\<lparr>db_jobs := update_rows (jr_job_id r) (\<lambda>_. r') (db_jobs d)\<rparr>"
    "put_row (f r') d = d\<lparr>db_jobs := update_rows (jr_job_id r) (\<lambda>_. f r') (db_jobs d)\<rparr>"
    using put_nonterminal [OF assms(1,2) _ assms(4)] put_nonterminal [OF assms(1,2) _ same] assms(3,6)
    by auto
  have rows: "update_rows (jr_job_id r) f (update_rows (jr_job_id r) (\<lambda>_. r') (db_jobs d))
      = update_rows (jr_job_id r) (\<lambda>_. f r') (db_jobs d)"
    using same_jobD(1) [OF assms(4)] by (simp add: update_rows_def)
  have "\<forall>s \<in> set (update_rows (jr_job_id r) (\<lambda>_. r') (db_jobs d)).
      jr_job_id s = jr_job_id r \<longrightarrow> job_checks (f s)"
    using set_update_rows [OF assms(1,2), of r'] assms(5) rows_ok_unique [OF assms(1) _ assms(2)] by auto
  then show ?thesis
    unfolding put by (simp add: update_job_Inr rows)
qed

lemma apply_fail_on_job:
  assumes "jobs_ok d"
  shows "apply_fail t now failure d = on_job (fail_row t now failure) (jf_job_id failure) d"
  unfolding apply_fail_def
proof (rule on_job_eqI [OF assms])
  fix r assume r: "r \<in> set (db_jobs d)"
  have ok: "rows_ok (db_jobs d)" using assms by (simp add: jobs_ok_def)
  let ?f = "\<lambda>r. r\<lparr>jr_error_summary := Some (jf_error_summary failure)\<rparr>"
  have retry: "and_then (set_nonterminal (jr_job_id r) RetryWait (Some ms) t d)
      (update_job (jr_job_id r) ?f) = Inr (put_row (?f (nonterminal_row RetryWait (Some ms) t r)) d)"
    if "jr_attempt r < jr_max_attempts r" "can_transition_to (jr_state r) RetryWait" for ms
  proof -
    have live: "\<not> is_terminal (jr_state r)" using that(2) by simp
    have "job_checks (?f (nonterminal_row RetryWait (Some ms) t r))"
      using nonterminal_row_ok [OF rows_okD(3) [OF ok r] live that(1), of RetryWait "Some ms" t]
      by (simp add: job_row_ok_def job_checks_def)
    moreover have "same_job x (?f x)" for x
      by (simp add: same_job_def)
    ultimately show ?thesis
      using set_nonterminal_put [OF ok r live that(1), of RetryWait "Some ms" t]
        put_row_twice [OF ok r, of "nonterminal_row RetryWait (Some ms) t r" ?f] by simp
  qed
  show "(let exhausted = jr_attempt r \<ge> jr_max_attempts r; to = if exhausted then Dead else RetryWait
      in and_then (ensure_transition r to) (\<lambda>_.
         and_then (ensure_lease_token r (jf_lease_token failure)) (\<lambda>_.
           if exhausted
           then map_err Error_Storage (set_terminal r Dead now t None (Some (jf_error_summary failure)) d)
           else
             and_then (case jf_retry_after_ms failure of
                 Some ms \<Rightarrow> Inr ms
               | None \<Rightarrow> ok_or (checked_add_i64 now DEFAULT_RETRY_DELAY_MS) retry_overflow)
               (\<lambda>ms. map_err Error_Storage (and_then (set_nonterminal (jr_job_id r) RetryWait (Some ms) t d)
                  (\<lambda>d. update_job (jr_job_id r) ?f d)))))) =
    and_then (fail_row t now failure r) (\<lambda>r'. Inr (put_row r' d))"
  proof (cases "jr_max_attempts r \<le> jr_attempt r")
    case True
    then show ?thesis
      by (simp add: fail_row_def and_then_assoc set_terminal_put [OF ok r] Let_def)
  next
    case False
    then have left: "jr_attempt r < jr_max_attempts r" by simp
    show ?thesis
      unfolding fail_row_def Let_def retry_at_def [symmetric] if_not_P [OF False] and_then_assoc
      by (intro and_then_cong2) (simp add: retry [OF left])
  qed
qed

section \<open>The interface holds for the four operations\<close>

lemma row_step_terminal:
  "job_row_ok r \<Longrightarrow> can_transition_to (jr_state r) s \<Longrightarrow> is_terminal s \<Longrightarrow>
     row_step r (terminal_row s now t d e r)"
  by (auto simp: row_step_def terminal_row_ok)

lemma row_step_nonterminal:
  "job_row_ok r \<Longrightarrow> can_transition_to (jr_state r) s \<Longrightarrow> jr_attempt r < jr_max_attempts r \<Longrightarrow>
     s = Pending \<or> s = RetryWait \<and> m \<noteq> None \<Longrightarrow> row_step r (nonterminal_row s m t r)"
  using transition_from_nonterminal [of "jr_state r" s]
  by (auto simp: row_step_def nonterminal_row_ok)

lemma row_step_summary: "row_step r r' \<Longrightarrow> row_step r (r'\<lparr>jr_error_summary := e\<rparr>)"
  by (auto simp: row_step_def same_job_def job_row_ok_def job_checks_def)

interpretation ack: row_operation "ack_row t now a" for t now a
  by unfold_locales (auto simp: ack_row_def and_then_Inr_iff intro!: row_step_terminal)

interpretation failure: row_operation "fail_row t now f" for t now f
  by unfold_locales
    (auto simp: fail_row_def and_then_Inr_iff not_le split: if_splits
      intro!: row_step_terminal row_step_summary row_step_nonterminal)

interpretation cancel: row_operation "cancel_row t now c" for t now c
  by unfold_locales (auto simp: cancel_row_def and_then_Inr_iff intro!: row_step_terminal)

interpretation resolve: row_operation "resolve_row t now c" for t now c
  by unfold_locales
    (auto simp: resolve_row_def and_then_Inr_iff not_le split: if_splits Resolution.splits
      intro!: row_step_terminal row_step_nonterminal)

section \<open>Enqueue\<close>

lemma row_operations_step:
  assumes "jobs_ok d"
  shows "apply_ack t now a d = Inr d' \<Longrightarrow> jobs_step d d'"
    and "apply_fail t now f d = Inr d' \<Longrightarrow> jobs_step d d'"
    and "apply_cancel t now c d = Inr d' \<Longrightarrow> jobs_step d d'"
    and "apply_resolve t now r d = Inr d' \<Longrightarrow> jobs_step d d'"
  unfolding apply_ack_on_job [OF assms] apply_fail_on_job [OF assms] apply_cancel_on_job [OF assms]
    apply_resolve_on_job [OF assms]
  by (erule ack.on_job_step [OF assms] failure.on_job_step [OF assms] cancel.on_job_step [OF assms]
      resolve.on_job_step [OF assms])+

lemma activate_simps [simp]:
  "db_jobs (activate_partition q p n d) = db_jobs d"
  "db_claim_receipts (activate_partition q p n d) = db_claim_receipts d"
  "db_transactions (activate_partition q p n d) = db_transactions d"
  "only_jobs d (activate_partition q p n d)"
  by (simp_all add: activate_partition_def only_jobs_def)

lemma new_job_row_simps [simp]:
  "jr_job_id (new_job_row t s n) = js_job_id s"
  "jr_enqueue_sequence (new_job_row t s n) = n"
  "jr_enqueue_transaction_id (new_job_row t s n) = t"
  "job_partition (new_job_row t s n) = (js_queue s, js_partition_key s)"
  "jr_state (new_job_row t s n) = Pending"
  "jr_attempt (new_job_row t s n) = 0"
  by (simp_all add: new_job_row_def job_partition_def)

lemma new_job_row_ok: "job_checks (new_job_row t s n) \<Longrightarrow> job_row_ok (new_job_row t s n)"
  by (simp add: job_row_ok_def job_checks_def new_job_row_def)

lemma apply_enqueue_InrD:
  assumes "jobs_ok d" and "apply_enqueue t spec d = Inr d'"
  defines "r \<equiv> new_job_row t spec (int (length (db_jobs d)) + 1)"
  shows "js_job_id spec \<notin> jr_job_id ` set (db_jobs d)"
    and "job_checks r" and "has_transaction d t" and "int (length (db_jobs d)) < i64_max"
    and "d' = activate_partition (js_queue spec) (js_partition_key spec) (int (length (db_jobs d)) + 1)
      (d\<lparr>db_jobs := db_jobs d @ [r]\<rparr>)"
proof -
  have seq: "map jr_enqueue_sequence (db_jobs d) = [1..int (length (map jr_enqueue_sequence (db_jobs d)))]"
    using assms(1) by (simp add: jobs_ok_def rows_ok_def)
  let ?n = "int (length (db_jobs d))"
  have fresh: "js_job_id spec \<notin> jr_job_id ` set (db_jobs d)"
    and rest: "and_then (next_sequence ''jobs.enqueue_sequence'' (map jr_enqueue_sequence (db_jobs d)))
        (\<lambda>n. and_then (insert_job (new_job_row t spec n) d) (\<lambda>d.
          Inr (activate_partition (js_queue spec) (js_partition_key spec) n d))) = Inr d'"
    using assms(2) by (simp_all add: apply_enqueue_def find_key_None split: if_splits)
  have nxt: "next_sequence ''jobs.enqueue_sequence'' (map jr_enqueue_sequence (db_jobs d)) =
      (if ?n < i64_max then Inr (?n + 1) else Inl (constraint_failed (Overflow ''jobs.enqueue_sequence'')))"
    using next_sequence_upto [OF seq] by simp
  have room: "?n < i64_max"
    using rest unfolding nxt by (rule contrapos_pp) simp
  have "and_then (insert_job r d) (\<lambda>d. Inr (activate_partition (js_queue spec) (js_partition_key spec) (?n + 1) d))
      = Inr d'"
    using rest room unfolding nxt r_def by simp
  then show "js_job_id spec \<notin> jr_job_id ` set (db_jobs d)"
    "job_checks r" "has_transaction d t" "?n < i64_max"
    "d' = activate_partition (js_queue spec) (js_partition_key spec) (?n + 1)
      (d\<lparr>db_jobs := db_jobs d @ [r]\<rparr>)"
    using fresh room unfolding and_then_Inr_iff insert_job_Inr r_def new_job_row_simps by blast+
qed

lemma sequence_bound:
  assumes "rows_ok rows" and "r \<in> set rows"
  shows "0 < jr_enqueue_sequence r" "jr_enqueue_sequence r \<le> int (length rows)"
proof -
  have "jr_enqueue_sequence r \<in> set (map jr_enqueue_sequence rows)" using assms(2) by simp
  then show "0 < jr_enqueue_sequence r" "jr_enqueue_sequence r \<le> int (length rows)"
    by (simp_all add: rows_okD(1) [OF assms(1)] del: set_map)
qed

lemma rows_ok_snoc:
  assumes ok: "rows_ok rows" and r: "job_row_ok r" "jr_job_id r \<notin> jr_job_id ` set rows"
    "jr_enqueue_sequence r = int (length rows) + 1" "jr_attempt r = 0" "int (length rows) < i64_max"
  shows "rows_ok (rows @ [r])"
proof -
  have "\<not> jr_enqueue_sequence r < jr_enqueue_sequence s" if "s \<in> set rows" for s
    using sequence_bound [OF ok that] r(3) by simp
  then show ?thesis
    using ok r upto_snoc [of "length rows"] by (auto simp: rows_ok_def add.commute)
qed

lemma activate_active_ok:
  assumes "rows_ok rows" and "active_ok (db_active_partitions d) rows"
    and "\<not> is_terminal (jr_state r)" and "job_partition r = (q, p)"
    and "jr_enqueue_sequence r = int (length rows) + 1"
  shows "active_ok (db_active_partitions (activate_partition q p (jr_enqueue_sequence r) d)) (rows @ [r])"
proof (cases "map_of (db_active_partitions d) (q, p)")
  case None
  then have "(q, p) \<notin> fst ` set (db_active_partitions d)"
    by (simp add: map_of_eq_None_iff)
  moreover have "active_ok (db_active_partitions d @ [((q, p), jr_enqueue_sequence r)]) (rows @ [r])"
    unfolding active_ok_def
  proof (intro conjI ballI allI impI)
    show "distinct (map fst (db_active_partitions d @ [((q, p), jr_enqueue_sequence r)]))"
      using active_okD(1) [OF assms(2)] calculation by simp
  next
    fix s assume "s \<in> set (rows @ [r])" "\<not> is_terminal (jr_state s)"
    then show "\<exists>first. map_of (db_active_partitions d @ [((q, p), jr_enqueue_sequence r)]) (job_partition s)
        = Some first \<and> first \<le> jr_enqueue_sequence s"
      using active_okD(2) [OF assms(2), of s] None assms(4) by (auto simp: map_of_append map_add_def)
  next
    fix k first
    assume "map_of (db_active_partitions d @ [((q, p), jr_enqueue_sequence r)]) k = Some first"
    then show "\<exists>s \<in> set (rows @ [r]). job_partition s = k \<and> \<not> is_terminal (jr_state s)"
      using active_okD(3) [OF assms(2), of k] assms(3,4)
      by (auto simp: map_of_append map_add_def split: option.splits if_splits)
  qed
  ultimately show ?thesis using None by (simp add: activate_partition_def)
next
  case (Some first)
  then obtain s where s: "s \<in> set rows" "job_partition s = (q, p)" "\<not> is_terminal (jr_state s)"
    using active_okD(3) [OF assms(2)] by blast
  then have "first \<le> jr_enqueue_sequence s"
    using active_okD(2) [OF assms(2) s(1,3)] Some by auto
  then have "first \<le> jr_enqueue_sequence r"
    using sequence_bound(2) [OF assms(1) s(1)] assms(5) by simp
  then show ?thesis
    using Some assms(2,4) unfolding active_ok_def activate_partition_def by auto
qed

lemma apply_enqueue_step:
  assumes ok: "jobs_ok d" and app: "apply_enqueue t spec d = Inr d'"
  shows "jobs_step d d'"
proof -
  let ?r = "new_job_row t spec (int (length (db_jobs d)) + 1)"
  let ?d = "d\<lparr>db_jobs := db_jobs d @ [?r]\<rparr>"
  note D = apply_enqueue_InrD [OF ok app]
  have okd: "rows_ok (db_jobs d)" "active_ok (db_active_partitions d) (db_jobs d)"
    "receipts_ok (db_claim_receipts d) (db_jobs d)"
    using ok by (simp_all add: jobs_ok_def)
  have "rows_ok (db_jobs d @ [?r])"
    using D(1,4) new_job_row_ok [OF D(2)] by (intro rows_ok_snoc [OF okd(1)]) auto
  moreover have "active_ok (db_active_partitions d') (db_jobs d @ [?r])"
    using activate_active_ok [OF okd(1), of ?d ?r "js_queue spec" "js_partition_key spec"] okd(2) D(5)
    by simp
  moreover have "receipts_ok (db_claim_receipts d) (db_jobs d @ [?r])"
    using okd(3) by (auto simp: receipts_ok_def)
  moreover have "has_transaction d' = has_transaction d"
    by (rule has_transaction_cong) (simp add: D(5))
  ultimately have "jobs_ok d'"
    using ok D(3,5) by (simp add: jobs_ok_def)
  moreover have "only_jobs d d'"
    unfolding D(5) by (rule only_jobs_trans [OF _ activate_simps(4)]) (simp add: only_jobs_def)
  moreover have "jobs_evolve d d'"
    by (auto simp: jobs_evolve_def D(5) intro: row_evolves_refl)
  ultimately show ?thesis by (simp add: jobs_step_def)
qed

end
