(* ===== verification/JobProperties.thy ===== *)
theory JobProperties
  imports JobInvariants
begin

text \<open>
  What the job operations guarantee: each refines a transition of one row, terminal jobs absorb
  every operation, failures and retries respect the attempt budget, lease extensions, and the
  job listings.
\<close>

section \<open>Lease extension\<close>

lemma apply_extend_lease_InrD:
  assumes "jobs_ok d" and "apply_extend_lease x now d = Inr (rc, d')"
  obtains r current where "r \<in> set (db_jobs d)" "jr_job_id r = le_job_id x" "jr_state r = Leased"
    "jr_lease_token r = Some (le_lease_token x)" "jr_lease_expires_at_ms r = Some current"
    "now \<le> current" "current < le_new_expiry_ms x"
    "rc = \<lparr>ler_job_id = le_job_id x, ler_attempt = jr_attempt r, ler_lease_expires_at_ms = le_new_expiry_ms x\<rparr>"
    "d' = d\<lparr>db_jobs := update_rows (jr_job_id r) (\<lambda>_. r\<lparr>jr_lease_expires_at_ms := Some (le_new_expiry_ms x)\<rparr>) (db_jobs d),
            db_claim_receipts := extend_receipts (le_job_id x) (le_lease_token x) (le_new_expiry_ms x) (db_claim_receipts d)\<rparr>"
proof -
  have ok: "rows_ok (db_jobs d)" using assms(1) by (simp add: jobs_ok_def)
  let ?f = "\<lambda>r. r\<lparr>jr_lease_expires_at_ms := Some (le_new_expiry_ms x)\<rparr>"
  obtain r where r: "find (\<lambda>r. jr_job_id r = le_job_id x) (db_jobs d) = Some r"
    using assms(2) by (cases "find (\<lambda>r. jr_job_id r = le_job_id x) (db_jobs d)")
      (auto simp: apply_extend_lease_def Let_def)
  then have mem: "r \<in> set (db_jobs d)" "jr_job_id r = le_job_id x"
    using find_SomeD by fastforce+
  have row: "job_row_ok r" using rows_okD(3) [OF ok mem(1)] .
  have leased: "jr_state r = Leased" "jr_lease_token r = Some (le_lease_token x)"
    using assms(2) r by (auto simp: apply_extend_lease_def Let_def split: if_splits)
  then obtain current where cur: "jr_lease_expires_at_ms r = Some current"
    using row by (auto simp: job_row_ok_def job_checks_def)
  have "job_checks (?f r)"
    using row leased by (auto simp: job_row_ok_def job_checks_def)
  from update_job_put [where f = ?f, OF ok mem(1) this] show ?thesis
    using that [OF mem leased cur] assms(2) r leased cur mem(2)
    by (auto simp: apply_extend_lease_def Let_def split: if_splits)
qed

lemma extend_receipts_ok:
  assumes "receipts_ok cs rows" and "rows_ok rows" and r: "r \<in> set rows" "jr_job_id r = i"
    "jr_state r = Leased" "jr_lease_token r = Some tok"
  shows "receipts_ok (extend_receipts i tok e cs)
    (update_rows i (\<lambda>_. r\<lparr>jr_lease_expires_at_ms := Some e\<rparr>) rows)"
proof -
  let ?r = "r\<lparr>jr_lease_expires_at_ms := Some e\<rparr>"
  let ?cs = "extend_receipts i tok e cs" and ?rows = "update_rows i (\<lambda>_. ?r) rows"
  have rows: "set ?rows = insert ?r (set rows - {r})"
    using set_update_rows [OF assms(2) r(1), of ?r] r(2) by simp
  have keys: "map (\<lambda>c. (cl_transaction_id c, cl_job_id c)) ?cs = map (\<lambda>c. (cl_transaction_id c, cl_job_id c)) cs"
    "map cl_job_id ?cs = map cl_job_id cs"
    by (auto simp: extend_receipts_def)
  then have ids_cs: "cl_job_id ` set ?cs = cl_job_id ` set cs"
    by (metis list.set_map)
  have ids: "jr_job_id ` set ?rows = jr_job_id ` set rows"
    unfolding rows using r by (auto simp: image_iff)
  have "\<exists>c \<in> set ?cs. receipt_of s c" if s: "s \<in> set ?rows" "jr_state s = Leased" for s
  proof (cases "s = ?r")
    case True
    obtain c where "c \<in> set cs" "receipt_of r c"
      using assms(1) r unfolding receipts_ok_def by blast
    then show ?thesis
      using True r by (intro bexI [of _ "c\<lparr>cl_lease_expires_at_ms := e\<rparr>"])
        (auto simp: receipt_of_def extend_receipts_def)
  next
    case False
    then have s': "s \<in> set rows" "s \<noteq> r" using s unfolding rows by auto
    then obtain c where c: "c \<in> set cs" "receipt_of s c"
      using assms(1) s(2) unfolding receipts_ok_def by blast
    have "jr_job_id s \<noteq> i"
      using rows_ok_unique [OF assms(2) s'(1) r(1)] s'(2) r(2) by auto
    then show ?thesis
      using c by (intro bexI [of _ c]) (auto simp: receipt_of_def extend_receipts_def image_iff)
  qed
  moreover have "\<forall>c \<in> set ?cs. cl_job_id c \<in> jr_job_id ` set rows"
  proof -
    have "cl_job_id ` set cs \<subseteq> jr_job_id ` set rows"
      using assms(1) unfolding receipts_ok_def by (intro image_subsetI) simp
    then show ?thesis using ids_cs by blast
  qed
  moreover have "distinct (map (\<lambda>c. (cl_transaction_id c, cl_job_id c)) cs)"
    using assms(1) by (simp add: receipts_ok_def)
  ultimately show ?thesis
    unfolding receipts_ok_def keys(1) ids by (intro conjI ballI impI) simp_all
qed

lemma apply_extend_lease_step:
  assumes ok: "jobs_ok d" and ext: "apply_extend_lease x now d = Inr (rc, d')"
  shows "jobs_step d d'"
proof -
  obtain r where r: "r \<in> set (db_jobs d)" "jr_job_id r = le_job_id x" "jr_state r = Leased"
    "jr_lease_token r = Some (le_lease_token x)"
    and d': "d' = d\<lparr>db_jobs := update_rows (jr_job_id r) (\<lambda>_. r\<lparr>jr_lease_expires_at_ms := Some (le_new_expiry_ms x)\<rparr>) (db_jobs d),
            db_claim_receipts := extend_receipts (le_job_id x) (le_lease_token x) (le_new_expiry_ms x) (db_claim_receipts d)\<rparr>"
    using apply_extend_lease_InrD [OF assms] by metis
  let ?r = "r\<lparr>jr_lease_expires_at_ms := Some (le_new_expiry_ms x)\<rparr>"
  have okd: "rows_ok (db_jobs d)" "active_ok (db_active_partitions d) (db_jobs d)"
    "receipts_ok (db_claim_receipts d) (db_jobs d)"
    using ok by (simp_all add: jobs_ok_def)
  have same: "same_job r ?r" by (simp add: same_job_def)
  have row: "job_row_ok ?r"
    using rows_okD(3) [OF okd(1) r(1)] r(3) by (auto simp: job_row_ok_def job_checks_def)
  have rows: "set (db_jobs d') = insert ?r (set (db_jobs d) - {r})"
    using set_update_rows [OF okd(1) r(1), of ?r] by (simp add: d')
  have "rows_ok (db_jobs d')"
    using rows_ok_replace [OF okd(1) r(1) same row] r(3) by (simp add: d')
  moreover have "active_ok (db_active_partitions d') (db_jobs d')"
    using put_row_active_ok [OF okd(1,2) r(1) _ same] put_nonterminal [OF okd(1) r(1) _ same] r(3)
    by (simp add: d')
  moreover have "receipts_ok (db_claim_receipts d') (db_jobs d')"
    using extend_receipts_ok [OF okd(3,1) r] r(2) by (simp add: d')
  moreover have "has_transaction d' = has_transaction d"
    by (rule has_transaction_cong) (simp add: d')
  moreover have "\<forall>c \<in> set (db_claim_receipts d'). has_transaction d (cl_transaction_id c)"
    using ok by (auto simp: d' extend_receipts_def jobs_ok_def)
  ultimately have "jobs_ok d'"
    using ok r(1) rows by (simp add: jobs_ok_def)
  moreover have "only_jobs d d'" by (simp add: d' only_jobs_def)
  moreover have "row_evolves r ?r"
    using same r(3) by (simp add: row_evolves_def job_path_refl)
  then have "jobs_evolve d d'"
    by (rule jobs_evolve_replace [OF okd(1) r(1) rows])
  ultimately show ?thesis by (simp add: jobs_step_def)
qed

text \<open>
  A lease can be extended exactly while the job is leased under the presented token and
  not past its expiry, and only to a later time; then only the expiry changes, in the job row
  and in the matching claim receipts.
\<close>

theorem extend_lease_outcome:
  assumes "jobs_ok d"
  shows "apply_extend_lease x now d =
    (case find (\<lambda>r. jr_job_id r = le_job_id x) (db_jobs d) of
       None \<Rightarrow> Inl (Lease_Conflict (JobNotFound (le_job_id x)))
     | Some r \<Rightarrow>
         if jr_state r \<noteq> Leased then Inl (Lease_Conflict (NotLeased (le_job_id x) (jr_state r)))
         else if jr_lease_token r \<noteq> Some (le_lease_token x) then Inl (Lease_Conflict (InvalidToken (le_job_id x)))
         else (let current = the (jr_lease_expires_at_ms r) in
           if current < now then Inl (Lease_Conflict (Expired (le_job_id x) current now))
           else if le_new_expiry_ms x \<le> current
           then Inl (Lease_Conflict (ExpiryNotLater (le_job_id x) current (le_new_expiry_ms x)))
           else Inr (\<lparr>ler_job_id = le_job_id x, ler_attempt = jr_attempt r,
                      ler_lease_expires_at_ms = le_new_expiry_ms x\<rparr>,
             d\<lparr>db_jobs := update_rows (le_job_id x) (\<lambda>_. r\<lparr>jr_lease_expires_at_ms := Some (le_new_expiry_ms x)\<rparr>) (db_jobs d),
               db_claim_receipts := extend_receipts (le_job_id x) (le_lease_token x)
                 (le_new_expiry_ms x) (db_claim_receipts d)\<rparr>)))"
proof (cases "find (\<lambda>r. jr_job_id r = le_job_id x) (db_jobs d)")
  case None
  then show ?thesis by (simp add: apply_extend_lease_def Let_def)
next
  case (Some r)
  have ok: "rows_ok (db_jobs d)" using assms by (simp add: jobs_ok_def)
  have mem: "r \<in> set (db_jobs d)" "jr_job_id r = le_job_id x"
    using find_SomeD [OF Some] by auto
  let ?f = "\<lambda>r. r\<lparr>jr_lease_expires_at_ms := Some (le_new_expiry_ms x)\<rparr>"
  show ?thesis
  proof (cases "jr_state r = Leased")
    case True
    moreover have row: "job_row_ok r" by (rule rows_okD(3) [OF ok mem(1)])
    ultimately obtain current where "jr_lease_expires_at_ms r = Some current"
      by (auto simp: job_row_ok_def job_checks_def)
    moreover have "job_checks (?f r)"
      using row True by (auto simp: job_row_ok_def job_checks_def)
    then have "update_job (le_job_id x) ?f d
        = Inr (d\<lparr>db_jobs := update_rows (le_job_id x) (\<lambda>_. ?f r) (db_jobs d)\<rparr>)"
      using update_job_put [where f = ?f, OF ok mem(1)] mem(2) by simp
    ultimately show ?thesis
      using Some True by (simp add: apply_extend_lease_def Let_def)
  qed (use Some in \<open>simp add: apply_extend_lease_def Let_def\<close>)
qed

section \<open>Operations as row transitions\<close>

text \<open>
  C24: the four job operations of a commit load one job, decide on its row alone, and store the
  new row, dropping the partition from \<open>active_partitions\<close> when it was the last active job. No
  CHECK clause of the schema can fail, so every error is a missing job or one the row decides.
\<close>

theorem job_operations_refine:
  assumes "jobs_ok d"
  shows "apply_ack t now a d = on_job (ack_row t now a) (ack_job_id a) d \<and>
    apply_fail t now f d = on_job (fail_row t now f) (jf_job_id f) d \<and>
    apply_cancel t now c d = on_job (cancel_row t now c) (jc_job_id c) d \<and>
    apply_resolve t now r d = on_job (resolve_row t now r) (jres_job_id r) d"
  using apply_ack_on_job [OF assms] apply_fail_on_job [OF assms] apply_cancel_on_job [OF assms]
    apply_resolve_on_job [OF assms] by blast

lemma ack_row_Inr:
  assumes "job_row_ok r"
  shows "ack_row t now a r = Inr r' \<longleftrightarrow>
     jr_state r = Leased \<and> jr_lease_token r = Some (ack_lease_token a) \<and>
     r' = terminal_row Succeeded now t (ack_result_digest a) None r"
proof -
  have "jr_state r = Uncertain \<Longrightarrow> jr_lease_token r = None"
    using assms by (simp add: job_row_ok_def job_checks_def)
  then show ?thesis
    unfolding ack_row_def and_then_Inr_iff ensure_transition_Inr ensure_lease_token_def guard_iff
      can_transition_iff sum.inject by fastforce
qed

text \<open>No transition leaves a terminal state, whoever asks for it.\<close>

lemma terminal_refuses:
  assumes "is_terminal (jr_state r)"
  shows "ensure_transition r s = Inl (Error_Conflict (JobTransition (jr_job_id r) (jr_state r) s))"
proof -
  have "\<not> can_transition_to (jr_state r) s" using transition_from_nonterminal assms by blast
  then show ?thesis by (simp add: ensure_transition_def)
qed

lemma terminal_ack:
  assumes "jobs_ok d" and "r \<in> set (db_jobs d)" and "is_terminal (jr_state r)"
  shows "\<exists>s. apply_ack t now \<lparr>ack_job_id = jr_job_id r, ack_lease_token = tok, ack_result_digest = dig\<rparr> d
    = Inl (Error_Conflict (JobTransition (jr_job_id r) (jr_state r) s))"
proof -
  have "require_job d (jr_job_id r) = Inr r"
    using assms(1,2) by (simp add: jobs_ok_def require_job_Inr)
  then show ?thesis by (simp add: apply_ack_def terminal_refuses [OF assms(3)])
qed

text \<open>
  C25: an acknowledgement succeeds exactly when the named job is leased under the presented token;
  it then makes the job succeed at the commit time, takes the lease away, stores the digest of the
  result, drops the partition when nothing is left in it, and changes nothing else. Whatever
  token a second acknowledgement of the job presents, it is a conflict.
\<close>

theorem ack_needs_current_lease:
  assumes "jobs_ok d"
  shows "(apply_ack t now a d = Inr d' \<longleftrightarrow>
      (\<exists>r \<in> set (db_jobs d). jr_job_id r = ack_job_id a \<and> jr_state r = Leased \<and>
         jr_lease_token r = Some (ack_lease_token a) \<and>
         d' = drain_partition_if_empty (jr_queue r) (jr_partition_key r)
           (d\<lparr>db_jobs := update_rows (ack_job_id a)
             (\<lambda>_. r\<lparr>jr_state := Succeeded, jr_lease_token := None, jr_worker_id := None,
               jr_lease_expires_at_ms := None, jr_retry_after_ms := None, jr_terminal_at_ms := Some now,
               jr_result_digest := (case ack_result_digest a of None \<Rightarrow> jr_result_digest r | Some x \<Rightarrow> Some x),
               jr_updated_transaction_id := t\<rparr>) (db_jobs d)\<rparr>))) \<and>
    (apply_ack t now a d = Inr d' \<longrightarrow>
      (\<forall>t2 now2 b. ack_job_id b = ack_job_id a \<longrightarrow>
         (\<exists>s. apply_ack t2 now2 b d' = Inl (Error_Conflict (JobTransition (ack_job_id a) Succeeded s)))))"
proof (intro conjI impI allI)
  have ok: "rows_ok (db_jobs d)" using assms by (simp add: jobs_ok_def)
  let ?new = "\<lambda>r. terminal_row Succeeded now t (ack_result_digest a) None r"
  have put: "put_row (?new r) d = drain_partition_if_empty (jr_queue r) (jr_partition_key r)
           (d\<lparr>db_jobs := update_rows (ack_job_id a)
             (\<lambda>_. r\<lparr>jr_state := Succeeded, jr_lease_token := None, jr_worker_id := None,
               jr_lease_expires_at_ms := None, jr_retry_after_ms := None, jr_terminal_at_ms := Some now,
               jr_result_digest := (case ack_result_digest a of None \<Rightarrow> jr_result_digest r | Some x \<Rightarrow> Some x),
               jr_updated_transaction_id := t\<rparr>) (db_jobs d)\<rparr>)" if "jr_job_id r = ack_job_id a" for r
    using that unfolding put_row_def terminal_row_def coalesce_def by (cases "ack_result_digest a") auto
  have step: "apply_ack t now a d = Inr d' \<longleftrightarrow> (\<exists>r \<in> set (db_jobs d). jr_job_id r = ack_job_id a \<and>
      jr_state r = Leased \<and> jr_lease_token r = Some (ack_lease_token a) \<and> d' = put_row (?new r) d)"
    unfolding apply_ack_on_job [OF assms] on_job_def and_then_Inr_iff require_job_Inr [OF ok]
    using ack_row_Inr [OF rows_okD(3) [OF ok]] by auto
  then show "apply_ack t now a d = Inr d' \<longleftrightarrow>
      (\<exists>r \<in> set (db_jobs d). jr_job_id r = ack_job_id a \<and> jr_state r = Leased \<and>
         jr_lease_token r = Some (ack_lease_token a) \<and>
         d' = drain_partition_if_empty (jr_queue r) (jr_partition_key r)
           (d\<lparr>db_jobs := update_rows (ack_job_id a)
             (\<lambda>_. r\<lparr>jr_state := Succeeded, jr_lease_token := None, jr_worker_id := None,
               jr_lease_expires_at_ms := None, jr_retry_after_ms := None, jr_terminal_at_ms := Some now,
               jr_result_digest := (case ack_result_digest a of None \<Rightarrow> jr_result_digest r | Some x \<Rightarrow> Some x),
               jr_updated_transaction_id := t\<rparr>) (db_jobs d)\<rparr>))"
    using put by (metis (no_types, lifting))
  fix t2 now2 and b :: JobAck
  assume acked: "apply_ack t now a d = Inr d'" and same: "ack_job_id b = ack_job_id a"
  obtain r where r: "r \<in> set (db_jobs d)" "jr_job_id r = ack_job_id a" "d' = put_row (?new r) d"
    using step acked by blast
  have "jobs_ok d'" using row_operations_step(1) [OF assms acked] jobs_stepD(1) by blast
  moreover have "?new r \<in> set (db_jobs d')"
    using r set_update_rows [OF ok r(1), of "?new r"] by simp
  ultimately show "\<exists>s. apply_ack t2 now2 b d' = Inl (Error_Conflict (JobTransition (ack_job_id a) Succeeded s))"
    using terminal_ack [of d' "?new r" t2 now2 "ack_lease_token b" "ack_result_digest b"] r(2) same
    by (cases b) simp
qed

text \<open>
  A failure of a leased job kills it at its last attempt and otherwise puts it in retry
  wait until the requested time, or 30 seconds after the commit time; a default time outside
  the i64 range is an error.
\<close>

theorem fail_outcome:
  assumes "jr_state r = Leased" and "jr_lease_token r = Some (jf_lease_token f)"
  shows "fail_row t now f r =
    (if jr_max_attempts r \<le> jr_attempt r
     then Inr (terminal_row Dead now t None (Some (jf_error_summary f)) r)
     else case jf_retry_after_ms f of
       Some ms \<Rightarrow> Inr ((nonterminal_row RetryWait (Some ms) t r)\<lparr>jr_error_summary := Some (jf_error_summary f)\<rparr>)
     | None \<Rightarrow>
         if is_i64 (now + 30000)
         then Inr ((nonterminal_row RetryWait (Some (now + 30000)) t r)\<lparr>jr_error_summary := Some (jf_error_summary f)\<rparr>)
         else Inl retry_overflow)"
  using assms
  by (auto simp: fail_row_def ensure_transition_def ensure_lease_token_def retry_at_def
      checked_add_i64_def DEFAULT_RETRY_DELAY_MS_def split: option.split)

text \<open>
  C26: a terminal job absorbs every operation: acknowledging, failing, cancelling and resolving
  it are conflicts naming the state it is in, and its lease cannot be extended.
\<close>

theorem terminal_absorbs:
  assumes "jobs_ok d" and "r \<in> set (db_jobs d)" and "is_terminal (jr_state r)"
  shows "(\<exists>s. apply_ack t now \<lparr>ack_job_id = jr_job_id r, ack_lease_token = tok, ack_result_digest = dig\<rparr> d
        = Inl (Error_Conflict (JobTransition (jr_job_id r) (jr_state r) s))) \<and>
    (\<exists>s. apply_fail t now \<lparr>jf_job_id = jr_job_id r, jf_lease_token = tok, jf_error_summary = e, jf_retry_after_ms = m\<rparr> d
        = Inl (Error_Conflict (JobTransition (jr_job_id r) (jr_state r) s))) \<and>
    (\<exists>s. apply_cancel t now \<lparr>jc_job_id = jr_job_id r, jc_lease_token = topt\<rparr> d
        = Inl (Error_Conflict (JobTransition (jr_job_id r) (jr_state r) s))) \<and>
    (\<exists>s. apply_resolve t now \<lparr>jres_job_id = jr_job_id r, jres_resolution = res\<rparr> d
        = Inl (Error_Conflict (JobTransition (jr_job_id r) (jr_state r) s))) \<and>
    apply_extend_lease \<lparr>le_job_id = jr_job_id r, le_lease_token = tok, le_new_expiry_ms = n\<rparr> now d
        = Inl (Lease_Conflict (NotLeased (jr_job_id r) (jr_state r)))"
proof -
  have "rows_ok (db_jobs d)" using assms(1) by (simp add: jobs_ok_def)
  then have req: "require_job d (jr_job_id r) = Inr r"
    "find (\<lambda>x. jr_job_id x = jr_job_id r) (db_jobs d) = Some r"
    using assms(2) by (simp_all add: require_job_Inr find_key_iff rows_okD(2))
  have "jr_state r \<noteq> Leased" using assms(3) by auto
  then show ?thesis
    by (simp add: apply_ack_def apply_fail_def apply_cancel_def apply_resolve_def Let_def
        req terminal_refuses [OF assms(3)] apply_extend_lease_def split: Resolution.split)
qed

end
