(* ===== verification/ProjectionStore.thy ===== *)
theory ProjectionStore
  imports Database
begin

text \<open>
  \<open>src/store/projections.rs\<close>: applying a versioned patch and reading projections. The
  specification of a projection is a version and a partial map from keys to values; applying a
  patch refines the obvious updates of that map, and scans are refined to the entries of the map
  in key order.
\<close>

section \<open>Applying a patch\<close>

definition version_query :: "db \<Rightarrow> str \<Rightarrow> Error + u64" where
  "version_query d projection = Inr (version_of (db_projection_meta d) projection)"

definition clear_entries :: "str \<Rightarrow> db \<Rightarrow> db" where
  "clear_entries projection d =
     d\<lparr>db_projection_entries := filter (\<lambda>e. fst (fst e) \<noteq> projection) (db_projection_entries d)\<rparr>"

definition delete_entry :: "str \<Rightarrow> bytes \<Rightarrow> db \<Rightarrow> db" where
  "delete_entry projection key d =
     d\<lparr>db_projection_entries := AList.delete (projection, key) (db_projection_entries d)\<rparr>"

definition upsert_projection_meta :: "str \<Rightarrow> u64 \<Rightarrow> db \<Rightarrow> db" where
  "upsert_projection_meta projection version d =
     d\<lparr>db_projection_meta := AList.update projection (u64_as_i64 version) (db_projection_meta d)\<rparr>"

fun apply_mutation :: "str \<Rightarrow> ProjectionMutation \<Rightarrow> db \<Rightarrow> Error + db" where
  "apply_mutation projection (Put key value) d =
     map_err Error_Storage (upsert_projection_entry projection key value d)"
| "apply_mutation projection (Delete key) d = Inr (delete_entry projection key d)"
| "apply_mutation projection Clear d = Inr (clear_entries projection d)"
| "apply_mutation projection (Replace entries) d =
     fold_res (\<lambda>entry d. map_err Error_Storage
         (insert_projection_entry projection (pn_key entry) (pn_value entry) d))
       entries (clear_entries projection d)"

definition apply_patch :: "ProjectionPatch \<Rightarrow> db \<Rightarrow> Error + db" where
  "apply_patch patch d =
     and_then (map_err Error_Validation (patch_validate patch)) (\<lambda>_.
     and_then (version_query d (pp_projection patch)) (\<lambda>actual.
       if actual \<noteq> pp_expected_version patch
       then Inl (Error_Conflict (ProjectionVersionConflict (pp_projection patch)
              (pp_expected_version patch) actual))
       else fold_res (apply_mutation (pp_projection patch)) (pp_mutations patch)
              (upsert_projection_meta (pp_projection patch) (pp_new_version patch) d)))"

section \<open>Reads\<close>

definition projection_version :: "db \<Rightarrow> str \<Rightarrow> Error + u64" where
  "projection_version d projection = version_query d projection"

definition projection_get :: "db \<Rightarrow> str \<Rightarrow> bytes \<Rightarrow> Error + bytes option" where
  "projection_get d projection key = Inr (map_of (db_projection_entries d) (projection, key))"

text \<open>The loop over the reversed prefix: drop trailing 0xFF bytes, increment the last other one.\<close>

fun bump_last :: "bytes \<Rightarrow> bytes option" where
  "bump_last [] = None"
| "bump_last (b # bound) = (if b = 0xFF then bump_last bound else Some (rev ((b + 1) # bound)))"

definition prefix_upper_bound :: "bytes \<Rightarrow> bytes option" where
  "prefix_upper_bound pre = bump_last (rev pre)"

definition if_some :: "('a \<Rightarrow> bool) \<Rightarrow> 'a option \<Rightarrow> bool" where
  "if_some P v = (case v of None \<Rightarrow> True | Some x \<Rightarrow> P x)"

definition scan ::
    "db \<Rightarrow> str \<Rightarrow> bytes option \<Rightarrow> bytes option \<Rightarrow> bytes option \<Rightarrow> nat \<Rightarrow> Error + ProjectionEntry list" where
  "scan d projection start end after limit =
     Inr (map (\<lambda>e. \<lparr>pn_key = snd (fst e), pn_value = snd e\<rparr>)
       (sql_limit limit (sort_key (\<lambda>e. snd (fst e))
         (filter (\<lambda>e. fst (fst e) = projection
             \<and> if_some (\<lambda>s. snd (fst e) \<ge> s) start
             \<and> if_some (\<lambda>u. snd (fst e) < u) end
             \<and> if_some (\<lambda>a. snd (fst e) > a) after)
           (db_projection_entries d)))))"

definition projection_scan_prefix_page ::
    "db \<Rightarrow> str \<Rightarrow> bytes \<Rightarrow> bytes option \<Rightarrow> nat \<Rightarrow> Error + ProjectionEntry list" where
  "projection_scan_prefix_page d projection pre after limit =
     scan d projection (Some pre) (prefix_upper_bound pre) after limit"

definition projection_scan_prefix ::
    "db \<Rightarrow> str \<Rightarrow> bytes \<Rightarrow> nat \<Rightarrow> Error + ProjectionEntry list" where
  "projection_scan_prefix d projection pre limit =
     projection_scan_prefix_page d projection pre None limit"

definition projection_scan_range ::
    "db \<Rightarrow> str \<Rightarrow> bytes option \<Rightarrow> bytes option \<Rightarrow> bytes option \<Rightarrow> nat \<Rightarrow> Error + ProjectionEntry list" where
  "projection_scan_range d projection start end after limit =
     scan d projection start end after limit"

definition projections_list :: "db \<Rightarrow> Error + (str \<times> u64) list" where
  "projections_list d =
     Inr (map (\<lambda>(p, v). (p, i64_as_u64 v)) (sort_key fst (db_projection_meta d)))"

definition projection_entry_count :: "db \<Rightarrow> str \<Rightarrow> Error + u64" where
  "projection_entry_count d projection =
     Inr (of_nat (length (filter (\<lambda>e. fst (fst e) = projection) (db_projection_entries d))))"

section \<open>A projection as a map\<close>

definition projection_map :: "db \<Rightarrow> str \<Rightarrow> bytes \<Rightarrow> bytes option" where
  "projection_map d p = (\<lambda>k. map_of (db_projection_entries d) (p, k))"

fun mutate :: "ProjectionMutation \<Rightarrow> (bytes \<Rightarrow> bytes option) \<Rightarrow> (bytes \<Rightarrow> bytes option)" where
  "mutate (Put key value) m = m(key \<mapsto> value)"
| "mutate (Delete key) m = m(key := None)"
| "mutate Clear m = Map.empty"
| "mutate (Replace entries) m = map_of (map (\<lambda>e. (pn_key e, pn_value e)) entries)"

lemma mutate_fun:
  "mutate (Put key value) = (\<lambda>m. m(key \<mapsto> value))"
  "mutate (Delete key) = (\<lambda>m. m(key := None))"
  "mutate Clear = (\<lambda>m. Map.empty)"
  "mutate (Replace entries) = (\<lambda>m. map_of (map (\<lambda>e. (pn_key e, pn_value e)) entries))"
  by (simp_all add: fun_eq_iff)

text \<open>Keys are unique and every entry belongs to a known projection.\<close>

definition projections_ok :: "db \<Rightarrow> bool" where
  "projections_ok d \<longleftrightarrow>
     distinct (map fst (db_projection_entries d)) \<and>
     distinct (map fst (db_projection_meta d)) \<and>
     (\<forall>p k. map_of (db_projection_entries d) (p, k) \<noteq> None \<longrightarrow> map_of (db_projection_meta d) p \<noteq> None)"

text \<open>What a step on projection \<open>p\<close> leaves alone.\<close>

definition only_projection :: "str \<Rightarrow> db \<Rightarrow> db \<Rightarrow> bool" where
  "only_projection p d d' \<longleftrightarrow>
     d'\<lparr>db_projection_entries := [], db_projection_meta := []\<rparr>
       = d\<lparr>db_projection_entries := [], db_projection_meta := []\<rparr> \<and>
     (\<forall>q. q \<noteq> p \<longrightarrow> projection_map d' q = projection_map d q \<and>
        map_of (db_projection_meta d') q = map_of (db_projection_meta d) q)"

lemma only_projection_refl [intro!]: "only_projection p d d"
  by (simp add: only_projection_def)

lemma only_projection_trans:
  "only_projection p d d' \<Longrightarrow> only_projection p d' d'' \<Longrightarrow> only_projection p d d''"
  by (auto simp: only_projection_def)

text \<open>What one successful write to projection \<open>p\<close> establishes.\<close>

definition writes_map ::
    "str \<Rightarrow> ((bytes \<Rightarrow> bytes option) \<Rightarrow> (bytes \<Rightarrow> bytes option)) \<Rightarrow> db \<Rightarrow> db \<Rightarrow> bool" where
  "writes_map p f d d' \<longleftrightarrow>
     projections_ok d' \<and> projection_map d' p = f (projection_map d p) \<and>
     only_projection p d d' \<and> db_projection_meta d' = db_projection_meta d"

lemma writes_map_trans:
  "writes_map p f d d' \<Longrightarrow> writes_map p g d' d'' \<Longrightarrow> writes_map p (\<lambda>m. g (f m)) d d''"
  by (auto simp: writes_map_def intro: only_projection_trans)

lemma map_of_update_entry:
  "map_of (AList.update (p, k) v es) (q, k') = (if q = p \<and> k' = k then Some v else map_of es (q, k'))"
  by (auto simp: update_conv')

lemma write_entry:
  assumes "projections_ok d" and "map_of (db_projection_meta d) p \<noteq> None"
  shows "writes_map p (\<lambda>m. m(k \<mapsto> v)) d
    (d\<lparr>db_projection_entries := AList.update (p, k) v (db_projection_entries d)\<rparr>)"
  using assms
  by (auto simp: writes_map_def projections_ok_def only_projection_def projection_map_def
      map_of_update_entry fun_eq_iff distinct_update dom_update) blast+

lemma map_of_filter_keys:
  "map_of (filter (\<lambda>e. fst (fst e) \<noteq> p) es) (q, k) = (if q = p then None else map_of es (q, k))"
  by (induction es) auto

lemma distinct_fst_filter: "distinct (map fst es) \<Longrightarrow> distinct (map fst (filter P es))"
  by (induction es) auto

lemma clear_entries_writes:
  "projections_ok d \<Longrightarrow> writes_map p (\<lambda>m. Map.empty) d (clear_entries p d)"
  by (auto simp: writes_map_def projections_ok_def only_projection_def projection_map_def
      clear_entries_def map_of_filter_keys fun_eq_iff distinct_fst_filter) blast+

lemma delete_entry_writes:
  "projections_ok d \<Longrightarrow> writes_map p (\<lambda>m. m(k := None)) d (delete_entry p k d)"
  by (auto simp: writes_map_def projections_ok_def only_projection_def projection_map_def
      delete_entry_def delete_conv' fun_eq_iff distinct_delete) blast+

lemma map_upd_add:
  assumes "k \<notin> fst ` set kvs"
  shows "m(k \<mapsto> v) ++ map_of kvs = m ++ map_of ((k, v) # kvs)"
proof -
  have "map_of kvs k = None" using assms by (simp add: map_of_eq_None_iff)
  then show ?thesis by (auto simp: map_add_def fun_eq_iff split: option.split)
qed

text \<open>Inserting entries with fresh distinct keys never meets a UNIQUE conflict.\<close>

lemma insert_entries_write:
  assumes "projections_ok d" and "map_of (db_projection_meta d) p \<noteq> None"
    and "distinct (map pn_key es)" and "\<forall>e \<in> set es. projection_map d p (pn_key e) = None"
  shows "\<exists>d'. fold_res (\<lambda>e d. map_err Error_Storage
        (insert_projection_entry p (pn_key e) (pn_value e) d)) es d = Inr d' \<and>
      writes_map p (\<lambda>m. m ++ map_of (map (\<lambda>e. (pn_key e, pn_value e)) es)) d d'"
  using assms
proof (induction es arbitrary: d)
  case Nil
  then show ?case by (auto simp: writes_map_def)
next
  case (Cons e es)
  let ?d = "d\<lparr>db_projection_entries :=
      AList.update (p, pn_key e) (pn_value e) (db_projection_entries d)\<rparr>"
  have ins: "insert_projection_entry p (pn_key e) (pn_value e) d = Inr ?d"
    using Cons.prems by (simp add: insert_projection_entry_Inr projection_map_def)
  have w: "writes_map p (\<lambda>m. m(pn_key e \<mapsto> pn_value e)) d ?d"
    using Cons.prems by (intro write_entry)
  have "projections_ok ?d" "map_of (db_projection_meta ?d) p \<noteq> None"
    "\<forall>x \<in> set es. projection_map ?d p (pn_key x) = None"
    using w Cons.prems by (auto simp: writes_map_def image_iff)
  with Cons.IH [of ?d] Cons.prems(3) obtain d' where
    rest: "fold_res (\<lambda>e d. map_err Error_Storage
        (insert_projection_entry p (pn_key e) (pn_value e) d)) es ?d = Inr d'"
    and "writes_map p (\<lambda>m. m ++ map_of (map (\<lambda>e. (pn_key e, pn_value e)) es)) ?d d'"
    by auto
  then have "writes_map p (\<lambda>m. m(pn_key e \<mapsto> pn_value e)
      ++ map_of (map (\<lambda>e. (pn_key e, pn_value e)) es)) d d'"
    by (intro writes_map_trans [OF w])
  moreover have "(\<lambda>m. m(pn_key e \<mapsto> pn_value e) ++ map_of (map (\<lambda>e. (pn_key e, pn_value e)) es))
      = (\<lambda>m. m ++ map_of (map (\<lambda>e. (pn_key e, pn_value e)) (e # es)))"
    using map_upd_add [of "pn_key e" "map (\<lambda>e. (pn_key e, pn_value e)) es"] Cons.prems(3)
    by (simp add: image_image)
  ultimately show ?case
    using ins rest by (intro exI [of _ d']) (simp only: fold_res.simps map_err_simps and_then_simps simp_thms)
qed

text \<open>Every mutation that names no key twice succeeds and acts as its update of the map.\<close>

lemma apply_mutation_writes:
  assumes "projections_ok d" and "map_of (db_projection_meta d) p \<noteq> None"
    and "distinct (mutation_keys m)"
  shows "\<exists>d'. apply_mutation p m d = Inr d' \<and> writes_map p (mutate m) d d'"
proof (cases m)
  case (Put key v)
  then show ?thesis
    using assms write_entry [of d p key v] by (auto simp: upsert_projection_entry_def mutate_fun)
next
  case (Delete key)
  then show ?thesis using assms delete_entry_writes by (simp add: mutate_fun)
next
  case Clear
  then show ?thesis using assms clear_entries_writes by (simp add: mutate_fun)
next
  case (Replace entries)
  have w: "writes_map p (\<lambda>m. Map.empty) d (clear_entries p d)"
    using assms(1) by (rule clear_entries_writes)
  then obtain d' where "apply_mutation p m d = Inr d'" and
    "writes_map p (\<lambda>m. m ++ map_of (map (\<lambda>e. (pn_key e, pn_value e)) entries)) (clear_entries p d) d'"
    using insert_entries_write [of "clear_entries p d" p entries] assms(2,3) Replace
    by (auto simp: writes_map_def)
  with writes_map_trans [OF w] show ?thesis using Replace by (fastforce simp: mutate_fun)
qed

lemma apply_mutations_write:
  assumes "projections_ok d" and "map_of (db_projection_meta d) p \<noteq> None"
    and "\<forall>m \<in> set ms. distinct (mutation_keys m)"
  shows "\<exists>d'. fold_res (apply_mutation p) ms d = Inr d' \<and> writes_map p (fold mutate ms) d d'"
  using assms
proof (induction ms arbitrary: d)
  case Nil
  then show ?case by (auto simp: writes_map_def)
next
  case (Cons m ms)
  then obtain d1 where d1: "apply_mutation p m d = Inr d1" "writes_map p (mutate m) d d1"
    using apply_mutation_writes [of d p m] by auto
  with Cons obtain d2 where "fold_res (apply_mutation p) ms d1 = Inr d2"
    "writes_map p (fold mutate ms) d1 d2"
    using Cons.IH [of d1] by (auto simp: writes_map_def)
  with d1 writes_map_trans show ?case by (fastforce simp: comp_def)
qed

lemma meta_update:
  assumes "projections_ok d"
  shows "projections_ok (upsert_projection_meta p v d)"
    and "only_projection p d (upsert_projection_meta p v d)"
    and "projection_map (upsert_projection_meta p v d) = projection_map d"
    and "map_of (db_projection_meta (upsert_projection_meta p v d)) p = Some (u64_as_i64 v)"
  using assms
  by (auto simp: projections_ok_def only_projection_def projection_map_def upsert_projection_meta_def
      update_conv' distinct_update fun_eq_iff) blast+

lemma no_contradiction_distinct: "no_contradiction ms \<Longrightarrow> m \<in> set ms \<Longrightarrow> distinct (mutation_keys m)"
  by (simp add: no_contradiction_def)

lemma apply_patch_outcome:
  assumes "projections_ok d"
  shows "case apply_patch patch d of
      Inr d' \<Rightarrow>
        patch_validate patch = Inr () \<and>
        projection_version d (pp_projection patch) = Inr (pp_expected_version patch) \<and>
        projection_version d' (pp_projection patch) = Inr (pp_new_version patch) \<and>
        projection_map d' (pp_projection patch)
          = fold mutate (pp_mutations patch) (projection_map d (pp_projection patch)) \<and>
        only_projection (pp_projection patch) d d' \<and> projections_ok d'
    | Inl e \<Rightarrow>
        (\<exists>v. patch_validate patch = Inl v \<and> e = Error_Validation v) \<or>
        (\<exists>actual. projection_version d (pp_projection patch) = Inr actual \<and>
          actual \<noteq> pp_expected_version patch \<and>
          e = Error_Conflict (ProjectionVersionConflict (pp_projection patch)
                (pp_expected_version patch) actual))"
proof (cases "patch_validate patch")
  case (Inl v)
  then show ?thesis by (simp add: apply_patch_def)
next
  case (Inr u)
  let ?p = "pp_projection patch"
  let ?d = "upsert_projection_meta ?p (pp_new_version patch) d"
  note up = meta_update [OF assms, of ?p "pp_new_version patch"]
  have "\<forall>m \<in> set (pp_mutations patch). distinct (mutation_keys m)"
    using Inr no_contradiction_distinct by (auto simp: patch_validate_accepts)
  then obtain d' where d': "fold_res (apply_mutation ?p) (pp_mutations patch) ?d = Inr d'"
    "writes_map ?p (fold mutate (pp_mutations patch)) ?d d'"
    using apply_mutations_write [of ?d ?p "pp_mutations patch"] up by auto
  moreover have "version_of (db_projection_meta d') ?p = pp_new_version patch"
    using d'(2) up(4) by (simp add: writes_map_def version_of_def)
  ultimately show ?thesis
    using Inr up only_projection_trans
    by (auto simp: apply_patch_def version_query_def projection_version_def writes_map_def)
qed

text \<open>
  C27: a patch is applied exactly when it is valid and the projection is at the expected
  version; the projection then has the new version and the map its mutations describe, and no
  other projection or table changes. Otherwise the error is the validation error or the version
  conflict; no schema constraint can fail.
\<close>

theorem apply_patch_refines:
  assumes "projections_ok d"
  shows "case apply_patch patch d of
      Inr d' \<Rightarrow>
        patch_validate patch = Inr () \<and>
        projection_version d (pp_projection patch) = Inr (pp_expected_version patch) \<and>
        projection_version d' (pp_projection patch) = Inr (pp_new_version patch) \<and>
        projection_map d' (pp_projection patch)
          = fold mutate (pp_mutations patch) (projection_map d (pp_projection patch)) \<and>
        only_projection (pp_projection patch) d d' \<and> projections_ok d'
    | Inl e \<Rightarrow>
        (\<exists>v. patch_validate patch = Inl v \<and> e = Error_Validation v) \<or>
        (\<exists>actual. projection_version d (pp_projection patch) = Inr actual \<and>
          actual \<noteq> pp_expected_version patch \<and>
          e = Error_Conflict (ProjectionVersionConflict (pp_projection patch)
                (pp_expected_version patch) actual))"
  using assms by (rule apply_patch_outcome)

theorem apply_patch_refines_witness:
  "\<exists>d'. apply_patch (patch_put (patch_new ''p'' 0) [1] [2]) empty_db = Inr d' \<and>
     projection_map d' ''p'' = [[1] \<mapsto> [2]]"
proof -
  let ?patch = "patch_put (patch_new ''p'' 0) [1] [2]"
  have ok: "projections_ok empty_db"
    by (simp add: projections_ok_def empty_db_def)
  have "apply_patch ?patch empty_db \<noteq> Inl e" for e
    by (simp add: apply_patch_def patch_put_def patch_push_def patch_new_def patch_validate_def
        saturating_add_u64_def seen_insert_def version_query_def version_of_def empty_db_def
        i64_as_u64_def upsert_projection_meta_def upsert_projection_entry_def)
  then obtain d' where "apply_patch ?patch empty_db = Inr d'"
    by (cases "apply_patch ?patch empty_db") auto
  with apply_patch_refines [OF ok, of ?patch] show ?thesis
    by (auto simp: patch_put_def patch_push_def patch_new_def mutate_fun projection_map_def empty_db_def)
qed

section \<open>Prefix bounds\<close>

lemma word_less_succ:
  fixes b c :: u8
  assumes "b \<noteq> 0xFF"
  shows "c < b + 1 \<longleftrightarrow> c \<le> b"
proof -
  have "unat b < 256" using unsigned_less [of b, where ?'a = nat] by simp
  moreover have "unat b \<noteq> 255" using assms by (auto simp: word_unat_eq_iff)
  ultimately have "unat (b + 1) = unat b + 1"
    by (simp add: unat_word_ariths)
  then show ?thesis by (auto simp: word_less_nat_alt word_le_nat_alt)
qed

lemma u8_max: "\<not> (0xFF :: u8) < c"
  using unsigned_less [of c, where ?'a = nat] by (simp add: word_less_nat_alt)

lemma snoc_bounds:
  fixes q :: bytes
  assumes "b \<noteq> 0xFF"
  shows "q @ [b] \<le> k \<and> k < q @ [b + 1] \<longleftrightarrow> prefix (q @ [b]) k"
proof (induction q arbitrary: k)
  case Nil
  show ?case
  proof (cases k)
    case (Cons c k')
    have "c < b + 1 \<longleftrightarrow> c \<le> b" by (rule word_less_succ [OF assms])
    then have "[b] \<le> c # k' \<and> c # k' < [b + 1] \<longleftrightarrow> b = c"
      by (simp only: Cons_le_Cons Cons_less_Cons Nil_le_Cons not_less_Nil simp_thms) fastforce
    then show ?thesis by (simp only: Cons append_Nil Cons_prefix_Cons Nil_prefix simp_thms)
  qed simp
next
  case (Cons x q)
  show ?case
  proof (cases k)
    case (Cons c k')
    then show ?thesis
      using Cons.IH [of k'] by (cases c x rule: linorder_cases) auto
  qed simp
qed

lemma append_le: "(p :: bytes) \<le> p @ r"
  by (induction p) auto

lemma prefix_le: "prefix p k \<Longrightarrow> (p :: bytes) \<le> k"
  using append_le by (auto simp: prefix_def)

lemma snoc_max_bound:
  fixes q :: bytes
  shows "prefix q k \<Longrightarrow> q @ [0xFF] \<le> k \<longleftrightarrow> prefix (q @ [0xFF]) k"
proof (induction q arbitrary: k)
  case Nil
  then show ?case using u8_max by (cases k) auto
next
  case (Cons x q)
  then show ?case by (cases k) auto
qed

lemma prefix_bounds:
  "pre \<le> k \<and> if_some (\<lambda>u. k < u) (prefix_upper_bound pre) \<longleftrightarrow> prefix pre k"
proof (induction pre rule: rev_induct)
  case Nil
  then show ?case by (simp add: prefix_upper_bound_def if_some_def)
next
  case (snoc b q)
  show ?case
  proof (cases "b = 0xFF")
    case True
    then have ub: "prefix_upper_bound (q @ [b]) = prefix_upper_bound q"
      by (simp add: prefix_upper_bound_def)
    have "prefix (q @ [b]) k \<Longrightarrow> prefix q k"
      by (auto simp: prefix_def)
    moreover have "q @ [b] \<le> k \<Longrightarrow> q \<le> k"
      using prefix_le [of q "q @ [b]"] by (auto intro: order_trans)
    ultimately show ?thesis
      using snoc.IH snoc_max_bound [of q k] prefix_le [of "q @ [b]" k] True unfolding ub by blast
  next
    case False
    then show ?thesis
      using snoc_bounds [OF False, of q k] by (simp add: prefix_upper_bound_def if_some_def)
  qed
qed

text \<open>
  The bounds \<open>prefix_upper_bound\<close> compiles a prefix scan to select exactly the keys that
  start with the prefix, also when the prefix ends in 0xFF bytes or has no upper bound.
\<close>

theorem prefix_upper_bound_exact:
  "pre \<le> k \<and> if_some (\<lambda>u. k < u) (prefix_upper_bound pre) \<longleftrightarrow> prefix pre k"
  by (rule prefix_bounds)

section \<open>Scans\<close>

text \<open>The entries of a projection in key order: the table a scan reads from.\<close>

definition entries_in_order :: "db \<Rightarrow> str \<Rightarrow> ProjectionEntry list" where
  "entries_in_order d p =
     map (\<lambda>e. \<lparr>pn_key = snd (fst e), pn_value = snd e\<rparr>)
       (sort_key (\<lambda>e. snd (fst e)) (filter (\<lambda>e. fst (fst e) = p) (db_projection_entries d)))"

lemma distinct_keys_of:
  "distinct (map fst es) \<Longrightarrow> distinct (map (\<lambda>e. snd (fst e)) (filter (\<lambda>e. fst (fst e) = p) es))"
  by (induction es) (auto simp: image_iff)

lemma entries_sorted:
  assumes "projections_ok d"
  shows "sorted_wrt (\<lambda>a b. pn_key a < pn_key b) (entries_in_order d p)"
proof -
  let ?rows = "filter (\<lambda>e. fst (fst e) = p) (db_projection_entries d)"
  have "map pn_key (entries_in_order d p) = map (\<lambda>e. snd (fst e)) (sort_key (\<lambda>e. snd (fst e)) ?rows)"
    by (simp add: entries_in_order_def)
  moreover have "distinct (map (\<lambda>e. snd (fst e)) (sort_key (\<lambda>e. snd (fst e)) ?rows))"
    using distinct_keys_of [of "db_projection_entries d" p] assms
    by (simp add: distinct_map projections_ok_def)
  ultimately have "sorted (map pn_key (entries_in_order d p)) \<and> distinct (map pn_key (entries_in_order d p))"
    by simp
  then have "sorted_wrt (<) (map pn_key (entries_in_order d p))"
    using strict_sorted_iff by blast
  then show ?thesis by (simp add: sorted_wrt_map)
qed

lemma entries_map_of:
  assumes "projections_ok d"
  shows "e \<in> set (entries_in_order d p) \<longleftrightarrow> projection_map d p (pn_key e) = Some (pn_value e)"
proof -
  have "e \<in> set (entries_in_order d p) \<longleftrightarrow> ((p, pn_key e), pn_value e) \<in> set (db_projection_entries d)"
    by (cases e) (auto simp: entries_in_order_def image_iff intro: bexI [rotated])
  then show ?thesis
    using assms by (simp add: projections_ok_def projection_map_def)
qed

text \<open>Filtering the rows of one projection and sorting them commute.\<close>

lemma scan_entries:
  assumes "int limit \<le> i64_max"
  shows "scan d p start end after limit = Inr (take limit (filter (\<lambda>e.
      if_some (\<lambda>s. s \<le> pn_key e) start \<and> if_some (\<lambda>u. pn_key e < u) end \<and>
      if_some (\<lambda>a. a < pn_key e) after) (entries_in_order d p)))"
proof -
  have "filter (\<lambda>e. fst (fst e) = p \<and> Q (snd (fst e))) es
      = filter (\<lambda>e. Q (snd (fst e))) (filter (\<lambda>e. fst (fst e) = p) es)" for Q and es :: "((str \<times> bytes) \<times> bytes) list"
    by (simp add: conj_commute)
  then show ?thesis
    using assms
    by (simp add: scan_def entries_in_order_def sql_limit_take filter_sort [symmetric] filter_map
        take_map comp_def)
qed

lemma prefix_page:
  assumes "projections_ok d" and "int limit \<le> i64_max"
  shows "projection_scan_prefix_page d p pre after limit =
      Inr (take limit (filter (\<lambda>e. prefix pre (pn_key e) \<and> if_some (\<lambda>a. a < pn_key e) after)
        (entries_in_order d p))) \<and>
    sorted_wrt (\<lambda>a b. pn_key a < pn_key b) (entries_in_order d p) \<and>
    (\<forall>k v. \<lparr>pn_key = k, pn_value = v\<rparr> \<in> set (entries_in_order d p) \<longleftrightarrow> projection_map d p k = Some v)"
proof -
  have "if_some (\<lambda>s. s \<le> k) (Some pre) \<and> if_some (\<lambda>u. k < u) (prefix_upper_bound pre) \<and> A
      \<longleftrightarrow> prefix pre k \<and> A" for k A
    using prefix_bounds [of pre k] by (auto simp: if_some_def)
  then show ?thesis
    using entries_sorted [OF assms(1)] entries_map_of [OF assms(1)]
    by (simp add: projection_scan_prefix_page_def scan_entries [OF assms(2)])
qed

text \<open>
  A prefix scan page returns the first \<open>limit\<close> entries of the projection whose key starts
  with the prefix and lies after the cursor, in strictly increasing key order; those entries are
  exactly the bindings of the projection's map.
\<close>

theorem prefix_scan_page:
  assumes "projections_ok d" and "int limit \<le> i64_max"
  shows "projection_scan_prefix_page d p pre after limit =
      Inr (take limit (filter (\<lambda>e. prefix pre (pn_key e) \<and> if_some (\<lambda>a. a < pn_key e) after)
        (entries_in_order d p))) \<and>
    sorted_wrt (\<lambda>a b. pn_key a < pn_key b) (entries_in_order d p) \<and>
    (\<forall>k v. \<lparr>pn_key = k, pn_value = v\<rparr> \<in> set (entries_in_order d p) \<longleftrightarrow> projection_map d p k = Some v)"
  using assms by (rule prefix_page)

text \<open>In a strictly sorted list, the elements after the last one of a page are the rest.\<close>

lemma after_last_of_page:
  fixes key :: "'a \<Rightarrow> 'k::linorder"
  assumes "sorted_wrt (\<lambda>a b. key a < key b) xs" and "0 < n" and "take n xs \<noteq> []"
  shows "filter (\<lambda>e. key (last (take n xs)) < key e) xs = drop n xs"
proof -
  let ?l = "last (take n xs)"
  have split: "sorted_wrt (\<lambda>a b. key a < key b) (take n xs @ drop n xs)"
    using assms(1) by simp
  have "\<not> key ?l < key e" if "e \<in> set (take n xs)" for e
  proof -
    have "take n xs = butlast (take n xs) @ [?l]" using assms(3) by simp
    then have "e = ?l \<or> key e < key ?l"
      using that split unfolding sorted_wrt_append
      by (metis Un_iff empty_iff empty_set insertE list.simps(15) set_append sorted_wrt_append insertI1)
    then show ?thesis by auto
  qed
  moreover have "key ?l < key e" if "e \<in> set (drop n xs)" for e
    using that split [unfolded sorted_wrt_append] last_in_set [OF assms(3)] by blast
  ultimately have "filter (\<lambda>e. key ?l < key e) (take n xs @ drop n xs) = drop n xs"
    by (simp only: filter_append) (simp add: filter_False filter_True del: append_take_drop_id)
  then show ?thesis by simp
qed

text \<open>
  Paging is complete: asking again with the last key of a page as the cursor returns the
  entries that follow that page, none skipped and none repeated.
\<close>

theorem prefix_scan_next_page:
  assumes ok: "projections_ok d" and limit: "0 < limit" "int limit \<le> i64_max"
    and page: "projection_scan_prefix_page d p pre after limit = Inr page" "page \<noteq> []"
  shows "projection_scan_prefix_page d p pre (Some (pn_key (last page))) limit =
    Inr (take limit (drop limit (filter (\<lambda>e. prefix pre (pn_key e) \<and> if_some (\<lambda>a. a < pn_key e) after)
      (entries_in_order d p))))"
proof -
  let ?all = "entries_in_order d p"
  let ?rest = "filter (\<lambda>e. prefix pre (pn_key e) \<and> if_some (\<lambda>a. a < pn_key e) after) ?all"
  have page': "page = take limit ?rest"
    using page(1) prefix_page [OF ok limit(2), of p pre after] by simp
  have "sorted_wrt (\<lambda>a b. pn_key a < pn_key b) ?rest"
    using entries_sorted [OF ok] by (intro sorted_wrt_filter)
  then have "filter (\<lambda>e. pn_key (last page) < pn_key e) ?rest = drop limit ?rest"
    using after_last_of_page limit(1) page(2) unfolding page' by blast
  moreover have "if_some (\<lambda>a. a < pn_key e) after" if "pn_key (last page) < pn_key e" for e
  proof -
    have "set page \<subseteq> set ?rest"
      unfolding page' by (rule set_take_subset)
    then have "last page \<in> set ?rest"
      using last_in_set [OF page(2)] by (rule subsetD)
    then show ?thesis
      using that by (auto simp: if_some_def split: option.splits)
  qed
  then have "(prefix pre (pn_key e) \<and> pn_key (last page) < pn_key e) =
      ((prefix pre (pn_key e) \<and> if_some (\<lambda>a. a < pn_key e) after) \<and> pn_key (last page) < pn_key e)" for e
    by blast
  then have "filter (\<lambda>e. prefix pre (pn_key e) \<and> pn_key (last page) < pn_key e) ?all
      = filter (\<lambda>e. pn_key (last page) < pn_key e) ?rest"
    unfolding filter_filter by (intro filter_cong refl)
  ultimately show ?thesis
    using prefix_page [OF ok limit(2), of p pre "Some (pn_key (last page))"]
    by (simp add: if_some_def)
qed

lemmas patch_defs = patch_put_def patch_push_def patch_new_def patch_validate_def
  saturating_add_u64_def seen_insert_def

text \<open>A small store for the witnesses: projection \<open>p\<close> with the keys 1, 1-2 and 2.\<close>

definition sample_projection :: db where
  "sample_projection = empty_db\<lparr>db_projection_meta := [(''p'', 1)],
     db_projection_entries := [((''p'', [2]), [9]), ((''p'', [1, 2]), [8]), ((''p'', [1]), [7])]\<rparr>"

lemma sample_projection_ok: "projections_ok sample_projection"
  by (auto simp: projections_ok_def sample_projection_def split: if_splits)

lemma sample_limit: "int 1 \<le> i64_max" "int 10 \<le> i64_max"
  by (simp_all add: i64_max_def)

theorem prefix_scan_page_witness:
  "projection_scan_prefix_page sample_projection ''p'' [1] None 10 =
     Inr [\<lparr>pn_key = [1], pn_value = [7]\<rparr>, \<lparr>pn_key = [1, 2], pn_value = [8]\<rparr>]"
  using prefix_scan_page [OF sample_projection_ok sample_limit(2), of "''p''" "[1]" None]
  by (simp add: entries_in_order_def sample_projection_def if_some_def)

theorem prefix_scan_next_page_witness:
  "projection_scan_prefix_page sample_projection ''p'' [1] (Some [1]) 1 =
     Inr [\<lparr>pn_key = [1, 2], pn_value = [8]\<rparr>]"
proof -
  have "projection_scan_prefix_page sample_projection ''p'' [1] None 1 =
      Inr [\<lparr>pn_key = [1], pn_value = [7]\<rparr>]"
    by (simp add: projection_scan_prefix_page_def scan_def prefix_upper_bound_def if_some_def
        sample_projection_def sql_limit_def u64_as_i64_def)
  from prefix_scan_next_page [OF sample_projection_ok _ sample_limit(1) this] show ?thesis
    by (simp add: entries_in_order_def sample_projection_def if_some_def)
qed

end
