(* ===== verification/Commit.thy ===== *)
theory Commit
  imports JobProperties ProjectionStore
begin

text \<open>
  \<open>src/store/commit.rs\<close>: validation of a batch, the commit pipeline and the recovery of a
  commit whose outcome is unknown.

  What the environment decides is a parameter of each call: whether \<open>BEGIN IMMEDIATE\<close> fails (a
  busy or broken database, with the driver's text), whether the first statement of the transaction
  that changes a table is refused (a read-only connection, a full disk), whether \<open>COMMIT\<close> fails
  and whether it persisted all the same, and whether the \<open>failpoints\<close> feature is armed. Dropping an open
  transaction rolls it back, so every other early return leaves the database as it was.
\<close>

section \<open>The environment of a write\<close>

record io =
  io_begin :: "str option"
  io_write :: "str option"
  io_commit :: "(str \<times> bool) option"
  io_failpoint :: bool

definition healthy :: io where
  "healthy = \<lparr>io_begin = None, io_write = None, io_commit = None, io_failpoint = False\<rparr>"

text \<open>
  \<open>tx.commit()\<close> and the failpoint after it: the text of an unknown outcome, if it is unknown,
  and the durable database.
\<close>

definition commit_step :: "io \<Rightarrow> db \<Rightarrow> db \<Rightarrow> str option \<times> db" where
  "commit_step io old new =
     (case io_commit io of
        Some (msg, durable) \<Rightarrow>
          (Some (show_storage_error (\<lambda>_. '''') (Sqlite (SqliteText msg))), if durable then new else old)
      | None \<Rightarrow>
          if io_failpoint io then (Some ''failpoint: COMMIT outcome unknown'', new) else (None, new))"

section \<open>Validation\<close>

definition invalid :: "str \<Rightarrow> ValidationError + unit" where
  "invalid msg = Inl (ValidationError msg)"

definition validate_entry :: "Limits \<Rightarrow> ProjectionEntry \<Rightarrow> ValidationError + unit" where
  "validate_entry l entry =
     and_then (validate_projection_key l (length (pn_key entry))) (\<lambda>_.
       validate_projection_value l (length (pn_value entry)))"

fun validate_mutation :: "Limits \<Rightarrow> ProjectionMutation \<Rightarrow> ValidationError + unit" where
  "validate_mutation l (Put key value) =
     and_then (validate_projection_key l (length key)) (\<lambda>_. validate_projection_value l (length value))"
| "validate_mutation l (Delete key) = validate_projection_key l (length key)"
| "validate_mutation l Clear = Inr ()"
| "validate_mutation l (Replace entries) =
     (if length entries > max_replace_entries l
      then invalid (''replace entry count '' @ show_nat (length entries) @ '' exceeds limit ''
             @ show_nat (max_replace_entries l))
      else all_ok (validate_entry l) entries)"

definition zero_token :: "ValidationError + unit" where
  "zero_token = invalid ''lease token cannot be zero''"

fun validate_operation :: "Limits \<Rightarrow> Operation \<Rightarrow> ValidationError + unit" where
  "validate_operation l (AppendEvent event) =
     (if ev_event_id event = ZERO then invalid ''event id cannot be zero''
      else and_then (validate_string l ''stream id'' (ev_stream_id event)) (\<lambda>_.
           and_then (validate_string l ''event type'' (ev_event_type event)) (\<lambda>_.
           validate_event l (length (ev_payload event)) (length (ev_metadata event)))))"
| "validate_operation l (ProjectionPatch patch) =
     and_then (validate_string l ''projection'' (pp_projection patch)) (\<lambda>_.
     and_then (patch_validate patch) (\<lambda>_.
     all_ok (validate_mutation l) (pp_mutations patch)))"
| "validate_operation l (EnqueueJob spec) =
     (if js_job_id spec = ZERO then invalid ''job id cannot be zero''
      else if js_max_attempts spec = 0 then invalid ''job max_attempts must be at least 1''
      else and_then (validate_string l ''queue'' (js_queue spec)) (\<lambda>_.
           and_then (validate_string l ''partition key'' (js_partition_key spec)) (\<lambda>_.
           and_then (validate_job_payload l (length (js_payload spec))) (\<lambda>_.
           case js_idempotency_key spec of
             Some key \<Rightarrow> validate_string l ''idempotency key'' key
           | None \<Rightarrow> Inr ()))))"
| "validate_operation l (AckJob ack) =
     (if ack_lease_token ack = ZERO then zero_token else Inr ())"
| "validate_operation l (FailJob failure) =
     (if jf_lease_token failure = ZERO then zero_token
      else validate_summary l (jf_error_summary failure))"
| "validate_operation l (CancelJob cancellation) =
     (if jc_lease_token cancellation = Some ZERO then zero_token else Inr ())"
| "validate_operation l (ResolveJob resolution) = Inr ()"
| "validate_operation l (ExtendLease extension) =
     (if le_lease_token extension = ZERO then zero_token else Inr ())"

definition validate_batch :: "Limits \<Rightarrow> CommitBatch \<Rightarrow> ValidationError + unit" where
  "validate_batch l batch =
     (if cb_transaction_id batch = ZERO then invalid ''transaction id cannot be zero''
      else if length (cb_operations batch) > max_operations_per_commit l
      then invalid (''operation count '' @ show_nat (length (cb_operations batch))
             @ '' exceeds limit '' @ show_nat (max_operations_per_commit l))
      else and_then (validate_metadata l (length (cb_metadata batch))) (\<lambda>_.
           and_then (all_ok (\<lambda>expected. validate_string l ''stream id'' (es_stream_id expected))
             (cb_expected_stream_versions batch)) (\<lambda>_.
           all_ok (validate_operation l) (cb_operations batch))))"

section \<open>The pipeline\<close>

definition lookup_transaction :: "db \<Rightarrow> Id \<Rightarrow> (u64 \<times> i64 \<times> bytes) option" where
  "lookup_transaction d transaction_id =
     map_option (\<lambda>r. (i64_as_u64 (tr_transaction_sequence r), tr_committed_at_ms r, tr_request_digest r))
       (find (\<lambda>r. tr_transaction_id r = transaction_id) (db_transactions d))"

definition current_stream_version :: "db \<Rightarrow> str \<Rightarrow> u64" where
  "current_stream_version d stream_id = version_of (db_streams d) stream_id"

text \<open>The \<open>HashMap\<close> of stream versions seen so far, as an association list.\<close>

type_synonym stream_versions = "(str \<times> u64) list"

definition check_expected ::
    "db \<Rightarrow> ExpectedStreamVersion \<Rightarrow> stream_versions \<Rightarrow> CommitError + stream_versions" where
  "check_expected d expected versions =
     (let actual = current_stream_version d (es_stream_id expected) in
      if actual \<noteq> es_version expected
      then Inl (Commit_Conflict (StreamVersionConflict (es_stream_id expected) (es_version expected) actual))
      else Inr (AList.update (es_stream_id expected) actual versions))"

fun lease_commit_error :: "LeaseError \<Rightarrow> CommitError" where
  "lease_commit_error (Lease_Conflict c) = Commit_Conflict (LeaseConflict c)"
| "lease_commit_error (Lease_Storage s) = Commit_Storage s"
| "lease_commit_error (Lease_Indeterminate i) = Commit_Storage (Sqlite (SqliteText (il_storage_error i)))"

fun run_operation ::
    "CommitBatch \<Rightarrow> Operation \<Rightarrow> stream_versions \<times> db \<Rightarrow> CommitError + (stream_versions \<times> db)" where
  "run_operation b (AppendEvent event) (versions, d) =
     (let current = (case map_of versions (ev_stream_id event) of
            Some v \<Rightarrow> v
          | None \<Rightarrow> current_stream_version d (ev_stream_id event)) in
      and_then (ok_or (checked_add_u64 current 1) (Commit_Validation (ValidationError
        (''stream '' @ ev_stream_id event @ '' version overflow'')))) (\<lambda>next_version.
      and_then (map_err Commit_Storage (insert_event (cb_transaction_id b) event next_version d)) (\<lambda>d.
      Inr (AList.update (ev_stream_id event) next_version versions, d))))"
| "run_operation b (ProjectionPatch patch) (versions, d) =
     and_then (map_err commit_error_of (apply_patch patch d)) (\<lambda>d. Inr (versions, d))"
| "run_operation b (EnqueueJob spec) (versions, d) =
     and_then (map_err commit_error_of (apply_enqueue (cb_transaction_id b) spec d))
       (\<lambda>d. Inr (versions, d))"
| "run_operation b (AckJob ack) (versions, d) =
     and_then (map_err commit_error_of
       (apply_ack (cb_transaction_id b) (cb_committed_at_ms b) ack d)) (\<lambda>d. Inr (versions, d))"
| "run_operation b (FailJob failure) (versions, d) =
     and_then (map_err commit_error_of
       (apply_fail (cb_transaction_id b) (cb_committed_at_ms b) failure d)) (\<lambda>d. Inr (versions, d))"
| "run_operation b (CancelJob cancellation) (versions, d) =
     and_then (map_err commit_error_of
       (apply_cancel (cb_transaction_id b) (cb_committed_at_ms b) cancellation d)) (\<lambda>d. Inr (versions, d))"
| "run_operation b (ResolveJob resolution) (versions, d) =
     and_then (map_err commit_error_of
       (apply_resolve (cb_transaction_id b) (cb_committed_at_ms b) resolution d)) (\<lambda>d. Inr (versions, d))"
| "run_operation b (ExtendLease extension) (versions, d) =
     and_then (map_err lease_commit_error
       (apply_extend_lease extension (cb_committed_at_ms b) d)) (\<lambda>(receipt, d). Inr (versions, d))"

definition upsert_streams :: "stream_versions \<Rightarrow> db \<Rightarrow> db" where
  "upsert_streams versions d =
     d\<lparr>db_streams := fold (\<lambda>(stream_id, version). AList.update stream_id (u64_as_i64 version))
         versions (db_streams d)\<rparr>"

definition batch_row :: "CommitBatch \<Rightarrow> i64 \<Rightarrow> TransactionRow" where
  "batch_row b transaction_sequence =
     \<lparr>tr_transaction_id = cb_transaction_id b, tr_transaction_sequence = transaction_sequence,
      tr_committed_at_ms = cb_committed_at_ms b, tr_correlation_id = cb_correlation_id b,
      tr_metadata = cb_metadata b, tr_request_digest = request_digest b,
      tr_operation_count = int (length (cb_operations b))\<rparr>"

text \<open>Everything between the duplicate check and \<open>COMMIT\<close>.\<close>

definition write_batch :: "CommitBatch \<Rightarrow> db \<Rightarrow> CommitError + (i64 \<times> db)" where
  "write_batch b d =
     and_then (fold_res (check_expected d) (cb_expected_stream_versions b) []) (\<lambda>versions.
     and_then (map_err Commit_Storage (next_sequence ''transactions.transaction_sequence''
       (map tr_transaction_sequence (db_transactions d)))) (\<lambda>transaction_sequence.
     and_then (map_err Commit_Storage (insert_transaction (batch_row b transaction_sequence) d)) (\<lambda>d.
     and_then (fold_res (run_operation b) (cb_operations b) (versions, d)) (\<lambda>(versions, d).
     Inr (transaction_sequence, upsert_streams versions d)))))"

text \<open>The same on a connection that may refuse to write: the checks that only read come first.\<close>

definition attempt_batch :: "io \<Rightarrow> CommitBatch \<Rightarrow> db \<Rightarrow> CommitError + (i64 \<times> db)" where
  "attempt_batch io b d =
     (case io_write io of
        None \<Rightarrow> write_batch b d
      | Some msg \<Rightarrow>
          and_then (fold_res (check_expected d) (cb_expected_stream_versions b) []) (\<lambda>_.
          and_then (map_err Commit_Storage (next_sequence ''transactions.transaction_sequence''
            (map tr_transaction_sequence (db_transactions d)))) (\<lambda>_.
          Inl (Commit_Storage (Sqlite (SqliteText msg))))))"

definition commit ::
    "Limits \<Rightarrow> CommitBatch \<Rightarrow> io \<Rightarrow> db \<Rightarrow> (CommitError + CommitReceipt) \<times> db" where
  "commit l b io d =
     (case validate_batch l b of
        Inl v \<Rightarrow> (Inl (Commit_Validation v), d)
      | Inr _ \<Rightarrow>
        (case io_begin io of
           Some msg \<Rightarrow> (Inl (Commit_Storage (Sqlite (SqliteText msg))), d)
         | None \<Rightarrow>
           (case lookup_transaction d (cb_transaction_id b) of
              Some (transaction_sequence, committed_at_ms, stored_digest) \<Rightarrow>
                if stored_digest = request_digest b
                then (Inr \<lparr>rc_transaction_id = cb_transaction_id b,
                           rc_transaction_sequence = transaction_sequence,
                           rc_committed_at_ms = committed_at_ms\<rparr>, d)
                else (Inl DuplicateIdWithDifferentContent, d)
            | None \<Rightarrow>
                (case attempt_batch io b d of
                   Inl e \<Rightarrow> (Inl e, d)
                 | Inr (transaction_sequence, new) \<Rightarrow>
                   (case commit_step io d new of
                      (Some msg, d') \<Rightarrow>
                        (Inl (Commit_Indeterminate \<lparr>ic_transaction_id = cb_transaction_id b,
                                ic_storage_error = msg\<rparr>), d')
                    | (None, d') \<Rightarrow>
                        (Inr \<lparr>rc_transaction_id = cb_transaction_id b,
                              rc_transaction_sequence = i64_as_u64 transaction_sequence,
                              rc_committed_at_ms = cb_committed_at_ms b\<rparr>, d'))))))"

definition recover_transaction :: "db \<Rightarrow> Id \<Rightarrow> StorageError + TransactionRecovery" where
  "recover_transaction d transaction_id =
     Inr (case find (\<lambda>r. tr_transaction_id r = transaction_id) (db_transactions d) of
            Some r \<Rightarrow> Tx_Committed \<lparr>rc_transaction_id = transaction_id,
              rc_transaction_sequence = i64_as_u64 (tr_transaction_sequence r),
              rc_committed_at_ms = tr_committed_at_ms r\<rparr>
          | None \<Rightarrow> Tx_Absent)"

end
