(* ===== verification/MigrationScripts.thy ===== *)
theory MigrationScripts
  imports Database Errors
begin

text \<open>
  The SQL of \<open>src/store/migrations.rs\<close>, one statement at a time: the text a script is checksummed
  as, and what each statement does to the catalog and the rows of the database inside the
  transaction of its migration. A script is stopped before any of its statements by an error of
  the engine, and at a statement the catalog or a CHECK clause refuses.
\<close>

section \<open>Statements\<close>

datatype statement =
    CreateTable str str
  | CreateIndex str str str
  | CopyRows str str
  | DropTable str
  | RenameTable str str

fun statement_text :: "statement \<Rightarrow> str" where
  "statement_text (CreateTable name columns) = ''CREATE TABLE '' @ name @ '' ('' @ columns @ '');''"
| "statement_text (CreateIndex name tbl columns) =
     ''CREATE INDEX '' @ name @ '' ON '' @ tbl @ ''('' @ columns @ '');''"
| "statement_text (CopyRows dest source) = ''INSERT INTO '' @ dest @ '' SELECT * FROM '' @ source @ '';''"
| "statement_text (DropTable name) = ''DROP TABLE '' @ name @ '';''"
| "statement_text (RenameTable name new) = ''ALTER TABLE '' @ name @ '' RENAME TO '' @ new @ '';''"

text \<open>Every statement ends its line with a line feed.\<close>

definition script_text :: "statement list \<Rightarrow> str" where
  "script_text ss = concat (map (\<lambda>s. statement_text s @ [CHR 0x0A]) ss)"

section \<open>The scripts\<close>

definition transactions_columns :: str where
  "transactions_columns =
     ''transaction_id BLOB PRIMARY KEY, transaction_sequence INTEGER NOT NULL UNIQUE, '' @
     ''committed_at_ms INTEGER NOT NULL, correlation_id BLOB, metadata BLOB NOT NULL, '' @
     ''request_digest BLOB NOT NULL, operation_count INTEGER NOT NULL''"

definition events_columns :: str where
  "events_columns =
     ''global_sequence INTEGER PRIMARY KEY AUTOINCREMENT, event_id BLOB NOT NULL UNIQUE, '' @
     ''transaction_id BLOB NOT NULL REFERENCES transactions(transaction_id), stream_id '' @
     ''TEXT NOT NULL, stream_version INTEGER NOT NULL, event_type TEXT NOT NULL, '' @
     ''schema_version INTEGER NOT NULL, occurred_at_ms INTEGER NOT NULL, causation_id '' @
     ''BLOB, correlation_id BLOB, payload BLOB NOT NULL, metadata BLOB NOT NULL, '' @
     ''UNIQUE(stream_id, stream_version)''"

definition streams_columns :: str where
  "streams_columns =
     ''stream_id TEXT PRIMARY KEY, current_version INTEGER NOT NULL''"

definition projection_meta_columns :: str where
  "projection_meta_columns =
     ''projection TEXT PRIMARY KEY, version INTEGER NOT NULL''"

definition projection_entries_columns :: str where
  "projection_entries_columns =
     ''projection TEXT NOT NULL REFERENCES projection_meta(projection) ON DELETE CASCADE, '' @
     ''key BLOB NOT NULL, value BLOB NOT NULL, PRIMARY KEY(projection, key)''"

definition jobs_columns :: str where
  "jobs_columns =
     ''job_id BLOB PRIMARY KEY, enqueue_sequence INTEGER NOT NULL UNIQUE, '' @
     ''enqueue_transaction_id BLOB NOT NULL REFERENCES transactions(transaction_id), queue '' @
     ''TEXT NOT NULL, partition_key TEXT NOT NULL, payload BLOB NOT NULL, not_before_ms '' @
     ''INTEGER NOT NULL, max_attempts INTEGER NOT NULL, effect_mode INTEGER NOT NULL, '' @
     ''idempotency_key TEXT, state INTEGER NOT NULL, attempt INTEGER NOT NULL, lease_token '' @
     ''BLOB, worker_id TEXT, lease_expires_at_ms INTEGER, retry_after_ms INTEGER, '' @
     ''terminal_at_ms INTEGER, result_digest BLOB, error_summary TEXT, '' @
     ''updated_transaction_id BLOB NOT NULL''"

definition queue_cursors_columns :: str where
  "queue_cursors_columns =
     ''queue TEXT PRIMARY KEY, last_partition_key TEXT''"

definition active_partitions_columns :: str where
  "active_partitions_columns =
     ''queue TEXT NOT NULL, partition_key TEXT NOT NULL, first_active_sequence INTEGER NOT '' @
     ''NULL, PRIMARY KEY(queue, partition_key)''"

definition claim_receipts_columns :: str where
  "claim_receipts_columns =
     ''transaction_id BLOB NOT NULL REFERENCES transactions(transaction_id), job_id BLOB '' @
     ''NOT NULL, lease_token BLOB NOT NULL, attempt INTEGER NOT NULL, worker_id TEXT NOT '' @
     ''NULL, lease_expires_at_ms INTEGER NOT NULL, PRIMARY KEY(transaction_id, job_id)''"

definition jobs_v2_columns :: str where
  "jobs_v2_columns =
     ''job_id BLOB PRIMARY KEY, enqueue_sequence INTEGER NOT NULL UNIQUE, '' @
     ''enqueue_transaction_id BLOB NOT NULL REFERENCES transactions(transaction_id), queue '' @
     ''TEXT NOT NULL, partition_key TEXT NOT NULL, payload BLOB NOT NULL, not_before_ms '' @
     ''INTEGER NOT NULL, max_attempts INTEGER NOT NULL CHECK (max_attempts > 0), '' @
     ''effect_mode INTEGER NOT NULL, idempotency_key TEXT, state INTEGER NOT NULL CHECK '' @
     ''(state BETWEEN 0 AND 6), attempt INTEGER NOT NULL CHECK (attempt >= 0), lease_token '' @
     ''BLOB, worker_id TEXT, lease_expires_at_ms INTEGER, retry_after_ms INTEGER, '' @
     ''terminal_at_ms INTEGER, result_digest BLOB, error_summary TEXT, '' @
     ''updated_transaction_id BLOB NOT NULL, CHECK (state <> 1 OR (lease_token IS NOT NULL '' @
     ''AND worker_id IS NOT NULL AND lease_expires_at_ms IS NOT NULL)), CHECK (state = 1 '' @
     ''OR (lease_token IS NULL AND worker_id IS NULL AND lease_expires_at_ms IS NULL)), '' @
     ''CHECK (state <> 2 OR retry_after_ms IS NOT NULL), CHECK ((state IN (4, 5, 6)) = '' @
     ''(terminal_at_ms IS NOT NULL))''"

definition SQL_V1 :: "statement list" where
  "SQL_V1 =
    [CreateTable ''transactions'' transactions_columns,
     CreateTable ''events'' events_columns,
     CreateIndex ''events_stream_idx'' ''events'' ''stream_id, stream_version'',
     CreateIndex ''events_transaction_idx'' ''events'' ''transaction_id'',
     CreateTable ''streams'' streams_columns,
     CreateTable ''projection_meta'' projection_meta_columns,
     CreateTable ''projection_entries'' projection_entries_columns,
     CreateTable ''jobs'' jobs_columns,
     CreateIndex ''jobs_ready_idx'' ''jobs'' ''queue, partition_key, state, not_before_ms, enqueue_sequence'',
     CreateIndex ''jobs_expiry_idx'' ''jobs'' ''state, lease_expires_at_ms'',
     CreateIndex ''jobs_queue_state_idx'' ''jobs'' ''queue, state'',
     CreateIndex ''jobs_transaction_idx'' ''jobs'' ''updated_transaction_id'',
     CreateTable ''queue_cursors'' queue_cursors_columns,
     CreateTable ''active_partitions'' active_partitions_columns,
     CreateTable ''claim_receipts'' claim_receipts_columns]"

definition SQL_V2 :: "statement list" where
  "SQL_V2 =
    [CreateTable ''jobs_v2'' jobs_v2_columns,
     CopyRows ''jobs_v2'' ''jobs'',
     DropTable ''jobs'',
     RenameTable ''jobs_v2'' ''jobs'',
     CreateIndex ''jobs_ready_idx'' ''jobs'' ''queue, partition_key, state, not_before_ms, enqueue_sequence'',
     CreateIndex ''jobs_expiry_idx'' ''jobs'' ''state, lease_expires_at_ms'',
     CreateIndex ''jobs_queue_state_idx'' ''jobs'' ''queue, state'',
     CreateIndex ''jobs_transaction_idx'' ''jobs'' ''updated_transaction_id'']"
record Migration =
  version :: u32
  script :: "statement list"

definition sql :: "Migration \<Rightarrow> str" where
  "sql m = script_text (script m)"

definition MIGRATIONS :: "Migration list" where
  "MIGRATIONS = [\<lparr>version = 1, script = SQL_V1\<rparr>, \<lparr>version = 2, script = SQL_V2\<rparr>]"

section \<open>What a statement does\<close>

text \<open>The tables with the text of their columns, in the order of the catalog, and the indexes with their tables.\<close>

record catalog =
  ct_tables :: "(str \<times> str) list"
  ct_indexes :: "(str \<times> str) list"

definition no_tables :: catalog where
  "no_tables = \<lparr>ct_tables = [], ct_indexes = []\<rparr>"

definition has_table :: "catalog \<Rightarrow> str \<Rightarrow> bool" where
  "has_table c name \<longleftrightarrow> name \<in> fst ` set (ct_tables c)"

definition has_index :: "catalog \<Rightarrow> str \<Rightarrow> bool" where
  "has_index c name \<longleftrightarrow> name \<in> fst ` set (ct_indexes c)"

text \<open>The catalog when a statement succeeds.\<close>

fun catalog_after :: "statement \<Rightarrow> catalog \<Rightarrow> catalog" where
  "catalog_after (CreateTable name columns) c = c\<lparr>ct_tables := ct_tables c @ [(name, columns)]\<rparr>"
| "catalog_after (CreateIndex name tbl columns) c = c\<lparr>ct_indexes := ct_indexes c @ [(name, tbl)]\<rparr>"
| "catalog_after (CopyRows dest source) c = c"
| "catalog_after (DropTable name) c =
     \<lparr>ct_tables = filter (\<lambda>t. fst t \<noteq> name) (ct_tables c), ct_indexes = filter (\<lambda>i. snd i \<noteq> name) (ct_indexes c)\<rparr>"
| "catalog_after (RenameTable name new) c =
     \<lparr>ct_tables = map (\<lambda>(t, columns). (if t = name then new else t, columns)) (ct_tables c),
      ct_indexes = map (\<lambda>(i, t). (i, if t = name then new else t)) (ct_indexes c)\<rparr>"

text \<open>
  The database inside the transaction: its catalog, the rows of its tables, and those of
  \<open>jobs_v2\<close>. Rows are only copied between the two tables that hold jobs.
\<close>

record image =
  im_catalog :: catalog
  im_db :: db
  im_copy :: "JobRow list"

definition clear_table :: "str \<Rightarrow> db \<Rightarrow> db" where
  "clear_table name d =
     (if name = ''transactions'' then d\<lparr>db_transactions := []\<rparr>
      else if name = ''events'' then d\<lparr>db_events := [], db_event_counter := 0\<rparr>
      else if name = ''streams'' then d\<lparr>db_streams := []\<rparr>
      else if name = ''projection_meta'' then d\<lparr>db_projection_meta := []\<rparr>
      else if name = ''projection_entries'' then d\<lparr>db_projection_entries := []\<rparr>
      else if name = ''jobs'' then d\<lparr>db_jobs := []\<rparr>
      else if name = ''queue_cursors'' then d\<lparr>db_queue_cursors := []\<rparr>
      else if name = ''active_partitions'' then d\<lparr>db_active_partitions := []\<rparr>
      else if name = ''claim_receipts'' then d\<lparr>db_claim_receipts := []\<rparr>
      else d)"

definition job_rows :: "str \<Rightarrow> image \<Rightarrow> JobRow list" where
  "job_rows name im = (if name = ''jobs'' then db_jobs (im_db im) else if name = ''jobs_v2'' then im_copy im else [])"

definition put_job_rows :: "str \<Rightarrow> JobRow list \<Rightarrow> image \<Rightarrow> image" where
  "put_job_rows name rows im =
     (if name = ''jobs'' then im\<lparr>im_db := (im_db im)\<lparr>db_jobs := rows\<rparr>\<rparr>
      else if name = ''jobs_v2'' then im\<lparr>im_copy := rows\<rparr> else im)"

definition clear_rows :: "str \<Rightarrow> image \<Rightarrow> image" where
  "clear_rows name im =
     (if name = ''jobs_v2'' then im\<lparr>im_copy := []\<rparr> else im\<lparr>im_db := clear_table name (im_db im)\<rparr>)"

text \<open>The rows of a statement's table: new and dropped tables are empty, a renamed one keeps its rows.\<close>

fun rows_after :: "statement \<Rightarrow> image \<Rightarrow> image" where
  "rows_after (CreateTable name columns) im = clear_rows name im"
| "rows_after (CreateIndex name tbl columns) im = im"
| "rows_after (CopyRows dest source) im = put_job_rows dest (job_rows dest im @ job_rows source im) im"
| "rows_after (DropTable name) im = clear_rows name im"
| "rows_after (RenameTable name new) im = clear_rows name (put_job_rows new (job_rows name im) im)"

text \<open>Why the engine refuses a statement; its texts are abbreviated.\<close>

definition no_such_table :: "str \<Rightarrow> StorageError" where
  "no_such_table name = Sqlite (SqliteText (''no such table: '' @ name))"

definition already_exists :: "str \<Rightarrow> str \<Rightarrow> StorageError" where
  "already_exists kind name = Sqlite (SqliteText (kind @ name @ '' already exists''))"

fun refusal :: "statement \<Rightarrow> image \<Rightarrow> StorageError option" where
  "refusal (CreateTable name columns) im =
     (if has_table (im_catalog im) name then Some (already_exists ''table '' name) else None)"
| "refusal (CreateIndex name tbl columns) im =
     (if has_index (im_catalog im) name then Some (already_exists ''index '' name)
      else if \<not> has_table (im_catalog im) tbl then Some (no_such_table tbl) else None)"
| "refusal (CopyRows dest source) im =
     (if \<not> has_table (im_catalog im) dest then Some (no_such_table dest)
      else if \<not> has_table (im_catalog im) source then Some (no_such_table source)
      else if map_of (ct_tables (im_catalog im)) dest = Some jobs_v2_columns
          \<and> \<not> list_all job_checks (job_rows source im)
      then Some (constraint_failed (Check dest)) else None)"
| "refusal (DropTable name) im =
     (if \<not> has_table (im_catalog im) name then Some (no_such_table name) else None)"
| "refusal (RenameTable name new) im =
     (if \<not> has_table (im_catalog im) name then Some (no_such_table name)
      else if has_table (im_catalog im) new then Some (already_exists ''table '' new) else None)"

definition run_statement :: "statement \<Rightarrow> image \<Rightarrow> StorageError + image" where
  "run_statement s im =
     (case refusal s im of
        Some e \<Rightarrow> Inl e
      | None \<Rightarrow> Inr ((rows_after s im)\<lparr>im_catalog := catalog_after s (im_catalog im)\<rparr>))"

text \<open>\<open>execute_batch\<close>; \<open>fault k\<close> is the text with which the engine fails statement \<open>k\<close>.\<close>

fun run_script :: "(nat \<Rightarrow> str option) \<Rightarrow> nat \<Rightarrow> statement list \<Rightarrow> image \<Rightarrow> StorageError + image" where
  "run_script fault k [] im = Inr im"
| "run_script fault k (s # ss) im =
     (case fault k of
        Some msg \<Rightarrow> Inl (Sqlite (SqliteText msg))
      | None \<Rightarrow> and_then (run_statement s im) (run_script fault (k + 1) ss))"

section \<open>Running a script\<close>

lemma run_script_undisturbed:
  "run_script fault k ss im = Inr im' \<Longrightarrow> run_script (\<lambda>_. None) 0 ss im = Inr im' \<and> (\<forall>j < length ss. fault (k + j) = None)"
proof (induction ss arbitrary: k im)
  case (Cons s ss)
  then obtain im1 where s: "fault k = None" "run_statement s im = Inr im1" "run_script fault (k + 1) ss im1 = Inr im'"
    by (auto simp: and_then_Inr_iff split: option.splits)
  have shift: "run_script (\<lambda>_. None) j ts x = run_script (\<lambda>_. None) i ts x" for i j ts x
    by (induction ts arbitrary: i j x) (simp_all add: and_then_def, metis)
  have "fault (k + j) = None" if "j < length (s # ss)" for j
    using Cons.IH [OF s(3)] s(1) that by (cases j) auto
  then show ?case using Cons.IH [OF s(3)] s shift [of 1 ss im1 0] by simp
qed simp

end
