(* ===== verification/Migrations.thy ===== *)
theory Migrations
  imports Commit MigrationScripts
begin

text \<open>
  \<open>src/store/migrations.rs\<close>: the checksum that guards the migrations, a database file, and the
  three entry points \<open>migrate\<close>, \<open>require_current\<close> and \<open>status\<close> on it.
\<close>

section \<open>The checksum of a script\<close>

text \<open>The 128-bit FNV-1a hash, as its sixteen big-endian bytes.\<close>

definition fnv_offset :: "128 word" where
  "fnv_offset = 0x6c62272e07bb014262b821756295c58d"

definition fnv_prime :: "128 word" where
  "fnv_prime = 0x0000000001000000000000000000013b"

definition fnv_step :: "128 word \<Rightarrow> u8 \<Rightarrow> 128 word" where
  "fnv_step state b = (state XOR ucast b) * fnv_prime"

definition checksum :: "str \<Rightarrow> bytes" where
  "checksum s = to_be_bytes (foldl fnv_step fnv_offset (str_bytes s))"

section \<open>A database file\<close>

text \<open>
  The rows of \<open>schema_migrations\<close> (none while the table does not exist), the catalog of the
  application tables, and their contents.
\<close>

record MigrationRow =
  mg_version :: u32
  mg_applied_at_ms :: i64
  mg_checksum :: bytes

record db_file =
  df_migrations :: "MigrationRow list option"
  df_catalog :: catalog
  df_store :: db

definition new_file :: db_file where
  "new_file = \<lparr>df_migrations = None, df_catalog = no_tables, df_store = empty_db\<rparr>"

definition migration_rows :: "db_file \<Rightarrow> MigrationRow list" where
  "migration_rows f = (case df_migrations f of None \<Rightarrow> [] | Some rows \<Rightarrow> rows)"

text \<open>\<open>SELECT COALESCE(MAX(version), 0) FROM schema_migrations\<close>\<close>

definition current_version :: "db_file \<Rightarrow> u32" where
  "current_version f = fold (\<lambda>r m. max (mg_version r) m) (migration_rows f) 0"

definition supported :: u32 where
  "supported = (if MIGRATIONS = [] then 0 else version (last MIGRATIONS))"

section \<open>Entry points\<close>

text \<open>
  Each migration runs in a transaction of its own: \<open>ios v\<close> says how its BEGIN, each of its
  statements (the last one is the INSERT of its row) and its COMMIT fare, \<open>clock v\<close> is the time
  it is applied at, and \<open>ios 0\<close> is the environment of the CREATE TABLE at the start. An error
  drops the transaction, which rolls it back, and so does a process that dies in it; a COMMIT
  that fails may still have persisted.
\<close>

record migration_io =
  mi_begin :: "str option"
  mi_statement :: "nat \<Rightarrow> str option"
  mi_commit :: "(str \<times> bool) option"

definition undisturbed :: migration_io where
  "undisturbed = \<lparr>mi_begin = None, mi_statement = (\<lambda>_. None), mi_commit = None\<rparr>"

definition image_of :: "db_file \<Rightarrow> image" where
  "image_of f = \<lparr>im_catalog = df_catalog f, im_db = df_store f, im_copy = []\<rparr>"

definition execute_batch :: "(nat \<Rightarrow> str option) \<Rightarrow> Migration \<Rightarrow> db_file \<Rightarrow> StorageError + db_file" where
  "execute_batch fault m f =
     and_then (run_script fault 0 (script m) (image_of f))
       (\<lambda>im. Inr (f\<lparr>df_catalog := im_catalog im, df_store := im_db im\<rparr>))"

definition record_migration :: "(nat \<Rightarrow> str option) \<Rightarrow> i64 \<Rightarrow> Migration \<Rightarrow> db_file \<Rightarrow> StorageError + db_file" where
  "record_migration fault now m f =
     (case fault (length (script m)) of
        Some msg \<Rightarrow> Inl (Sqlite (SqliteText msg))
      | None \<Rightarrow> Inr (f\<lparr>df_migrations := Some (migration_rows f
          @ [\<lparr>mg_version = version m, mg_applied_at_ms = now, mg_checksum = checksum (sql m)\<rparr>])\<rparr>))"

definition apply_migration ::
    "migration_io \<Rightarrow> i64 \<Rightarrow> Migration \<Rightarrow> db_file \<Rightarrow> (StorageError + unit) \<times> db_file" where
  "apply_migration io now m f =
     (case mi_begin io of
        Some msg \<Rightarrow> (Inl (Sqlite (SqliteText msg)), f)
      | None \<Rightarrow>
        (case and_then (execute_batch (mi_statement io) m f) (record_migration (mi_statement io) now m) of
           Inl e \<Rightarrow> (Inl e, f)
         | Inr g \<Rightarrow>
           (case mi_commit io of
              None \<Rightarrow> (Inr (), g)
            | Some (msg, durable) \<Rightarrow> (Inl (Sqlite (SqliteText msg)), if durable then g else f))))"

fun migrate_all ::
    "(u32 \<Rightarrow> migration_io) \<Rightarrow> (u32 \<Rightarrow> i64) \<Rightarrow> Migration list \<Rightarrow> db_file \<Rightarrow> (StorageError + unit) \<times> db_file" where
  "migrate_all ios clock [] f = (Inr (), f)"
| "migrate_all ios clock (m # ms) f =
     (case find (\<lambda>r. mg_version r = version m) (migration_rows f) of
        Some r \<Rightarrow>
          if mg_checksum r \<noteq> checksum (sql m) then (Inl (MigrationChecksumMismatch (version m)), f)
          else migrate_all ios clock ms f
      | None \<Rightarrow>
          (case apply_migration (ios (version m)) (clock (version m)) m f of
             (Inl e, g) \<Rightarrow> (Inl e, g)
           | (Inr _, g) \<Rightarrow> migrate_all ios clock ms g))"

definition migrate ::
    "(u32 \<Rightarrow> migration_io) \<Rightarrow> (u32 \<Rightarrow> i64) \<Rightarrow> db_file \<Rightarrow> (StorageError + unit) \<times> db_file" where
  "migrate ios clock f =
     (case mi_begin (ios 0) of
        Some msg \<Rightarrow> (Inl (Sqlite (SqliteText msg)), f)
      | None \<Rightarrow>
          let f = f\<lparr>df_migrations := Some (migration_rows f)\<rparr>; current = current_version f in
          if current > supported then (Inl (SchemaTooNew current supported), f)
          else migrate_all ios clock MIGRATIONS f)"

definition require_current :: "db_file \<Rightarrow> StorageError + unit" where
  "require_current f =
     (let current = (case df_migrations f of None \<Rightarrow> 0 | Some _ \<Rightarrow> current_version f) in
      if current > supported then Inl (SchemaTooNew current supported)
      else if current < supported
      then Inl (Sqlite (SqliteText (''schema version '' @ show_nat (unat current)
             @ '' is older than supported '' @ show_nat (unat supported)
             @ ''; open the store with a writer to migrate'')))
      else Inr ())"

record MigrationStatus =
  ms_version :: u32
  ms_applied_at_ms :: i64
  ms_checksum_ok :: bool

definition status :: "db_file \<Rightarrow> StorageError + MigrationStatus list" where
  "status f =
     (case df_migrations f of
        None \<Rightarrow> Inl (Sqlite (SqliteText ''no such table: schema_migrations''))
      | Some rows \<Rightarrow> Inr (List.map_filter (\<lambda>m.
          map_option (\<lambda>r. \<lparr>ms_version = version m, ms_applied_at_ms = mg_applied_at_ms r,
              ms_checksum_ok = (mg_checksum r = checksum (sql m))\<rparr>)
            (find (\<lambda>r. mg_version r = version m) rows)) MIGRATIONS))"

section \<open>The checksum\<close>

lemma fnv_prime_inverse: "fnv_prime * 235294668448601749631651150104872562675 = 1"
  by (simp add: fnv_prime_def)

lemma fnv_mult_inject: "x * fnv_prime = y * fnv_prime \<longleftrightarrow> x = y"
proof
  assume "x * fnv_prime = y * fnv_prime"
  then have "x * (fnv_prime * 235294668448601749631651150104872562675)
      = y * (fnv_prime * 235294668448601749631651150104872562675)"
    by (simp only: mult.assoc [symmetric])
  then show "x = y" by (simp only: fnv_prime_inverse mult_1_right)
qed simp

lemma xor_inject: "x XOR z = y XOR z \<longleftrightarrow> x = y" for x y z :: "'a::len word"
proof
  assume "x XOR z = y XOR z"
  then have "(x XOR z) XOR z = (y XOR z) XOR z" by simp
  then show "x = y" by (simp add: xor.assoc)
qed simp

lemma fnv_step_state: "fnv_step x b = fnv_step y b \<longleftrightarrow> x = y"
  by (simp add: fnv_step_def fnv_mult_inject xor_inject)

lemma fnv_step_byte: "fnv_step x b = fnv_step x c \<longleftrightarrow> b = c"
proof -
  have "b = c" if "(ucast b :: 128 word) = ucast c"
    using arg_cong [where f = "ucast :: 128 word \<Rightarrow> u8", OF that]
    by (simp add: ucast_up_ucast_id is_up source_size target_size)
  moreover have "x XOR ucast b = x XOR ucast c \<longleftrightarrow> (ucast b :: 128 word) = ucast c"
    using xor_inject [of "ucast b" x "ucast c"] by (simp add: xor.commute)
  ultimately show ?thesis by (auto simp: fnv_step_def fnv_mult_inject)
qed

lemma fnv_fold_state: "foldl fnv_step x bs = foldl fnv_step y bs \<longleftrightarrow> x = y"
  by (induction bs arbitrary: x y) (simp_all add: fnv_step_state)

text \<open>The checksum detects every change of a single character of a script.\<close>

theorem checksum_one_character:
  "checksum (before @ a # rest) = checksum (before @ b # rest) \<longleftrightarrow> a = b"
proof -
  have inj: "to_be_bytes (x :: 128 word) = to_be_bytes y \<longleftrightarrow> x = y" for x y
    using as_bytes_inject [of "MkId x" "MkId y"] by (simp add: as_bytes_def)
  show ?thesis
    by (simp add: checksum_def str_bytes_def fnv_fold_state fnv_step_byte of_char_u8_inject inj)
qed

lemma checksum_nonempty: "checksum s \<noteq> []"
proof -
  have "length (checksum s) = 16" by (simp add: checksum_def to_be_bytes_def)
  then show ?thesis by auto
qed

end
