(* ===== verification/MigrationProperties.thy ===== *)
theory MigrationProperties
  imports Migrations
begin

text \<open>
  What migrating a file guarantees: at whatever statement it is stopped the file stays at the
  boundary of two versions with all its rows, a later run completes it, and a file of another
  build is refused and left alone.
\<close>

section \<open>What migrate does to a file\<close>

definition applied :: "Migration \<Rightarrow> db_file \<Rightarrow> bool" where
  "applied m f \<longleftrightarrow>
     (\<exists>r. find (\<lambda>r. mg_version r = version m) (migration_rows f) = Some r \<and>
       mg_checksum r = checksum (sql m))"

lemma migration_rows_simps [simp]:
  "migration_rows (f\<lparr>df_migrations := Some rows\<rparr>) = rows"
  "migration_rows (f\<lparr>df_catalog := c\<rparr>) = migration_rows f"
  "migration_rows (f\<lparr>df_store := d\<rparr>) = migration_rows f"
  by (simp_all add: migration_rows_def)

text \<open>A migration leaves the file as it was, or has run its whole script undisturbed and recorded it.\<close>

lemma execute_batch_InrD:
  assumes "execute_batch fault m f = Inr h"
  shows "execute_batch (\<lambda>_. None) m f = Inr h" and "migration_rows h = migration_rows f"
    and "\<forall>j < length (script m). fault j = None"
proof -
  obtain im where im: "run_script fault 0 (script m) (image_of f) = Inr im"
    "h = f\<lparr>df_catalog := im_catalog im, df_store := im_db im\<rparr>"
    using assms by (auto simp: execute_batch_def and_then_Inr_iff)
  then show "execute_batch (\<lambda>_. None) m f = Inr h" "\<forall>j < length (script m). fault j = None"
    using run_script_undisturbed [OF im(1)] by (simp_all add: execute_batch_def)
  show "migration_rows h = migration_rows f" by (simp add: im(2))
qed

lemma apply_migration_cases:
  assumes "apply_migration io now m f = (res, g)"
  obtains (kept) e where "res = Inl e" "g = f"
  | (written) h where "execute_batch (\<lambda>_. None) m f = Inr h"
    "g = h\<lparr>df_migrations := Some (migration_rows f
       @ [\<lparr>mg_version = version m, mg_applied_at_ms = now, mg_checksum = checksum (sql m)\<rparr>])\<rparr>"
    "\<forall>j \<le> length (script m). mi_statement io j = None"
proof (cases "and_then (execute_batch (mi_statement io) m f) (record_migration (mi_statement io) now m)")
  case (Inl e)
  then have "\<exists>e. res = Inl e" "g = f"
    using assms by (auto simp: apply_migration_def split: option.splits)
  then show ?thesis using kept by blast
next
  case (Inr k)
  then obtain h where h: "execute_batch (mi_statement io) m f = Inr h" "record_migration (mi_statement io) now m h = Inr k"
    by (auto simp: and_then_Inr_iff)
  note B = execute_batch_InrD [OF h(1)]
  have faults: "\<forall>j \<le> length (script m). mi_statement io j = None"
    using B(3) h(2) by (auto simp: record_migration_def le_less split: option.splits)
  have k: "k = h\<lparr>df_migrations := Some (migration_rows f
      @ [\<lparr>mg_version = version m, mg_applied_at_ms = now, mg_checksum = checksum (sql m)\<rparr>])\<rparr>"
    using h(2) B(2) by (auto simp: record_migration_def split: option.splits)
  have "g = k \<or> g = f \<and> (\<exists>e. res = Inl e)"
    using assms Inr by (auto simp: apply_migration_def split: option.splits)
  then show ?thesis using kept written [OF B(1) _ faults] k by blast
qed

lemma apply_migration_applied:
  assumes "apply_migration io now m f = (Inr u, g)"
    and "find (\<lambda>r. mg_version r = version m) (migration_rows f) = None"
  shows "applied m g"
  using assms(1) by (cases rule: apply_migration_cases) (use assms(2) in \<open>auto simp: applied_def find_append\<close>)

lemma apply_migration_keeps:
  assumes "apply_migration io now m f = (res, g)" and "applied n f"
  shows "applied n g"
  using assms(1) by (cases rule: apply_migration_cases) (use assms(2) in \<open>auto simp: applied_def find_append\<close>)

lemma migrate_all_keeps:
  "migrate_all ios clock ms f = (res, g) \<Longrightarrow> applied n f \<Longrightarrow> applied n g"
proof (induction ms arbitrary: f)
  case (Cons m ms)
  then show ?case
    by (auto split: option.splits sum.splits prod.splits if_splits dest: apply_migration_keeps)
qed simp

lemma migrate_all_applied:
  "migrate_all ios clock ms f = (Inr (), g) \<Longrightarrow> m \<in> set ms \<Longrightarrow> applied m g"
proof (induction ms arbitrary: f)
  case (Cons n ms)
  show ?case
  proof (cases "find (\<lambda>r. mg_version r = version n) (migration_rows f)")
    case None
    then obtain h where "apply_migration (ios (version n)) (clock (version n)) n f = (Inr (), h)"
      "migrate_all ios clock ms h = (Inr (), g)"
      using Cons.prems(1) by (auto split: sum.splits prod.splits)
    moreover from this have "applied n g"
      using migrate_all_keeps apply_migration_applied None by blast
    ultimately show ?thesis using Cons by auto
  next
    case (Some r)
    then have "applied n f" "migrate_all ios clock ms f = (Inr (), g)"
      using Cons.prems(1) by (auto simp: applied_def split: if_splits)
    moreover from this have "applied n g" using migrate_all_keeps by blast
    ultimately show ?thesis using Cons by auto
  qed
qed simp

lemma migrate_all_noop: "\<forall>m \<in> set ms. applied m f \<Longrightarrow> migrate_all ios clock ms f = (Inr (), f)"
  by (induction ms) (auto simp: applied_def)

section \<open>Well-formed files\<close>

definition history :: "db_file \<Rightarrow> (u32 \<times> bytes) list" where
  "history f = map (\<lambda>r. (mg_version r, mg_checksum r)) (migration_rows f)"

definition this_build :: "(u32 \<times> bytes) list" where
  "this_build = map (\<lambda>m. (version m, checksum (sql m))) MIGRATIONS"

text \<open>The catalog after the first \<open>n\<close> migrations, and how many of them the catalog of a file has.\<close>

definition catalog_of :: "nat \<Rightarrow> catalog" where
  "catalog_of n = fold catalog_after (concat (map script (take n MIGRATIONS))) no_tables"

definition df_schema :: "db_file \<Rightarrow> nat" where
  "df_schema f =
     (if df_catalog f = catalog_of 0 then 0 else if df_catalog f = catalog_of 1 then 1
      else if df_catalog f = catalog_of 2 then 2 else 3)"

text \<open>The recorded migrations are the first ones of this build and match the tables.\<close>

definition file_ok :: "db_file \<Rightarrow> bool" where
  "file_ok f \<longleftrightarrow>
     df_schema f \<le> length MIGRATIONS \<and> history f = take (df_schema f) this_build \<and>
     (df_schema f = 0 \<longrightarrow> df_store f = empty_db)"

lemma supported_eq [simp]: "supported = 2"
  by (simp add: supported_def MIGRATIONS_def)

lemma length_MIGRATIONS [simp]: "length MIGRATIONS = 2"
  by (simp add: MIGRATIONS_def)

lemma catalogs_differ: "catalog_of 1 \<noteq> catalog_of 0" "catalog_of 2 \<noteq> catalog_of 0" "catalog_of 2 \<noteq> catalog_of 1"
proof -
  let ?names = "\<lambda>n. map fst (ct_tables (catalog_of n))"
  have "?names 0 = []"
    by (simp add: catalog_of_def no_tables_def)
  moreover have "last (?names 1) = ''claim_receipts''" "?names 1 \<noteq> []"
    by (simp_all add: catalog_of_def MIGRATIONS_def SQL_V1_def no_tables_def)
  moreover have "last (?names 2) = ''jobs''" "?names 2 \<noteq> []"
    by (simp_all add: catalog_of_def MIGRATIONS_def SQL_V1_def SQL_V2_def no_tables_def)
  ultimately show "catalog_of 1 \<noteq> catalog_of 0" "catalog_of 2 \<noteq> catalog_of 0" "catalog_of 2 \<noteq> catalog_of 1"
    by auto
qed

lemma df_schema_iff: "n \<le> 2 \<Longrightarrow> df_schema f = n \<longleftrightarrow> df_catalog f = catalog_of n"
  using catalogs_differ by (auto simp: df_schema_def le_Suc_eq numeral_2_eq_2)

lemma df_schema_simps [simp]:
  "df_schema (f\<lparr>df_migrations := rows\<rparr>) = df_schema f"
  "df_schema (f\<lparr>df_store := d\<rparr>) = df_schema f"
  by (simp_all add: df_schema_def)

lemma new_file_schema [simp]: "df_schema new_file = 0"
  by (simp add: df_schema_iff new_file_def catalog_of_def)

text \<open>What the two scripts do when nothing disturbs them.\<close>

lemma clear_empty [simp]: "clear_table name empty_db = empty_db"
  by (simp add: clear_table_def empty_db_def)

lemmas script_simps = run_statement_def has_table_def has_index_def clear_rows_def put_job_rows_def job_rows_def

lemma run_v1:
  "run_script (\<lambda>_. None) 0 SQL_V1 \<lparr>im_catalog = catalog_of 0, im_db = empty_db, im_copy = []\<rparr>
     = Inr \<lparr>im_catalog = catalog_of 1, im_db = empty_db, im_copy = []\<rparr>"
  by (simp add: script_simps SQL_V1_def catalog_of_def MIGRATIONS_def no_tables_def)

lemma run_v2:
  "run_script (\<lambda>_. None) 0 SQL_V2 \<lparr>im_catalog = catalog_of 1, im_db = d, im_copy = []\<rparr>
     = (if list_all job_checks (db_jobs d)
        then Inr \<lparr>im_catalog = catalog_of 2, im_db = d, im_copy = []\<rparr>
        else Inl (constraint_failed (Check ''jobs_v2'')))"
  by (simp add: script_simps clear_table_def SQL_V1_def SQL_V2_def catalog_of_def MIGRATIONS_def no_tables_def)

lemma history_Cons_iff:
  "history f = (v, c) # h \<longleftrightarrow>
     (\<exists>r rows. migration_rows f = r # rows \<and> mg_version r = v \<and> mg_checksum r = c \<and>
       map (\<lambda>r. (mg_version r, mg_checksum r)) rows = h)"
  by (auto simp: history_def)

lemma schema_cases: "df_schema f \<le> 2 \<Longrightarrow> df_schema f = 0 \<or> df_schema f = 1 \<or> df_schema f = 2"
  by auto

lemma current_version_ok:
  assumes "file_ok f"
  shows "current_version f = of_nat (df_schema f)"
  using assms schema_cases [of f]
  by (auto simp: file_ok_def this_build_def MIGRATIONS_def current_version_def history_def
      Cons_eq_map_conv)

lemma find_version:
  assumes "file_ok f" and "k < 2"
  shows "df_schema f \<le> k \<Longrightarrow> find (\<lambda>r. mg_version r = version (MIGRATIONS ! k)) (migration_rows f) = None"
    and "k < df_schema f \<Longrightarrow> applied (MIGRATIONS ! k) f"
proof -
  have k: "k = 0 \<or> k = 1" using assms(2) by auto
  have rows: "map mg_version (migration_rows f) = map version (take (df_schema f) MIGRATIONS)"
  proof -
    have "map fst (history f) = map fst (take (df_schema f) this_build)"
      using assms(1) by (simp add: file_ok_def)
    then show ?thesis by (simp add: history_def this_build_def take_map comp_def)
  qed
  show "find (\<lambda>r. mg_version r = version (MIGRATIONS ! k)) (migration_rows f) = None"
    if "df_schema f \<le> k"
  proof -
    have "df_schema f = 0 \<or> df_schema f = 1 \<and> k = 1" using that k by auto
    then show ?thesis
      unfolding find_key_None using rows arg_cong [OF rows, of set]
      by (auto simp: MIGRATIONS_def)
  qed
  show "applied (MIGRATIONS ! k) f" if "k < df_schema f"
    using that k assms(1) schema_cases [of f]
    by (auto simp: file_ok_def history_def this_build_def MIGRATIONS_def applied_def Cons_eq_map_conv)
qed

text \<open>The script of the next migration, on a well-formed file.\<close>

lemma next_batch:
  assumes "file_ok f" and "df_schema f < 2"
  shows "execute_batch (\<lambda>_. None) (MIGRATIONS ! df_schema f) f =
    (if df_schema f = 1 \<and> \<not> list_all job_checks (db_jobs (df_store f))
     then Inl (constraint_failed (Check ''jobs_v2''))
     else Inr (f\<lparr>df_catalog := catalog_of (df_schema f + 1)\<rparr>))"
proof -
  have "df_schema f = 0 \<or> df_schema f = 1" using assms(2) by auto
  then show ?thesis
  proof
    assume k: "df_schema f = 0"
    then have "df_store f = empty_db" "df_catalog f = catalog_of 0"
      using assms(1) df_schema_iff [of 0 f] by (simp_all add: file_ok_def)
    then show ?thesis
      using k run_v1 by (simp add: execute_batch_def image_of_def MIGRATIONS_def)
  next
    assume k: "df_schema f = 1"
    then have "df_catalog f = catalog_of 1" using df_schema_iff [of 1 f] by simp
    then show ?thesis
      using k run_v2 [of "df_store f"] by (simp add: execute_batch_def image_of_def MIGRATIONS_def numeral_2_eq_2)
  qed
qed

lemma apply_next:
  assumes ok: "file_ok f" and k: "df_schema f < 2"
    and app: "apply_migration io now (MIGRATIONS ! df_schema f) f = (res, g)"
  shows "file_ok g \<and> df_store g = df_store f \<and>
    (df_schema g = df_schema f + 1 \<and> (\<forall>j \<le> length (script (MIGRATIONS ! df_schema f)). mi_statement io j = None) \<or>
     g = f \<and> (\<exists>e. res = Inl e))"
  using app
proof (cases rule: apply_migration_cases)
  case (kept e)
  then show ?thesis using ok by simp
next
  case (written h)
  have h: "h = f\<lparr>df_catalog := catalog_of (df_schema f + 1)\<rparr>"
    using written(1) unfolding next_batch [OF ok k] by (simp split: if_splits)
  have schema: "df_schema g = df_schema f + 1"
    using k by (subst df_schema_iff) (simp_all add: written(2) h)
  moreover have "history g = history f @ [this_build ! df_schema f]"
    using k by (simp add: written(2) history_def this_build_def)
  moreover have "take (df_schema f) this_build @ [this_build ! df_schema f] = take (df_schema f + 1) this_build"
    using k by (simp add: take_Suc_conv_app_nth this_build_def)
  moreover have "df_store g = df_store f" by (simp add: written(2) h)
  ultimately show ?thesis using ok k written(3) by (simp add: file_ok_def)
qed

lemma migrate_all_skip:
  "\<forall>m \<in> set pre. applied m f \<Longrightarrow> migrate_all ios clock (pre @ post) f = migrate_all ios clock post f"
  by (induction pre) (auto simp: applied_def)

lemma migrate_all_drop:
  assumes "file_ok f"
  shows "migrate_all ios clock MIGRATIONS f = migrate_all ios clock (drop (df_schema f) MIGRATIONS) f"
proof -
  have "applied m f" if "m \<in> set (take (df_schema f) MIGRATIONS)" for m
    using that find_version(2) [OF assms] by (auto simp: in_set_conv_nth)
  then show ?thesis
    using migrate_all_skip [of "take (df_schema f) MIGRATIONS" f ios clock "drop (df_schema f) MIGRATIONS"]
    by simp
qed

lemma migrate_all_from:
  assumes "file_ok f" and "migrate_all ios clock (drop (df_schema f) MIGRATIONS) f = (res, g)"
  shows "file_ok g \<and> df_store g = df_store f \<and> df_schema f \<le> df_schema g \<and> (res = Inr () \<longrightarrow> df_schema g = 2)"
  using assms
proof (induction "2 - df_schema f" arbitrary: f)
  case 0
  then show ?case by (auto simp: file_ok_def)
next
  case (Suc n)
  let ?m = "MIGRATIONS ! df_schema f"
  have k: "df_schema f < 2" using Suc.hyps(2) by simp
  have list: "drop (df_schema f) MIGRATIONS = ?m # drop (df_schema f + 1) MIGRATIONS"
    using k Cons_nth_drop_Suc [of "df_schema f" MIGRATIONS] by simp
  obtain r h where app: "apply_migration (ios (version ?m)) (clock (version ?m)) ?m f = (r, h)" by fastforce
  note step = apply_next [OF Suc.prems(1) k app]
  show ?case
  proof (cases r)
    case (Inl e)
    then have "g = h" "res = Inl e"
      using Suc.prems(2) find_version(1) [OF Suc.prems(1) k] unfolding list by (simp_all add: app)
    then show ?thesis using step by auto
  next
    case (Inr u)
    then have rest: "migrate_all ios clock (drop (df_schema f + 1) MIGRATIONS) h = (res, g)"
      using Suc.prems(2) find_version(1) [OF Suc.prems(1) k] unfolding list by (simp add: app)
    have h: "file_ok h" "df_schema h = df_schema f + 1" "df_store h = df_store f"
      using step Inr by auto
    have "n = 2 - df_schema h" using Suc.hyps(2) h(2) by simp
    from Suc.hyps(1) [OF this h(1) rest [folded h(2)]] show ?thesis
      using h(2,3) by simp
  qed
qed

lemma file_ok_create [simp]:
  "file_ok (f\<lparr>df_migrations := Some (migration_rows f)\<rparr>) = file_ok f"
  by (simp add: file_ok_def history_def)

lemma migrate_all_created:
  "migrate_all ios clock ms f = (res, g) \<Longrightarrow> df_migrations f \<noteq> None \<Longrightarrow> df_migrations g \<noteq> None"
proof (induction ms arbitrary: f)
  case (Cons m ms)
  have "df_migrations h \<noteq> None" if "apply_migration io now m f = (r, h)" for io now r h
    using that by (cases rule: apply_migration_cases) (use Cons.prems(2) in auto)
  then show ?case
    using Cons by (auto split: option.splits sum.splits prod.splits if_splits)
qed simp

lemma migrate_file:
  assumes "file_ok f" and "migrate ios clock f = (res, g)"
  shows "file_ok g \<and> df_store g = df_store f \<and> df_schema f \<le> df_schema g \<and>
    (res = Inr () \<longrightarrow> df_schema g = 2 \<and> df_migrations g \<noteq> None)"
proof (cases "mi_begin (ios 0)")
  case (Some msg)
  then show ?thesis using assms by (auto simp: migrate_def)
next
  case None
  let ?f = "f\<lparr>df_migrations := Some (migration_rows f)\<rparr>"
  have ok: "file_ok ?f" using assms(1) by simp
  have "\<not> supported < current_version ?f"
    using current_version_ok [OF ok] ok schema_cases [of f] by (auto simp: file_ok_def)
  then have all: "migrate_all ios clock MIGRATIONS ?f = (res, g)"
    using assms(2) None by (simp add: migrate_def Let_def)
  then show ?thesis
    using migrate_all_from [OF ok all [unfolded migrate_all_drop [OF ok]]] migrate_all_created [OF all]
    by simp
qed

section \<open>Completion\<close>

lemma require_current_iff:
  "file_ok f \<Longrightarrow> require_current f = Inr () \<longleftrightarrow> df_schema f = 2"
proof -
  assume ok: "file_ok f"
  have "current_version f = (case df_migrations f of None \<Rightarrow> 0 | Some _ \<Rightarrow> current_version f)"
    by (auto simp: current_version_def migration_rows_def split: option.split)
  then show ?thesis
    using current_version_ok [OF ok] ok schema_cases [of f]
    by (auto simp: require_current_def file_ok_def Let_def)
qed

lemma status_current:
  assumes "file_ok f" and "df_schema f = 2" and "df_migrations f \<noteq> None"
  shows "\<exists>ss. status f = Inr ss \<and> map ms_version ss = [1, 2] \<and> (\<forall>s \<in> set ss. ms_checksum_ok s)"
proof -
  obtain r1 r2 where "find (\<lambda>r. mg_version r = 1) (migration_rows f) = Some r1"
    "mg_checksum r1 = checksum (sql \<lparr>version = 1, script = SQL_V1\<rparr>)"
    "find (\<lambda>r. mg_version r = 2) (migration_rows f) = Some r2" "mg_checksum r2 = checksum (sql \<lparr>version = 2, script = SQL_V2\<rparr>)"
    using find_version(2) [OF assms(1), of 0] find_version(2) [OF assms(1), of 1] assms(2)
    by (auto simp: applied_def MIGRATIONS_def)
  moreover obtain rows where "df_migrations f = Some rows" "migration_rows f = rows"
    using assms(3) by (auto simp: migration_rows_def)
  ultimately show ?thesis
    by (auto simp: status_def MIGRATIONS_def map_filter_simps)
qed

lemma apply_next_completes:
  assumes "file_ok f" and "df_schema f < 2" and "list_all job_checks (db_jobs (df_store f))"
    and "io = undisturbed"
  shows "\<exists>g. apply_migration io now (MIGRATIONS ! df_schema f) f = (Inr (), g)"
  using assms(3) by (simp add: assms(4) undisturbed_def apply_migration_def next_batch [OF assms(1,2)] record_migration_def)

lemma migrate_all_completes:
  assumes "file_ok f" and "list_all job_checks (db_jobs (df_store f))"
    and "\<forall>v. ios v = undisturbed"
  shows "fst (migrate_all ios clock (drop (df_schema f) MIGRATIONS) f) = Inr ()"
  using assms
proof (induction "2 - df_schema f" arbitrary: f)
  case 0
  then show ?case by simp
next
  case (Suc n)
  let ?m = "MIGRATIONS ! df_schema f"
  have k: "df_schema f < 2" using Suc.hyps(2) by simp
  obtain h where app: "apply_migration (ios (version ?m)) (clock (version ?m)) ?m f = (Inr (), h)"
    using apply_next_completes [OF Suc.prems(1) k Suc.prems(2)] Suc.prems(3) by blast
  then have h: "file_ok h" "df_schema h = df_schema f + 1" "df_store h = df_store f"
    using apply_next [OF Suc.prems(1) k app] by auto
  have list: "drop (df_schema f) MIGRATIONS = ?m # drop (df_schema f + 1) MIGRATIONS"
    using k Cons_nth_drop_Suc [of "df_schema f" MIGRATIONS] by simp
  show ?case
    using Suc.hyps(1) [of h] Suc.hyps(2) Suc.prems(2,3) h app find_version(1) [OF Suc.prems(1) k]
    unfolding list by simp
qed

text \<open>Completion, with what it leaves behind.\<close>

lemma migrate_completed:
  assumes "file_ok f" and "list_all job_checks (db_jobs (df_store f))" and "\<forall>v. ios v = undisturbed"
  shows "\<exists>g. migrate ios clock f = (Inr (), g) \<and> file_ok g \<and> df_schema g = 2 \<and> df_store g = df_store f \<and>
    df_migrations g \<noteq> None"
proof -
  let ?f = "f\<lparr>df_migrations := Some (migration_rows f)\<rparr>"
  have ok: "file_ok ?f" using assms(1) by simp
  have "\<not> supported < current_version ?f"
    using current_version_ok [OF ok] ok schema_cases [of f] by (auto simp: file_ok_def)
  then have "fst (migrate ios clock f) = Inr ()"
    using assms(2,3) migrate_all_completes [OF ok] migrate_all_drop [OF ok]
    by (simp add: migrate_def Let_def undisturbed_def)
  then obtain g where "migrate ios clock f = (Inr (), g)" by (cases "migrate ios clock f") simp
  with migrate_file [OF assms(1) this] show ?thesis by auto
qed

lemma new_file_ok: "file_ok new_file"
  by (simp add: file_ok_def history_def) (simp add: new_file_def migration_rows_def)

lemma new_file_migrates:
  "\<exists>g. migrate (\<lambda>_. undisturbed) (\<lambda>_. 5) new_file = (Inr (), g) \<and> file_ok g \<and> df_schema g = 2 \<and>
     df_migrations g \<noteq> None \<and> df_store g = empty_db"
  using migrate_completed [OF new_file_ok, of "\<lambda>_. undisturbed" "\<lambda>_. 5"]
  by (auto simp: new_file_def empty_db_def)

lemma migrate_status:
  assumes "file_ok g" and "df_schema g = 2" and "df_migrations g \<noteq> None"
  shows "require_current g = Inr () \<and>
    (\<exists>ss. status g = Inr ss \<and> map ms_version ss = [1, 2] \<and> (\<forall>s \<in> set ss. ms_checksum_ok s))"
  using require_current_iff [OF assms(1)] status_current [OF assms] assms(2) by simp

text \<open>A fault at any statement of the next migration stops there.\<close>

lemma migrate_stopped:
  assumes "file_ok f" and "df_schema f < 2" and "migrate ios clock f = (res, g)"
    and fault: "k \<le> length (script (MIGRATIONS ! df_schema f))"
      "mi_statement (ios (version (MIGRATIONS ! df_schema f))) k \<noteq> None"
  shows "(\<exists>e. res = Inl e) \<and> (g = f \<or> g = f\<lparr>df_migrations := Some (migration_rows f)\<rparr>)"
proof (cases "mi_begin (ios 0)")
  case (Some msg)
  then show ?thesis using assms(3) by (auto simp: migrate_def)
next
  case None
  let ?f = "f\<lparr>df_migrations := Some (migration_rows f)\<rparr>" and ?m = "MIGRATIONS ! df_schema f"
  have ok: "file_ok ?f" using assms(1) by simp
  have "\<not> supported < current_version ?f"
    using current_version_ok [OF ok] ok schema_cases [of f] by (auto simp: file_ok_def)
  then have all: "migrate_all ios clock (drop (df_schema f) MIGRATIONS) ?f = (res, g)"
    using assms(3) None migrate_all_drop [OF ok] by (simp add: migrate_def Let_def)
  have list: "drop (df_schema f) MIGRATIONS = ?m # drop (df_schema f + 1) MIGRATIONS"
    using assms(2) Cons_nth_drop_Suc [of "df_schema f" MIGRATIONS] by simp
  obtain r h where app: "apply_migration (ios (version ?m)) (clock (version ?m)) ?m ?f = (r, h)" by fastforce
  then have "apply_migration (ios (version ?m)) (clock (version ?m)) (MIGRATIONS ! df_schema ?f) ?f = (r, h)"
    by simp
  from apply_next [OF ok _ this] have "h = ?f \<and> (\<exists>e. r = Inl e)"
    using assms(2) fault by auto
  then show ?thesis
    using all find_version(1) [OF ok assms(2)] app unfolding list by auto
qed

section \<open>Guarantees\<close>

text \<open>
  C28: migrating is safe at any point of failure. Whatever BEGIN, any statement of a script, the
  INSERT of its row or COMMIT does, the file stays one whose recorded migrations are a prefix of
  this build and match the catalog of its tables, every stored row is kept and no migration is
  undone; a fault at any statement of the next migration is reported, with the file at the version
  it had; and from whatever file is left, a later undisturbed run ends at the newest version with
  the same rows, provided the jobs satisfy the CHECK clauses of version 2.
\<close>

theorem migrate_crash_safe:
  assumes "file_ok f" and "migrate ios clock f = (res, g)"
  shows "file_ok g \<and> df_store g = df_store f \<and> df_schema f \<le> df_schema g \<and>
    (res = Inr () \<longrightarrow> df_schema g = 2) \<and>
    (df_schema f < 2 \<and>
      (\<exists>k \<le> length (script (MIGRATIONS ! df_schema f)).
         mi_statement (ios (version (MIGRATIONS ! df_schema f))) k \<noteq> None) \<longrightarrow>
      (\<exists>e. res = Inl e) \<and> df_catalog g = df_catalog f \<and> migration_rows g = migration_rows f) \<and>
    (list_all job_checks (db_jobs (df_store f)) \<longrightarrow>
      (\<exists>h. migrate (\<lambda>_. undisturbed) clock2 g = (Inr (), h) \<and> file_ok h \<and> df_schema h = 2 \<and>
         df_store h = df_store f))"
proof (intro conjI impI)
  note M = migrate_file [OF assms]
  show "file_ok g" "df_store g = df_store f" "df_schema f \<le> df_schema g" using M by simp_all
  show "df_schema g = 2" if "res = Inr ()" using M that by simp
  show "\<exists>h. migrate (\<lambda>_. undisturbed) clock2 g = (Inr (), h) \<and> file_ok h \<and> df_schema h = 2 \<and> df_store h = df_store f"
    if "list_all job_checks (db_jobs (df_store f))"
    using migrate_completed [of g "\<lambda>_. undisturbed" clock2] M that by auto
  assume fault: "df_schema f < 2 \<and> (\<exists>k \<le> length (script (MIGRATIONS ! df_schema f)).
         mi_statement (ios (version (MIGRATIONS ! df_schema f))) k \<noteq> None)"
  then have stop: "(\<exists>e. res = Inl e) \<and> (g = f \<or> g = f\<lparr>df_migrations := Some (migration_rows f)\<rparr>)"
    using migrate_stopped [OF assms(1) _ assms(2)] by blast
  show "\<exists>e. res = Inl e" using stop by simp
  show "df_catalog g = df_catalog f" "migration_rows g = migration_rows f" using stop by auto
qed

text \<open>A file of version 1 with one job.\<close>

definition v1_file :: db_file where
  "v1_file =
     \<lparr>df_migrations = Some [\<lparr>mg_version = 1, mg_applied_at_ms = 0, mg_checksum = checksum (sql (MIGRATIONS ! 0))\<rparr>],
      df_catalog = catalog_of 1,
      df_store = empty_db\<lparr>db_jobs := [new_job_row (id_from_u128 1) (reconcilable (id_from_u128 3) ''q'' ''p'' [9]) 1]\<rparr>\<rparr>"

lemma v1_file: "df_schema v1_file = 1" "file_ok v1_file" "list_all job_checks (db_jobs (df_store v1_file))"
proof -
  show schema: "df_schema v1_file = 1" by (simp add: df_schema_iff v1_file_def)
  show "file_ok v1_file"
    by (simp add: file_ok_def schema history_def this_build_def) (simp add: v1_file_def migration_rows_def MIGRATIONS_def)
  show "list_all job_checks (db_jobs (df_store v1_file))"
    by (simp add: v1_file_def job_checks_def new_job_row_def reconcilable_def job_base_def)
qed

theorem migrate_crash_safe_witness:
  "\<exists>e g h. migrate (\<lambda>_. undisturbed\<lparr>mi_statement := (\<lambda>k. if k = 3 then Some ''disk full'' else None)\<rparr>)
       (\<lambda>_. 5) v1_file = (Inl e, g) \<and> df_catalog g = catalog_of 1 \<and> length (db_jobs (df_store g)) = 1 \<and>
     migrate (\<lambda>_. undisturbed) (\<lambda>_. 7) g = (Inr (), h) \<and> df_store h = df_store v1_file"
proof -
  let ?ios = "\<lambda>_ :: u32. undisturbed\<lparr>mi_statement := (\<lambda>k. if k = 3 then Some ''disk full'' else None)\<rparr>"
  obtain res g where m: "migrate ?ios (\<lambda>_. 5) v1_file = (res, g)" by fastforce
  note C = migrate_crash_safe [OF v1_file(2) m, of "\<lambda>_. 7"]
  have "3 \<le> length (script (MIGRATIONS ! 1))" by (simp add: MIGRATIONS_def SQL_V2_def)
  then have stop: "(\<exists>e. res = Inl e) \<and> df_catalog g = df_catalog v1_file"
    using C v1_file(1) by (auto simp del: One_nat_def)
  moreover obtain h where "migrate (\<lambda>_. undisturbed) (\<lambda>_. 7) g = (Inr (), h)" "df_store h = df_store v1_file"
    using C v1_file(3) by blast
  moreover have "df_catalog v1_file = catalog_of 1" "length (db_jobs (df_store v1_file)) = 1"
    by (simp_all add: v1_file_def)
  ultimately show ?thesis using m C by auto
qed

text \<open>
  C29: with an engine that disturbs nothing, and jobs that satisfy the CHECK clauses of version 2,
  migrating any well-formed file, a new one or one an earlier attempt left half way, succeeds and
  ends at the newest version: the catalog is the one of all scripts, all migrations of this build are recorded
  with their checksums, the rows are the same, and the file passes the check an inspection makes.
\<close>

theorem migrate_completes:
  assumes "file_ok f" and "list_all job_checks (db_jobs (df_store f))" and "\<forall>v. ios v = undisturbed"
  shows "\<exists>g. migrate ios clock f = (Inr (), g) \<and> df_catalog g = catalog_of (length MIGRATIONS) \<and>
    history g = map (\<lambda>m. (version m, checksum (sql m))) MIGRATIONS \<and> current_version g = supported \<and>
    df_store g = df_store f \<and> require_current g = Inr () \<and>
    (\<exists>ss. status g = Inr ss \<and> map ms_version ss = [1, 2] \<and> (\<forall>s \<in> set ss. ms_checksum_ok s))"
proof -
  obtain g where g: "migrate ios clock f = (Inr (), g)" "file_ok g" "df_schema g = 2" "df_store g = df_store f"
    "df_migrations g \<noteq> None"
    using migrate_completed [OF assms] by blast
  moreover have "df_catalog g = catalog_of (length MIGRATIONS)" using df_schema_iff [of 2 g] g(3) by simp
  moreover have "history g = map (\<lambda>m. (version m, checksum (sql m))) MIGRATIONS"
    using g(2,3) by (simp add: file_ok_def this_build_def)
  moreover have "current_version g = supported" using current_version_ok [OF g(2)] g(3) by simp
  ultimately show ?thesis
    using migrate_status [OF g(2,3,5)] by (intro exI [of _ g] conjI) simp_all
qed

theorem migrate_completes_witness:
  "\<exists>g. migrate (\<lambda>_. undisturbed) (\<lambda>_. 5) v1_file = (Inr (), g) \<and> current_version g = supported"
  using migrate_completes [OF v1_file(2,3), of "\<lambda>_. undisturbed" "\<lambda>_. 5"] by auto

lemma apply_migration_find:
  assumes "apply_migration io now m f = (res, g)" and "find P (migration_rows f) = Some r"
  shows "find P (migration_rows g) = Some r"
  using assms(1) by (cases rule: apply_migration_cases) (use assms(2) in \<open>auto simp: find_append\<close>)

lemma migrate_all_find:
  "migrate_all ios clock ms f = (res, g) \<Longrightarrow> find P (migration_rows f) = Some r \<Longrightarrow>
     find P (migration_rows g) = Some r"
proof (induction ms arbitrary: f)
  case (Cons m ms)
  then show ?case
    by (auto split: option.splits sum.splits prod.splits if_splits dest: apply_migration_find)
qed simp

lemma created_already: "migration_rows f \<noteq> [] \<Longrightarrow> f\<lparr>df_migrations := Some (migration_rows f)\<rparr> = f"
  by (cases f) (auto simp: migration_rows_def split: option.splits)

lemma drift_never_accepted:
  assumes "m \<in> set MIGRATIONS"
    and "find (\<lambda>r. mg_version r = version m) (migration_rows f) = Some r"
    and "mg_checksum r \<noteq> checksum (sql m)"
  shows "fst (migrate ios clock f) \<noteq> Inr ()"
proof
  assume "fst (migrate ios clock f) = Inr ()"
  then obtain g where g: "migrate_all ios clock MIGRATIONS (f\<lparr>df_migrations := Some (migration_rows f)\<rparr>) = (Inr (), g)"
    by (cases "migrate ios clock f") (auto simp: migrate_def Let_def split: option.splits if_splits)
  have "find (\<lambda>r. mg_version r = version m) (migration_rows g) = Some r"
    using migrate_all_find [OF g] assms(2) by simp
  then show False
    using migrate_all_applied [OF g assms(1)] assms(3) by (simp add: applied_def)
qed

text \<open>
  C30: a file another build has migrated is refused and left alone: one whose newest recorded
  version is above that of this build, by \<open>migrate\<close> and by the check of an inspection, and one that
  records a migration with another checksum, every earlier one being applied, with the version at
  fault. Drift of any migration, whatever else is in the file, is never accepted.
\<close>

theorem migrate_rejects_drift:
  assumes "mi_begin (ios 0) = None"
  shows "(current_version f > supported \<longrightarrow>
      migrate ios clock f = (Inl (SchemaTooNew (current_version f) supported), f) \<and>
      require_current f = Inl (SchemaTooNew (current_version f) supported)) \<and>
    (m \<in> set MIGRATIONS \<and> find (\<lambda>r. mg_version r = version m) (migration_rows f) = Some r \<and>
        mg_checksum r \<noteq> checksum (sql m) \<longrightarrow>
      fst (migrate ios clock f) \<noteq> Inr () \<and>
      (current_version f \<le> supported \<and> MIGRATIONS = pre @ m # post \<and> (\<forall>n \<in> set pre. applied n f) \<longrightarrow>
        migrate ios clock f = (Inl (MigrationChecksumMismatch (version m)), f)))"
proof (intro conjI impI; (elim conjE)?)
  assume new: "current_version f > supported"
  then have "migration_rows f \<noteq> []" by (auto simp: current_version_def)
  moreover from this have "df_migrations f \<noteq> None" by (auto simp: migration_rows_def split: option.splits)
  moreover have "current_version (f\<lparr>df_migrations := Some (migration_rows f)\<rparr>) = current_version f"
    by (simp add: current_version_def)
  ultimately show "migrate ios clock f = (Inl (SchemaTooNew (current_version f) supported), f)"
    "require_current f = Inl (SchemaTooNew (current_version f) supported)"
    using assms new created_already [of f] by (auto simp: migrate_def require_current_def Let_def)
next
  assume m: "m \<in> set MIGRATIONS" "find (\<lambda>r. mg_version r = version m) (migration_rows f) = Some r"
    "mg_checksum r \<noteq> checksum (sql m)"
  then show "fst (migrate ios clock f) \<noteq> Inr ()" by (rule drift_never_accepted)
  assume known: "current_version f \<le> supported" "MIGRATIONS = pre @ m # post" "\<forall>n \<in> set pre. applied n f"
  have "migration_rows f \<noteq> []" using m(2) by auto
  then have f: "f\<lparr>df_migrations := Some (migration_rows f)\<rparr> = f" by (rule created_already)
  have "migrate_all ios clock MIGRATIONS f = (Inl (MigrationChecksumMismatch (version m)), f)"
    unfolding known(2) migrate_all_skip [OF known(3)] using m(2,3) by simp
  then show "migrate ios clock f = (Inl (MigrationChecksumMismatch (version m)), f)"
    using assms known(1) by (simp add: migrate_def f Let_def)
qed

text \<open>A file of version 2 recorded by another build, and one of version 3.\<close>

definition drifted_file :: db_file where
  "drifted_file = v1_file\<lparr>df_migrations := Some (migration_rows v1_file
     @ [\<lparr>mg_version = 2, mg_applied_at_ms = 0, mg_checksum = []\<rparr>])\<rparr>"

theorem migrate_rejects_drift_witness:
  "migrate (\<lambda>_. undisturbed) (\<lambda>_. 5) drifted_file = (Inl (MigrationChecksumMismatch 2), drifted_file) \<and>
   migrate (\<lambda>_. undisturbed) (\<lambda>_. 5) (new_file\<lparr>df_migrations := Some
       [\<lparr>mg_version = 3, mg_applied_at_ms = 0, mg_checksum = []\<rparr>]\<rparr>)
     = (Inl (SchemaTooNew 3 2), new_file\<lparr>df_migrations := Some
       [\<lparr>mg_version = 3, mg_applied_at_ms = 0, mg_checksum = []\<rparr>]\<rparr>)"
proof
  let ?m = "\<lambda>k. MIGRATIONS ! k" and ?r = "\<lparr>mg_version = 2, mg_applied_at_ms = 0, mg_checksum = []\<rparr>"
  have steady: "mi_begin ((\<lambda>_. undisturbed) (0 :: u32)) = None" by (simp add: undisturbed_def)
  have rows: "migration_rows drifted_file
      = [\<lparr>mg_version = 1, mg_applied_at_ms = 0, mg_checksum = checksum (sql (?m 0))\<rparr>, ?r]"
    by (simp add: drifted_file_def v1_file_def migration_rows_def)
  have list: "MIGRATIONS = [?m 0] @ ?m 1 # []" "?m 1 \<in> set MIGRATIONS" "version (?m 0) = 1" "version (?m 1) = 2"
    by (simp_all add: MIGRATIONS_def)
  have "applied (?m 0) drifted_file" "find (\<lambda>r. mg_version r = version (?m 1)) (migration_rows drifted_file) = Some ?r"
    "current_version drifted_file \<le> supported"
    unfolding applied_def current_version_def rows list(3,4) by simp_all
  then show "migrate (\<lambda>_. undisturbed) (\<lambda>_. 5) drifted_file = (Inl (MigrationChecksumMismatch 2), drifted_file)"
    using migrate_rejects_drift [OF steady, of drifted_file "\<lambda>_. 5" "?m 1" ?r "[?m 0]" "[]"] list
      checksum_nonempty [of "sql (?m 1)", THEN not_sym] by simp
  let ?f = "new_file\<lparr>df_migrations := Some [\<lparr>mg_version = 3, mg_applied_at_ms = 0, mg_checksum = []\<rparr>]\<rparr>"
  have "current_version ?f = 3" by (simp add: current_version_def)
  then show "migrate (\<lambda>_. undisturbed) (\<lambda>_. 5) ?f = (Inl (SchemaTooNew 3 2), ?f)"
    using migrate_rejects_drift [OF steady, of ?f "\<lambda>_. 5"] by simp
qed

end
