(* ===== verification/Claims.thy ===== *)
theory Claims
  imports MigrationProperties
begin

text \<open>
  Claiming and leasing of \<open>src/store/jobs.rs\<close>: the claim algorithm (expired-lease maintenance,
  round-robin selection of partitions, lease grants, receipts, cursor), lease extension in a
  transaction of its own, and the recovery of a claim whose outcome is unknown.

  The entropy source is a parameter: \<open>Id::new\<close> takes the next draw of a sequence.
\<close>

section \<open>Planning\<close>

definition MAINTENANCE_LIMIT :: nat where
  "MAINTENANCE_LIMIT = 64"

record MaintenanceAction =
  ma_job :: JobRow
  ma_to :: JobState

record ProposedLease =
  pl_job :: JobRow
  pl_lease_token :: Id

fun error_to_claim :: "Error \<Rightarrow> ClaimError" where
  "error_to_claim (Error_Storage s) = Claim_Storage s"
| "error_to_claim (Error_Validation v) = Claim_Validation v"
| "error_to_claim (Error_Conflict c) = Claim_Conflict c"

definition maintenance_target :: "JobRow \<Rightarrow> JobState" where
  "maintenance_target job =
     (case jr_effect_mode job of
        RequiresReconciliation \<Rightarrow> Uncertain
      | ExplicitlyIdempotent \<Rightarrow> if jr_attempt job \<ge> jr_max_attempts job then Dead else Pending)"

text \<open>\<open>state = ?2 AND lease_expires_at_ms < ?3\<close>: a NULL expiry does not match.\<close>

definition lease_expired :: "ClaimRequest \<Rightarrow> JobRow \<Rightarrow> bool" where
  "lease_expired req r \<longleftrightarrow>
     jr_queue r = cr_queue req \<and> jr_state r = Leased \<and>
     (case jr_lease_expires_at_ms r of None \<Rightarrow> False | Some ms \<Rightarrow> ms < cr_now_ms req)"

definition expiry_key :: "JobRow \<Rightarrow> i64" where
  "expiry_key r = (case jr_lease_expires_at_ms r of None \<Rightarrow> i64_min | Some ms \<Rightarrow> ms)"

definition plan_maintenance :: "db \<Rightarrow> ClaimRequest \<Rightarrow> StorageError + MaintenanceAction list" where
  "plan_maintenance d req =
     collect (map (\<lambda>r. and_then (row_to_job (job_columns r)) (\<lambda>job.
         Inr \<lparr>ma_job = job, ma_to = maintenance_target job\<rparr>))
       (sql_limit MAINTENANCE_LIMIT (sort_key expiry_key (filter (lease_expired req) (db_jobs d)))))"

definition cursor_of :: "db \<Rightarrow> str \<Rightarrow> str option" where
  "cursor_of d queue = (case map_of (db_queue_cursors d) queue of None \<Rightarrow> None | Some c \<Rightarrow> c)"

definition partitions_of :: "db \<Rightarrow> str \<Rightarrow> str list" where
  "partitions_of d queue =
     sort (map (\<lambda>e. snd (fst e)) (filter (\<lambda>e. fst (fst e) = queue) (db_active_partitions d)))"

text \<open>\<open>partition_point\<close> on a list whose elements satisfying \<open>P\<close> come first.\<close>

definition partition_point :: "('a \<Rightarrow> bool) \<Rightarrow> 'a list \<Rightarrow> nat" where
  "partition_point P xs = length (takeWhile P xs)"

definition lease_order :: "db \<Rightarrow> str \<Rightarrow> str list" where
  "lease_order d queue =
     (let parts = partitions_of d queue;
          start = (case cursor_of d queue of
            Some cursor \<Rightarrow> partition_point (\<lambda>p. p \<le> cursor) parts | None \<Rightarrow> 0)
      in drop start parts @ take start parts)"

definition head_job :: "db \<Rightarrow> str \<Rightarrow> str \<Rightarrow> JobRow option" where
  "head_job d queue part =
     (case sort_key jr_enqueue_sequence (filter (\<lambda>r. jr_queue r = queue \<and> jr_partition_key r = part
         \<and> jr_state r \<in> set ACTIVE_STATES) (db_jobs d)) of
        [] \<Rightarrow> None | r # _ \<Rightarrow> Some r)"

definition ready :: "ClaimRequest \<Rightarrow> JobRow \<Rightarrow> bool" where
  "ready req job =
     (case jr_state job of
        Pending \<Rightarrow> jr_not_before_ms job \<le> cr_now_ms req
      | RetryWait \<Rightarrow> jr_not_before_ms job \<le> cr_now_ms req \<and>
          (case jr_retry_after_ms job of None \<Rightarrow> i64_min | Some ms \<Rightarrow> ms) \<le> cr_now_ms req
      | _ \<Rightarrow> False)"

text \<open>The loop over the partitions; \<open>n\<close> counts the draws taken from the entropy source.\<close>

fun lease_partitions ::
    "db \<Rightarrow> ClaimRequest \<Rightarrow> entropy \<Rightarrow> str list \<Rightarrow> ProposedLease list \<Rightarrow> str option \<Rightarrow> nat
       \<Rightarrow> Error + (ProposedLease list \<times> str option \<times> nat)" where
  "lease_partitions d req ent [] leases last_leased n = Inr (leases, last_leased, n)"
| "lease_partitions d req ent (p # ps) leases last_leased n =
     (if length leases \<ge> cr_limit req then Inr (leases, last_leased, n)
      else case head_job d (cr_queue req) p of
        None \<Rightarrow> lease_partitions d req ent ps leases last_leased n
      | Some r \<Rightarrow>
          and_then (map_err Error_Storage (row_to_job (job_columns r))) (\<lambda>job.
            if \<not> ready req job then lease_partitions d req ent ps leases last_leased n
            else and_then (id_new (ent n)) (\<lambda>token.
              lease_partitions d req ent ps (leases @ [\<lparr>pl_job = job, pl_lease_token = token\<rparr>])
                (Some p) (n + 1))))"

definition plan_leases ::
    "db \<Rightarrow> ClaimRequest \<Rightarrow> entropy \<Rightarrow> Error + (ProposedLease list \<times> str option \<times> nat)" where
  "plan_leases d req ent =
     (if cr_limit req = 0 then Inr ([], None, 0)
      else lease_partitions d req ent (lease_order d (cr_queue req)) [] None 0)"

section \<open>Writing\<close>

definition claim_row :: "Id \<Rightarrow> ClaimRequest \<Rightarrow> nat \<Rightarrow> i64 \<Rightarrow> TransactionRow" where
  "claim_row transaction_id req operation_count transaction_sequence =
     \<lparr>tr_transaction_id = transaction_id, tr_transaction_sequence = transaction_sequence,
      tr_committed_at_ms = cr_now_ms req, tr_correlation_id = None, tr_metadata = [],
      tr_request_digest = checksum (''claim:'' @ to_hex transaction_id @ '':'' @ cr_queue req @ '':''
        @ cr_worker_id req @ '':'' @ show_int (cr_now_ms req) @ '':'' @ show_int (cr_lease_ms req)
        @ '':'' @ show_nat (cr_limit req)),
      tr_operation_count = int operation_count\<rparr>"

definition insert_claim_transaction :: "Id \<Rightarrow> ClaimRequest \<Rightarrow> nat \<Rightarrow> db \<Rightarrow> StorageError + db" where
  "insert_claim_transaction transaction_id req operation_count d =
     and_then (next_sequence ''transactions.transaction_sequence''
         (map tr_transaction_sequence (db_transactions d)))
       (\<lambda>n. insert_transaction (claim_row transaction_id req operation_count n) d)"

definition run_maintenance :: "ClaimRequest \<Rightarrow> Id \<Rightarrow> MaintenanceAction \<Rightarrow> db \<Rightarrow> ClaimError + db" where
  "run_maintenance req transaction_id action d =
     and_then (map_err error_to_claim (ensure_transition (ma_job action) (ma_to action))) (\<lambda>_.
       map_err Claim_Storage (
         if ma_to action = Dead
         then set_terminal (ma_job action) Dead (cr_now_ms req) transaction_id None
                (Some ''lease expired at final attempt'') d
         else set_nonterminal (jr_job_id (ma_job action)) (ma_to action) None transaction_id d))"

definition leased_row :: "ClaimRequest \<Rightarrow> i64 \<Rightarrow> Id \<Rightarrow> u32 \<Rightarrow> Id \<Rightarrow> JobRow \<Rightarrow> JobRow" where
  "leased_row req expires transaction_id attempt token r =
     r\<lparr>jr_state := Leased, jr_attempt := attempt, jr_lease_token := Some token,
       jr_worker_id := Some (cr_worker_id req), jr_lease_expires_at_ms := Some expires,
       jr_retry_after_ms := None, jr_updated_transaction_id := transaction_id\<rparr>"

definition claimed_job :: "ClaimRequest \<Rightarrow> i64 \<Rightarrow> u32 \<Rightarrow> ProposedLease \<Rightarrow> ClaimedJob" where
  "claimed_job req expires attempt lease =
     (let job = pl_job lease in
      \<lparr>cj_job_id = jr_job_id job, cj_queue = jr_queue job, cj_partition_key = jr_partition_key job,
       cj_payload = jr_payload job, cj_worker_id = cr_worker_id req,
       cj_lease_token = pl_lease_token lease, cj_attempt = attempt,
       cj_lease_expires_at_ms = expires, cj_idempotency_key = jr_idempotency_key job\<rparr>)"

definition receipt_row :: "ClaimRequest \<Rightarrow> i64 \<Rightarrow> Id \<Rightarrow> u32 \<Rightarrow> ProposedLease \<Rightarrow> ReceiptRow" where
  "receipt_row req expires transaction_id attempt lease =
     \<lparr>cl_transaction_id = transaction_id, cl_job_id = jr_job_id (pl_job lease),
      cl_lease_token = pl_lease_token lease, cl_attempt = attempt,
      cl_worker_id = cr_worker_id req, cl_lease_expires_at_ms = expires\<rparr>"

text \<open>The attempt is a \<open>u32\<close>: the addition wraps.\<close>

definition grant_lease ::
    "ClaimRequest \<Rightarrow> i64 \<Rightarrow> Id \<Rightarrow> ProposedLease \<Rightarrow> ClaimedJob list \<times> db
       \<Rightarrow> ClaimError + (ClaimedJob list \<times> db)" where
  "grant_lease req expires transaction_id lease s =
     (case s of (claimed, d) \<Rightarrow>
       let attempt = jr_attempt (pl_job lease) + 1 in
       map_err Claim_Storage (
         and_then (update_job (jr_job_id (pl_job lease))
           (leased_row req expires transaction_id attempt (pl_lease_token lease)) d) (\<lambda>d.
         and_then (insert_receipt (receipt_row req expires transaction_id attempt lease) d) (\<lambda>d.
         Inr (claimed @ [claimed_job req expires attempt lease], d)))))"

definition advance_cursor :: "str \<Rightarrow> str option \<Rightarrow> db \<Rightarrow> db" where
  "advance_cursor queue last_leased d =
     (case last_leased of
        None \<Rightarrow> d
      | Some p \<Rightarrow> d\<lparr>db_queue_cursors := AList.update queue (Some p) (db_queue_cursors d)\<rparr>)"

text \<open>Everything between the plan and \<open>COMMIT\<close>.\<close>

definition write_claim ::
    "ClaimRequest \<Rightarrow> i64 \<Rightarrow> Id \<Rightarrow> MaintenanceAction list \<Rightarrow> ProposedLease list \<Rightarrow> str option \<Rightarrow> db
       \<Rightarrow> ClaimError + (ClaimedJob list \<times> db)" where
  "write_claim req expires transaction_id maintenance leases last_leased d =
     and_then (map_err Claim_Storage (insert_claim_transaction transaction_id req
         (length maintenance + length leases) d)) (\<lambda>d.
     and_then (fold_res (run_maintenance req transaction_id) maintenance d) (\<lambda>d.
     and_then (fold_res (grant_lease req expires transaction_id) leases ([], d)) (\<lambda>(claimed, d).
     Inr (claimed, advance_cursor (cr_queue req) last_leased d))))"

section \<open>Claiming\<close>

definition claim_invalid :: "str \<Rightarrow> ClaimError" where
  "claim_invalid msg = Claim_Validation (ValidationError msg)"

definition validate_claim :: "ClaimRequest \<Rightarrow> ClaimError + i64" where
  "validate_claim req =
     (if cr_queue req = [] then Inl (claim_invalid ''claim queue cannot be empty'')
      else if cr_worker_id req = [] then Inl (claim_invalid ''claim worker id cannot be empty'')
      else if cr_lease_ms req \<le> 0 then Inl (claim_invalid ''claim lease_ms must be positive'')
      else ok_or (checked_add_i64 (cr_now_ms req) (cr_lease_ms req))
             (claim_invalid ''lease expiry timestamp overflows i64''))"

text \<open>The plan: what to repair, what to lease, and the id of the transaction.\<close>

definition plan_claim ::
    "db \<Rightarrow> ClaimRequest \<Rightarrow> entropy
       \<Rightarrow> ClaimError + (MaintenanceAction list \<times> ProposedLease list \<times> str option \<times> nat)" where
  "plan_claim d req ent =
     and_then (map_err Claim_Storage (plan_maintenance d req)) (\<lambda>maintenance.
     and_then (map_err error_to_claim (plan_leases d req ent)) (\<lambda>(leases, last_leased, n).
     Inr (maintenance, leases, last_leased, n)))"

text \<open>On a connection that may refuse to write, the sequence is read first.\<close>

definition attempt_claim ::
    "io \<Rightarrow> ClaimRequest \<Rightarrow> i64 \<Rightarrow> Id \<Rightarrow> MaintenanceAction list \<Rightarrow> ProposedLease list \<Rightarrow> str option \<Rightarrow> db
       \<Rightarrow> ClaimError + (ClaimedJob list \<times> db)" where
  "attempt_claim io req expires transaction_id maintenance leases last_leased d =
     (case io_write io of
        None \<Rightarrow> write_claim req expires transaction_id maintenance leases last_leased d
      | Some msg \<Rightarrow>
          and_then (map_err Claim_Storage (next_sequence ''transactions.transaction_sequence''
            (map tr_transaction_sequence (db_transactions d)))) (\<lambda>_.
          Inl (Claim_Storage (Sqlite (SqliteText msg)))))"

definition commit_claim ::
    "io \<Rightarrow> Id \<Rightarrow> db \<Rightarrow> ClaimError + (ClaimedJob list \<times> db) \<Rightarrow> (ClaimError + ClaimOutcome) \<times> db" where
  "commit_claim io transaction_id d written =
     (case written of
        Inl e \<Rightarrow> (Inl e, d)
      | Inr (claimed, new) \<Rightarrow>
          (case commit_step io d new of
             (Some msg, d') \<Rightarrow>
               (Inl (Claim_Indeterminate \<lparr>ix_transaction_id = transaction_id,
                  ix_proposed_jobs = map cj_job_id claimed, ix_storage_error = msg\<rparr>), d')
           | (None, d') \<Rightarrow>
               (Inr (if claimed = [] then MaintenanceCommitted \<lparr>mr_transaction_id = transaction_id\<rparr>
                     else Committed \<lparr>cc_transaction_id = transaction_id, cc_jobs = claimed,
                            cc_stale_jobs = []\<rparr>), d')))"

definition claim_jobs :: "ClaimRequest \<Rightarrow> entropy \<Rightarrow> io \<Rightarrow> db \<Rightarrow> (ClaimError + ClaimOutcome) \<times> db" where
  "claim_jobs req ent io d =
     (case validate_claim req of
        Inl e \<Rightarrow> (Inl e, d)
      | Inr expires \<Rightarrow>
        (case io_begin io of
           Some msg \<Rightarrow> (Inl (Claim_Storage (Sqlite (SqliteText msg))), d)
         | None \<Rightarrow>
           (case plan_claim d req ent of
              Inl e \<Rightarrow> (Inl e, d)
            | Inr (maintenance, leases, last_leased, n) \<Rightarrow>
                if maintenance = [] \<and> leases = [] then (Inr Noop, d)
                else (case map_err error_to_claim (id_new (ent n)) of
                        Inl e \<Rightarrow> (Inl e, d)
                      | Inr transaction_id \<Rightarrow>
                          commit_claim io transaction_id d
                            (attempt_claim io req expires transaction_id maintenance leases last_leased d)))))"

section \<open>Extending a lease\<close>

definition extend_lease ::
    "Id \<Rightarrow> Id \<Rightarrow> i64 \<Rightarrow> i64 \<Rightarrow> io \<Rightarrow> db \<Rightarrow> (LeaseError + LeaseExtensionReceipt) \<times> db" where
  "extend_lease job_id lease_token new_expiry_ms now_ms io d =
     (case io_begin io of
        Some msg \<Rightarrow> (Inl (Lease_Storage (Sqlite (SqliteText msg))), d)
      | None \<Rightarrow>
        (case apply_extend_lease \<lparr>le_job_id = job_id, le_lease_token = lease_token,
                le_new_expiry_ms = new_expiry_ms\<rparr> now_ms d of
           Inl e \<Rightarrow> (Inl e, d)
         | Inr (receipt, new) \<Rightarrow>
           (case io_write io of
              Some msg \<Rightarrow> (Inl (Lease_Storage (Sqlite (SqliteText msg))), d)
            | None \<Rightarrow>
              (case commit_step io d new of
                 (Some msg, d') \<Rightarrow>
                   (Inl (Lease_Indeterminate \<lparr>il_job_id = job_id, il_storage_error = msg\<rparr>), d')
               | (None, d') \<Rightarrow> (Inr receipt, d')))))"

section \<open>Recovering a claim\<close>

text \<open>A row of the join of receipts and jobs, as the driver returns it.\<close>

record RawClaim =
  rk_job_id :: bytes
  rk_lease_token :: bytes
  rk_attempt :: i64
  rk_worker_id :: str
  rk_lease_expires_at_ms :: i64
  rk_queue :: str
  rk_partition_key :: str
  rk_payload :: bytes
  rk_idempotency_key :: "str option"
  rk_current_state :: i64
  rk_current_token :: "bytes option"
  rk_current_expiry :: "i64 option"

definition claim_columns :: "ReceiptRow \<Rightarrow> JobRow \<Rightarrow> RawClaim" where
  "claim_columns c j =
     \<lparr>rk_job_id = as_bytes (cl_job_id c), rk_lease_token = as_bytes (cl_lease_token c),
      rk_attempt = uint (cl_attempt c), rk_worker_id = cl_worker_id c,
      rk_lease_expires_at_ms = cl_lease_expires_at_ms c, rk_queue = jr_queue j,
      rk_partition_key = jr_partition_key j, rk_payload = jr_payload j,
      rk_idempotency_key = jr_idempotency_key j, rk_current_state = state_encode (jr_state j),
      rk_current_token = map_option as_bytes (jr_lease_token j),
      rk_current_expiry = jr_lease_expires_at_ms j\<rparr>"

definition claim_rows :: "db \<Rightarrow> Id \<Rightarrow> RawClaim list" where
  "claim_rows d transaction_id =
     List.map_filter (\<lambda>c. map_option (claim_columns c)
         (find (\<lambda>j. jr_job_id j = cl_job_id c) (db_jobs d)))
       (sort_key cl_job_id (filter (\<lambda>c. cl_transaction_id c = transaction_id) (db_claim_receipts d)))"

definition still_current :: "i64 \<Rightarrow> Id \<Rightarrow> RawClaim \<Rightarrow> StorageError + bool" where
  "still_current now_ms lease_token row =
     (if rk_current_state row \<noteq> state_encode Leased then Inr False
      else and_then (opt_blob_to_id (rk_current_token row)) (\<lambda>token.
        Inr (token = Some lease_token \<and>
          (case rk_current_expiry row of None \<Rightarrow> False | Some expiry \<Rightarrow> expiry \<ge> now_ms))))"

definition recover_row ::
    "i64 \<Rightarrow> RawClaim \<Rightarrow> ClaimedJob list \<times> Id list \<Rightarrow> StorageError + (ClaimedJob list \<times> Id list)" where
  "recover_row now_ms row s =
     (case s of (jobs, stale_jobs) \<Rightarrow>
       and_then (blob_to_id (rk_job_id row)) (\<lambda>job_id.
       and_then (blob_to_id (rk_lease_token row)) (\<lambda>lease_token.
       and_then (still_current now_ms lease_token row) (\<lambda>current.
         if \<not> current then Inr (jobs, stale_jobs @ [job_id])
         else Inr (jobs @ [\<lparr>cj_job_id = job_id, cj_queue = rk_queue row,
                cj_partition_key = rk_partition_key row, cj_payload = rk_payload row,
                cj_worker_id = rk_worker_id row, cj_lease_token = lease_token,
                cj_attempt = word_of_int (rk_attempt row),
                cj_lease_expires_at_ms = rk_lease_expires_at_ms row,
                cj_idempotency_key = rk_idempotency_key row\<rparr>], stale_jobs)))))"

definition recover_claim :: "db \<Rightarrow> Id \<Rightarrow> i64 \<Rightarrow> RecoveryError + ClaimRecovery" where
  "recover_claim d transaction_id now_ms =
     map_err Recovery_Storage (
       and_then (fold_res (recover_row now_ms) (claim_rows d transaction_id) ([], []))
         (\<lambda>(jobs, stale_jobs).
           Inr (if claim_rows d transaction_id \<noteq> []
                then Recovered_Committed \<lparr>cc_transaction_id = transaction_id, cc_jobs = jobs,
                       cc_stale_jobs = stale_jobs\<rparr>
                else if has_transaction d transaction_id
                then Recovered_MaintenanceCommitted \<lparr>mr_transaction_id = transaction_id\<rparr>
                else Recovered_Absent)))"

end
