(* ===== verification/Ops.thy ===== *)
theory Ops
  imports Claims
begin

text \<open>
  \<open>src/store/ops.rs\<close>: verification, statistics and the diagnostic export. What the database
  engine itself reports (\<open>PRAGMA integrity_check\<close>, \<open>PRAGMA foreign_key_check\<close>) and the size
  the file system gives are parameters. \<open>backup\<close> has a theory of its own.

  The export is JSON Lines text, built here from lists of fields; \<open>json_object\<close> writes the
  braces, quotes, colons and commas that the format strings of the source spell out.
\<close>

section \<open>Text\<close>

definition hex :: "bytes \<Rightarrow> str" where
  "hex bs = concat (map hex_byte bs)"

definition json_escape_char :: "char \<Rightarrow> str" where
  "json_escape_char c =
     (if c = CHR 0x22 then [CHR 0x5C, CHR 0x22]
      else if c = CHR 0x5C then [CHR 0x5C, CHR 0x5C]
      else if c = CHR 0x0A then [CHR 0x5C, CHR 0x6E]
      else if c = CHR 0x0D then [CHR 0x5C, CHR 0x72]
      else if c = CHR 0x09 then [CHR 0x5C, CHR 0x74]
      else if (of_char c :: nat) < 0x20
      then [CHR 0x5C, CHR 0x75, CHR 0x30, CHR 0x30] @ hex_byte (of_char c)
      else [c])"

definition json_escape :: "str \<Rightarrow> str" where
  "json_escape s = concat (map json_escape_char s)"

definition quoted :: "str \<Rightarrow> str" where
  "quoted s = CHR 0x22 # s @ [CHR 0x22]"

fun commas :: "str list \<Rightarrow> str" where
  "commas [] = []"
| "commas [s] = s"
| "commas (s # t # ss) = s @ CHR 0x2C # commas (t # ss)"

definition json_object :: "(str \<times> str) list \<Rightarrow> str" where
  "json_object fs = CHR 0x7B # commas (map (\<lambda>(k, v). quoted k @ CHR 0x3A # v) fs) @ [CHR 0x7D]"

definition json_line :: "(str \<times> str) list \<Rightarrow> str" where
  "json_line fs = json_object fs @ [CHR 0x0A]"

definition json_string :: "str \<Rightarrow> str" where
  "json_string s = quoted (json_escape s)"

definition opt_i64 :: "i64 option \<Rightarrow> str" where
  "opt_i64 v = (case v of None \<Rightarrow> ''null'' | Some x \<Rightarrow> show_int x)"

definition opt_string :: "str option \<Rightarrow> str" where
  "opt_string v = (case v of None \<Rightarrow> ''null'' | Some s \<Rightarrow> json_string s)"

definition show_bool :: "bool \<Rightarrow> str" where
  "show_bool b = (if b then ''true'' else ''false'')"

definition state_name :: "int \<Rightarrow> str" where
  "state_name code =
     (case state_decode code of
        Some s \<Rightarrow> job_state_name s
      | None \<Rightarrow> ''unknown('' @ show_int code @ '')'')"

definition payload_fields :: "bytes \<Rightarrow> bool \<Rightarrow> (str \<times> str) list" where
  "payload_fields payload include_payloads =
     (''payload_len'', show_nat (length payload))
       # (if include_payloads then [(''payload_hex'', quoted (hex payload))] else [])"

definition error_summary_fields :: "str option \<Rightarrow> bool \<Rightarrow> (str \<times> str) list" where
  "error_summary_fields error_summary include_payloads =
     (if include_payloads then [(''error_summary'', opt_string error_summary)]
      else [(''error_summary_len'', opt_i64 (map_option (\<lambda>s. int (length s)) error_summary))])"

section \<open>Verification\<close>

record VerifyFinding =
  vf_check :: str
  vf_detail :: str

record VerifyReport =
  vr_findings :: "VerifyFinding list"

definition report_is_ok :: "VerifyReport \<Rightarrow> bool" where
  "report_is_ok r \<longleftrightarrow> vr_findings r = []"

definition finding :: "str \<Rightarrow> str \<Rightarrow> VerifyFinding" where
  "finding check detail = \<lparr>vf_check = check, vf_detail = detail\<rparr>"

text \<open>The rows of the two pragmas.\<close>

record engine_checks =
  ec_integrity :: "str list"
  ec_foreign_keys :: "(str \<times> i64 option \<times> str) list"

definition integrity_findings :: "engine_checks \<Rightarrow> VerifyFinding list" where
  "integrity_findings ec =
     map (finding ''integrity_check'') (filter (\<lambda>detail. detail \<noteq> ''ok'') (ec_integrity ec))"

definition foreign_key_findings :: "engine_checks \<Rightarrow> VerifyFinding list" where
  "foreign_key_findings ec =
     map (\<lambda>(table, rowid, parent). finding ''foreign_key_check''
         (''table '' @ table @ '' rowid '' @ (case rowid of None \<Rightarrow> ''?'' | Some r \<Rightarrow> show_int r)
           @ '' references missing row in '' @ parent)) (ec_foreign_keys ec)"

definition migration_findings :: "str \<Rightarrow> MigrationStatus list \<Rightarrow> VerifyFinding list" where
  "migration_findings check statuses =
     map (\<lambda>s. finding check (''migration '' @ show_nat (unat (ms_version s)) @ '' checksum mismatch''))
       (filter (\<lambda>s. \<not> ms_checksum_ok s) statuses)"

text \<open>\<open>COALESCE(MAX(e.stream_version), 0)\<close> over the events of a stream\<close>

definition max_version :: "db \<Rightarrow> str \<Rightarrow> i64" where
  "max_version d stream_id =
     (let vs = map er_stream_version (filter (\<lambda>e. er_stream_id e = stream_id) (db_events d))
      in if vs = [] then 0 else fold max vs (hd vs))"

definition stream_findings :: "db \<Rightarrow> VerifyFinding list" where
  "stream_findings d =
     map (\<lambda>(stream_id, current). finding ''stream_versions''
         (''stream '' @ stream_id @ '' current_version '' @ show_int current
           @ '' != max event version '' @ show_int (max_version d stream_id)))
       (sort_key fst (filter (\<lambda>(stream_id, current). current \<noteq> max_version d stream_id) (db_streams d)))
     @ map (\<lambda>stream_id. finding ''stream_versions''
         (''stream '' @ stream_id @ '' has events but no streams row''))
       (sort (remdups (map er_stream_id
         (filter (\<lambda>e. map_of (db_streams d) (er_stream_id e) = None) (db_events d)))))"

definition terminal_findings :: "db \<Rightarrow> VerifyFinding list" where
  "terminal_findings d =
     map (\<lambda>r. finding ''terminal_jobs''
         (''terminal job '' @ hex (as_bytes (jr_job_id r)) @ '' still has lease fields''))
       (filter (\<lambda>r. jr_state r \<in> set TERMINAL_STATES \<and>
           (jr_lease_token r \<noteq> None \<or> jr_worker_id r \<noteq> None \<or> jr_lease_expires_at_ms r \<noteq> None))
         (db_jobs d))"

definition partition_findings :: "db \<Rightarrow> VerifyFinding list" where
  "partition_findings d =
     map (\<lambda>((queue, part), _). finding ''active_partitions''
         (''partition '' @ queue @ ''/'' @ part @ '' is active but has no nonterminal jobs''))
       (filter (\<lambda>((queue, part), _). \<not> partition_active d queue part) (db_active_partitions d))"

definition leased_findings :: "db \<Rightarrow> VerifyFinding list" where
  "leased_findings d =
     map (\<lambda>r. finding ''leased_jobs''
         (''leased job '' @ hex (as_bytes (jr_job_id r)) @ '' is missing lease fields''))
       (filter (\<lambda>r. jr_state r = Leased \<and>
           (jr_lease_token r = None \<or> jr_worker_id r = None \<or> jr_lease_expires_at_ms r = None))
         (db_jobs d))"

definition receipt_findings :: "db \<Rightarrow> VerifyFinding list" where
  "receipt_findings d =
     map (\<lambda>c. finding ''claim_receipts''
         (''claim receipt in transaction '' @ hex (as_bytes (cl_transaction_id c))
           @ '' references missing job '' @ hex (as_bytes (cl_job_id c))))
       (filter (\<lambda>c. find (\<lambda>r. jr_job_id r = cl_job_id c) (db_jobs d) = None) (db_claim_receipts d))
     @ map (\<lambda>c. finding ''claim_receipts''
         (''claim receipt for job '' @ hex (as_bytes (cl_job_id c))
           @ '' references missing transaction '' @ hex (as_bytes (cl_transaction_id c))))
       (filter (\<lambda>c. \<not> has_transaction d (cl_transaction_id c)) (db_claim_receipts d))"

definition semantic_checks :: "db_file \<Rightarrow> StorageError + VerifyFinding list" where
  "semantic_checks f =
     (let d = df_store f in
      and_then (status f) (\<lambda>statuses.
        Inr (stream_findings d @ terminal_findings d @ partition_findings d
          @ migration_findings ''migration_checksums'' statuses @ leased_findings d
          @ receipt_findings d)))"

definition verify :: "engine_checks \<Rightarrow> db_file \<Rightarrow> Error + VerifyReport" where
  "verify ec f =
     map_err Error_Storage (
       and_then (status f) (\<lambda>statuses.
       and_then (semantic_checks f) (\<lambda>semantic.
       Inr \<lparr>vr_findings = integrity_findings ec @ foreign_key_findings ec
         @ (if statuses = [] then [finding ''migrations'' ''no migrations applied''] else [])
         @ migration_findings ''migrations'' statuses @ semantic\<rparr>)))"

section \<open>Statistics\<close>

record StoreStats =
  ss_transactions :: u64
  ss_events :: u64
  ss_streams :: u64
  ss_projections :: u64
  ss_projection_entries :: u64
  ss_jobs_by_state :: "(str \<times> u64) list"
  ss_active_partitions :: u64
  ss_file_size_bytes :: u64
  ss_migration_version :: u32
  ss_oldest_active_lease_ms :: "i64 option"
  ss_oldest_uncertain_job_ms :: "i64 option"

text \<open>\<open>SELECT COUNT(*)\<close>\<close>

definition count :: "'a list \<Rightarrow> u64" where
  "count rows = i64_as_u64 (int (length rows))"

text \<open>\<open>SELECT MIN(...)\<close>, which is NULL on no rows\<close>

definition sql_min :: "i64 list \<Rightarrow> i64 option" where
  "sql_min xs = (if xs = [] then None else Some (fold min xs (hd xs)))"

text \<open>\<open>GROUP BY state\<close> collected into a \<open>BTreeMap\<close>: ordered by name\<close>

definition jobs_by_state :: "db \<Rightarrow> (str \<times> u64) list" where
  "jobs_by_state d =
     sort_key fst (map (\<lambda>s. (state_name (state_encode s), count (filter (\<lambda>r. jr_state r = s) (db_jobs d))))
       (remdups (map jr_state (db_jobs d))))"

definition oldest_active_lease :: "db \<Rightarrow> i64 option" where
  "oldest_active_lease d =
     sql_min (List.map_filter jr_lease_expires_at_ms (filter (\<lambda>r. jr_state r = Leased) (db_jobs d)))"

definition oldest_uncertain_job :: "db \<Rightarrow> i64 option" where
  "oldest_uncertain_job d =
     sql_min (List.map_filter (\<lambda>r. map_option tr_committed_at_ms
         (find (\<lambda>t. tr_transaction_id t = jr_updated_transaction_id r) (db_transactions d)))
       (filter (\<lambda>r. jr_state r = Uncertain) (db_jobs d)))"

definition stats :: "StorageError + u64 \<Rightarrow> db_file \<Rightarrow> Error + StoreStats" where
  "stats file_size f =
     (let d = df_store f in
      map_err Error_Storage (and_then file_size (\<lambda>size.
        Inr \<lparr>ss_transactions = count (db_transactions d), ss_events = count (db_events d),
             ss_streams = count (db_streams d), ss_projections = count (db_projection_meta d),
             ss_projection_entries = count (db_projection_entries d),
             ss_jobs_by_state = jobs_by_state d,
             ss_active_partitions = count (db_active_partitions d), ss_file_size_bytes = size,
             ss_migration_version = current_version f,
             ss_oldest_active_lease_ms = oldest_active_lease d,
             ss_oldest_uncertain_job_ms = oldest_uncertain_job d\<rparr>)))"

section \<open>Diagnostic export\<close>

definition EXPORT_PAGE_SIZE :: nat where
  "EXPORT_PAGE_SIZE = 512"

lemma export_page_size: "sql_limit EXPORT_PAGE_SIZE xs = take 512 xs"
  by (simp add: sql_limit_take EXPORT_PAGE_SIZE_def i64_max_def)

text \<open>
  The page loop of four exports: rows with a key above the last one seen, in key order, until a
  page is not full. \<open>rows\<close> is the table in key order.
\<close>

function export_pages :: "('r \<Rightarrow> 'k::linorder) \<Rightarrow> ('r \<Rightarrow> str) \<Rightarrow> 'r list \<Rightarrow> 'k \<Rightarrow> str" where
  "export_pages key render rows previous =
     (let page = sql_limit EXPORT_PAGE_SIZE (filter (\<lambda>r. previous < key r) rows);
          out = concat (map render page)
      in if length page < EXPORT_PAGE_SIZE then out
         else out @ export_pages key render rows (key (last page)))"
  by pat_completeness auto

termination
proof (relation "measure (\<lambda>(key, _, rows, previous). length (filter (\<lambda>r. previous < key r) rows))")
  fix key :: "'r \<Rightarrow> 'k::linorder" and render :: "'r \<Rightarrow> str" and rows previous page out
  assume page: "page = sql_limit EXPORT_PAGE_SIZE (filter (\<lambda>r. previous < key r) rows)"
    and full: "\<not> length page < EXPORT_PAGE_SIZE"
  have "page \<noteq> []" using full by (auto simp: EXPORT_PAGE_SIZE_def)
  then have "last page \<in> set (filter (\<lambda>r. previous < key r) rows)"
    using last_in_set [of page] in_set_takeD by (metis page export_page_size)
  then have l: "last page \<in> set rows" "previous < key (last page)" by auto
  have "filter (\<lambda>r. key (last page) < key r) rows
      = filter (\<lambda>r. key (last page) < key r) (filter (\<lambda>r. previous < key r) rows)"
    using l(2) by (auto intro!: filter_cong)
  moreover have "length (filter (\<lambda>r. key (last page) < key r) (filter (\<lambda>r. previous < key r) rows))
      < length (filter (\<lambda>r. previous < key r) rows)"
    using l by (intro length_filter_less [of "last page"]) auto
  ultimately show "((key, render, rows, key (last page)), key, render, rows, previous)
      \<in> measure (\<lambda>(key, _, rows, previous). length (filter (\<lambda>r. previous < key r) rows))"
    by simp
qed simp

declare export_pages.simps [simp del]

definition transaction_line :: "TransactionRow \<Rightarrow> str" where
  "transaction_line r = json_line
     [(''kind'', quoted ''transaction''), (''transaction_sequence'', show_int (tr_transaction_sequence r)),
      (''transaction_id'', quoted (hex (as_bytes (tr_transaction_id r)))),
      (''committed_at_ms'', show_int (tr_committed_at_ms r)),
      (''operation_count'', show_int (tr_operation_count r))]"

definition export_transactions :: "db \<Rightarrow> str" where
  "export_transactions d =
     export_pages tr_transaction_sequence transaction_line
       (sort_key tr_transaction_sequence (db_transactions d)) 0"

definition event_line :: "bool \<Rightarrow> EventRow \<Rightarrow> str" where
  "event_line include_payloads r = json_line (
     [(''kind'', quoted ''event''), (''global_sequence'', show_int (er_global_sequence r)),
      (''event_id'', quoted (hex (as_bytes (er_event_id r)))),
      (''transaction_id'', quoted (hex (as_bytes (er_transaction_id r)))),
      (''stream_id'', json_string (er_stream_id r)),
      (''stream_version'', show_int (er_stream_version r)),
      (''event_type'', json_string (er_event_type r)),
      (''schema_version'', show_nat (unat (er_schema_version r))),
      (''occurred_at_ms'', show_int (er_occurred_at_ms r))]
     @ payload_fields (er_payload r) include_payloads)"

definition export_events :: "bool \<Rightarrow> db \<Rightarrow> str" where
  "export_events include_payloads d =
     export_pages er_global_sequence (event_line include_payloads)
       (sort_key er_global_sequence (db_events d)) 0"

definition stream_line :: "str \<times> i64 \<Rightarrow> str" where
  "stream_line s = json_line
     [(''kind'', quoted ''stream''), (''stream_id'', json_string (fst s)),
      (''current_version'', show_int (snd s))]"

definition export_streams :: "db \<Rightarrow> str" where
  "export_streams d = export_pages fst stream_line (sort_key fst (db_streams d)) ''''"

definition projection_line :: "str \<times> i64 \<Rightarrow> str" where
  "projection_line p = json_line
     [(''kind'', quoted ''projection''), (''projection'', json_string (fst p)),
      (''version'', show_int (snd p))]"

definition entry_line :: "bool \<Rightarrow> (str \<times> bytes) \<times> bytes \<Rightarrow> str" where
  "entry_line include_payloads e = (case e of ((projection, key), val) \<Rightarrow> json_line (
     [(''kind'', quoted ''projection_entry''), (''projection'', json_string projection),
      (''key_hex'', quoted (hex key)), (''value_len'', show_nat (length val))]
     @ (if include_payloads then [(''value_hex'', quoted (hex val))] else [])))"

text \<open>
  The rowid of an entry is its position: an update in place keeps the rowid and a new row gets
  one above all others.
\<close>

definition export_projections :: "bool \<Rightarrow> db \<Rightarrow> str" where
  "export_projections include_payloads d =
     concat (map projection_line (sort_key fst (db_projection_meta d)))
     @ export_pages fst (\<lambda>r. entry_line include_payloads (snd r))
         (zip [1..int (length (db_projection_entries d))] (db_projection_entries d)) 0"

definition job_line :: "bool \<Rightarrow> JobRow \<Rightarrow> str" where
  "job_line include_payloads r = json_line (
     [(''kind'', quoted ''job''), (''enqueue_sequence'', show_int (jr_enqueue_sequence r)),
      (''job_id'', quoted (hex (as_bytes (jr_job_id r)))), (''queue'', json_string (jr_queue r)),
      (''partition_key'', json_string (jr_partition_key r)),
      (''state'', quoted (state_name (state_encode (jr_state r)))),
      (''attempt'', show_nat (unat (jr_attempt r))),
      (''max_attempts'', show_nat (unat (jr_max_attempts r))),
      (''effect_mode'', show_int (effect_encode (jr_effect_mode r))),
      (''not_before_ms'', show_int (jr_not_before_ms r)), (''worker_id'', opt_string (jr_worker_id r)),
      (''lease_expires_at_ms'', opt_i64 (jr_lease_expires_at_ms r)),
      (''retry_after_ms'', opt_i64 (jr_retry_after_ms r)),
      (''terminal_at_ms'', opt_i64 (jr_terminal_at_ms r))]
     @ error_summary_fields (jr_error_summary r) include_payloads
     @ payload_fields (jr_payload r) include_payloads)"

definition export_jobs :: "bool \<Rightarrow> db \<Rightarrow> str" where
  "export_jobs include_payloads d =
     export_pages jr_enqueue_sequence (job_line include_payloads)
       (sort_key jr_enqueue_sequence (db_jobs d)) 0"

definition partition_line :: "(str \<times> str) \<times> i64 \<Rightarrow> str" where
  "partition_line p = json_line
     [(''kind'', quoted ''active_partition''), (''queue'', json_string (fst (fst p))),
      (''partition_key'', json_string (snd (fst p))), (''first_active_sequence'', show_int (snd p))]"

definition export_partitions :: "db \<Rightarrow> str" where
  "export_partitions d =
     concat (map partition_line
       (sort_key (\<lambda>p. fst (fst p)) (sort_key (\<lambda>p. snd (fst p)) (db_active_partitions d))))"

definition receipt_line :: "ReceiptRow \<Rightarrow> str" where
  "receipt_line c = json_line
     [(''kind'', quoted ''claim_receipt''),
      (''transaction_id'', quoted (hex (as_bytes (cl_transaction_id c)))),
      (''job_id'', quoted (hex (as_bytes (cl_job_id c)))),
      (''attempt'', show_nat (unat (cl_attempt c))), (''worker_id'', json_string (cl_worker_id c)),
      (''lease_expires_at_ms'', show_int (cl_lease_expires_at_ms c))]"

definition export_claim_receipts :: "db \<Rightarrow> str" where
  "export_claim_receipts d = concat (map receipt_line (db_claim_receipts d))"

definition header_line :: "StoreStats \<Rightarrow> bool \<Rightarrow> str" where
  "header_line st include_payloads = json_line
     [(''kind'', quoted ''header''), (''format'', quoted ''minisqlite-diagnostic-v1''),
      (''restorable'', ''false''), (''schema_version'', show_nat (unat (ss_migration_version st))),
      (''payloads_included'', show_bool include_payloads)]"

definition stats_line :: "StoreStats \<Rightarrow> str" where
  "stats_line st = json_line
     [(''kind'', quoted ''stats''), (''transactions'', show_u64 (ss_transactions st)),
      (''events'', show_u64 (ss_events st)), (''streams'', show_u64 (ss_streams st)),
      (''projections'', show_u64 (ss_projections st)),
      (''projection_entries'', show_u64 (ss_projection_entries st)),
      (''active_partitions'', show_u64 (ss_active_partitions st)),
      (''file_size_bytes'', show_u64 (ss_file_size_bytes st)),
      (''jobs_by_state'', json_object (map (\<lambda>(s, n). (json_escape s, show_u64 n)) (ss_jobs_by_state st)))]"

definition diagnostic_export :: "StorageError + u64 \<Rightarrow> bool \<Rightarrow> db_file \<Rightarrow> Error + str" where
  "diagnostic_export file_size include_payloads f =
     and_then (stats file_size f) (\<lambda>st. let d = df_store f in
       Inr (header_line st include_payloads @ stats_line st @ export_transactions d
         @ export_events include_payloads d @ export_streams d
         @ export_projections include_payloads d @ export_jobs include_payloads d
         @ export_partitions d @ export_claim_receipts d))"

end
