(* ===== verification/Facade.thy ===== *)
theory Facade
  imports Ops
begin

text \<open>
  The public store (\<open>store/mod.rs\<close>), its connections (\<open>store/connection.rs\<close>) and its pool of
  read-only connections (\<open>store/read_pool.rs\<close>). A \<open>Store\<close> is one open handle; the database
  file it works on is passed beside it, because several handles, in one process or in several,
  share it. \<open>None\<close> is a file that does not exist.

  The answers of the engine and of the operating system are the fields of an \<open>engine\<close>: the text
  with which opening a connection fails, the text with which a PRAGMA fails, what happens to the
  transaction of the call, to each migration, the clock, the entropy source, the integrity checks
  and the size of the file. The locks are not shown: the writer mutex of a handle and
  \<open>BEGIN IMMEDIATE\<close> between handles make each call one step.
\<close>

type_synonym disk = "db_file option"

record engine =
  en_open :: "str option"
  en_statement :: "str \<Rightarrow> str option"
  en_io :: io
  en_migration :: "u32 \<Rightarrow> migration_io"
  en_clock :: "u32 \<Rightarrow> i64"
  en_entropy :: entropy
  en_checks :: engine_checks
  en_file_size :: "StorageError + u64"

text \<open>Opening a read-write connection creates the file.\<close>

definition file_of :: "disk \<Rightarrow> db_file" where
  "file_of w = (case w of None \<Rightarrow> new_file | Some f \<Rightarrow> f)"

section \<open>Connections\<close>

datatype Access = ReadWrite | ReadOnly

record connection =
  cn_access :: Access
  cn_pragmas :: "str list"

definition run_pragma :: "engine \<Rightarrow> str \<Rightarrow> connection \<Rightarrow> StorageError + connection" where
  "run_pragma en statement conn =
     (case en_statement en statement of
        Some msg \<Rightarrow> Inl (Sqlite (SqliteText msg))
      | None \<Rightarrow> Inr (conn\<lparr>cn_pragmas := cn_pragmas conn @ [statement]\<rparr>))"

definition base_pragmas :: "str list" where
  "base_pragmas = [''PRAGMA foreign_keys=ON'', ''PRAGMA trusted_schema=OFF'', ''PRAGMA busy_timeout=5000'']"

definition apply_pragmas :: "engine \<Rightarrow> Durability \<Rightarrow> connection \<Rightarrow> StorageError + connection" where
  "apply_pragmas en durability conn =
     fold_res (run_pragma en)
       ([''PRAGMA journal_mode=WAL''] @ base_pragmas
         @ [''PRAGMA synchronous='' @ synchronous_pragma durability]) conn"

definition connection_open :: "engine \<Rightarrow> Durability \<Rightarrow> disk \<Rightarrow> (StorageError + connection) \<times> disk" where
  "connection_open en durability w =
     (case en_open en of
        Some msg \<Rightarrow> (Inl (Sqlite (SqliteText msg)), w)
      | None \<Rightarrow> (apply_pragmas en durability \<lparr>cn_access = ReadWrite, cn_pragmas = []\<rparr>, Some (file_of w)))"

definition connection_open_existing :: "engine \<Rightarrow> str \<Rightarrow> disk \<Rightarrow> StorageError + connection" where
  "connection_open_existing en path w =
     (if w = None then Inl (Io (''database file '' @ path @ '' does not exist''))
      else case en_open en of
        Some msg \<Rightarrow> Inl (Sqlite (SqliteText msg))
      | None \<Rightarrow> fold_res (run_pragma en) base_pragmas \<lparr>cn_access = ReadOnly, cn_pragmas = []\<rparr>)"

definition open_reader :: "engine \<Rightarrow> str \<Rightarrow> disk \<Rightarrow> StorageError + connection" where
  "open_reader en path w =
     and_then (connection_open_existing en path w) (run_pragma en ''PRAGMA query_only=ON'')"

text \<open>What the engine does to a transaction on a connection: a read-only one refuses to write.\<close>

definition transaction_io :: "engine \<Rightarrow> connection \<Rightarrow> io" where
  "transaction_io en conn =
     (case cn_access conn of
        ReadWrite \<Rightarrow> en_io en
      | ReadOnly \<Rightarrow> (en_io en)\<lparr>io_write := Some ''attempt to write a readonly database''\<rparr>)"

section \<open>The read pool\<close>

record ReadPool =
  rp_path :: str
  rp_idle :: "connection list"
  rp_max_idle :: nat

definition DEFAULT_READ_POOL_SIZE :: nat where
  "DEFAULT_READ_POOL_SIZE = 4"

definition pool_new :: "str \<Rightarrow> nat \<Rightarrow> ReadPool" where
  "pool_new path max_idle = \<lparr>rp_path = path, rp_idle = [], rp_max_idle = max_idle\<rparr>"

definition pool_take :: "engine \<Rightarrow> disk \<Rightarrow> ReadPool \<Rightarrow> (StorageError + connection) \<times> ReadPool" where
  "pool_take en w pool =
     (if rp_idle pool = [] then (open_reader en (rp_path pool) w, pool)
      else (Inr (last (rp_idle pool)), pool\<lparr>rp_idle := butlast (rp_idle pool)\<rparr>))"

definition pool_put :: "connection \<Rightarrow> ReadPool \<Rightarrow> ReadPool" where
  "pool_put conn pool =
     (if length (rp_idle pool) < rp_max_idle pool
      then pool\<lparr>rp_idle := rp_idle pool @ [conn]\<rparr> else pool)"

section \<open>Building and opening a store\<close>

record StoreBuilder =
  sb_path :: str
  sb_durability :: Durability
  sb_limits :: Limits
  sb_read_pool_size :: nat

definition builder_new :: "str \<Rightarrow> StoreBuilder" where
  "builder_new path =
     \<lparr>sb_path = path, sb_durability = Strict, sb_limits = default_limits,
      sb_read_pool_size = DEFAULT_READ_POOL_SIZE\<rparr>"

definition with_durability :: "Durability \<Rightarrow> StoreBuilder \<Rightarrow> StoreBuilder" where
  "with_durability durability b = b\<lparr>sb_durability := durability\<rparr>"

definition with_limits :: "Limits \<Rightarrow> StoreBuilder \<Rightarrow> StoreBuilder" where
  "with_limits limits b = b\<lparr>sb_limits := limits\<rparr>"

definition with_read_pool_size :: "nat \<Rightarrow> StoreBuilder \<Rightarrow> StoreBuilder" where
  "with_read_pool_size n b = b\<lparr>sb_read_pool_size := n\<rparr>"

text \<open>The handle: the writer connection, absent after an unknown outcome, and the readers.\<close>

record Store =
  sv_writer :: "connection option"
  sv_readers :: ReadPool
  sv_path :: str
  sv_limits :: Limits
  sv_durability :: Durability

definition built_store :: "StoreBuilder \<Rightarrow> connection \<Rightarrow> Store" where
  "built_store b conn =
     \<lparr>sv_writer = Some conn, sv_readers = pool_new (sb_path b) (sb_read_pool_size b),
      sv_path = sb_path b, sv_limits = sb_limits b, sv_durability = sb_durability b\<rparr>"

definition builder_open :: "engine \<Rightarrow> StoreBuilder \<Rightarrow> disk \<Rightarrow> (Error + Store) \<times> disk" where
  "builder_open en b w =
     (case validate_limits (sb_limits b) of
        Inl v \<Rightarrow> (Inl (Error_Validation v), w)
      | Inr _ \<Rightarrow>
        (case connection_open en (sb_durability b) w of
           (Inl e, w) \<Rightarrow> (Inl (Error_Storage e), w)
         | (Inr conn, w) \<Rightarrow>
           (case migrate (en_migration en) (en_clock en) (file_of w) of
              (Inl e, f) \<Rightarrow> (Inl (Error_Storage e), Some f)
            | (Inr _, f) \<Rightarrow> (Inr (built_store b conn), Some f))))"

definition builder_open_existing :: "engine \<Rightarrow> StoreBuilder \<Rightarrow> disk \<Rightarrow> Error + Store" where
  "builder_open_existing en b w =
     and_then (map_err Error_Validation (validate_limits (sb_limits b))) (\<lambda>_.
     and_then (map_err Error_Storage (connection_open_existing en (sb_path b) w)) (\<lambda>conn.
     and_then (map_err Error_Storage (require_current (file_of w))) (\<lambda>_.
     Inr (built_store b conn))))"

definition store_open :: "engine \<Rightarrow> str \<Rightarrow> disk \<Rightarrow> (Error + Store) \<times> disk" where
  "store_open en path w = builder_open en (builder_new path) w"

definition store_open_existing :: "engine \<Rightarrow> str \<Rightarrow> disk \<Rightarrow> Error + Store" where
  "store_open_existing en path w = builder_open_existing en (builder_new path) w"

section \<open>Access to the connections\<close>

text \<open>The live writer, reopened when an unknown outcome of a \<open>COMMIT\<close> dropped it.\<close>

definition store_connection :: "engine \<Rightarrow> Store \<Rightarrow> disk \<Rightarrow> (StorageError + connection) \<times> Store \<times> disk" where
  "store_connection en s w =
     (case sv_writer s of
        Some conn \<Rightarrow> (Inr conn, s, w)
      | None \<Rightarrow>
        (case connection_open en (sv_durability s) w of
           (Inl e, w) \<Rightarrow> (Inl e, s, w)
         | (Inr conn, w) \<Rightarrow> (Inr conn, s\<lparr>sv_writer := Some conn\<rparr>, w)))"

definition with_reader :: "engine \<Rightarrow> (db_file \<Rightarrow> Error + 'a) \<Rightarrow> disk \<Rightarrow> Store \<Rightarrow> (Error + 'a) \<times> Store" where
  "with_reader en f w s =
     (case pool_take en w (sv_readers s) of
        (Inl e, pool) \<Rightarrow> (Inl (Error_Storage e), s\<lparr>sv_readers := pool\<rparr>)
      | (Inr conn, pool) \<Rightarrow> (f (file_of w), s\<lparr>sv_readers := pool_put conn pool\<rparr>))"

text \<open>
  The body shared by the three writing operations: run one transaction on the writer, and drop
  the writer when the outcome of its \<open>COMMIT\<close> is unknown.
\<close>

definition on_writer ::
    "engine \<Rightarrow> (StorageError \<Rightarrow> 'e) \<Rightarrow> ('e \<Rightarrow> bool) \<Rightarrow> (io \<Rightarrow> db \<Rightarrow> ('e + 'a) \<times> db)
       \<Rightarrow> Store \<Rightarrow> disk \<Rightarrow> ('e + 'a) \<times> Store \<times> disk" where
  "on_writer en to_error unknown body s w =
     (case store_connection en s w of
        (Inl e, s, w) \<Rightarrow> (Inl (to_error e), s, w)
      | (Inr conn, s, w) \<Rightarrow>
        (case body (transaction_io en conn) (df_store (file_of w)) of
           (res, d) \<Rightarrow>
             (res,
              (case res of Inl e \<Rightarrow> if unknown e then s\<lparr>sv_writer := None\<rparr> else s | Inr _ \<Rightarrow> s),
              Some ((file_of w)\<lparr>df_store := d\<rparr>))))"

section \<open>Transactions\<close>

fun commit_unknown :: "CommitError \<Rightarrow> bool" where
  "commit_unknown (Commit_Indeterminate _) = True"
| "commit_unknown _ = False"

definition store_commit ::
    "engine \<Rightarrow> CommitBatch \<Rightarrow> Store \<Rightarrow> disk \<Rightarrow> (CommitError + CommitReceipt) \<times> Store \<times> disk" where
  "store_commit en batch s w =
     on_writer en Commit_Storage commit_unknown (commit (sv_limits s) batch) s w"

definition store_recover_transaction ::
    "engine \<Rightarrow> Id \<Rightarrow> Store \<Rightarrow> disk \<Rightarrow> (RecoveryError + TransactionRecovery) \<times> Store \<times> disk" where
  "store_recover_transaction en transaction_id s w =
     (case store_connection en s w of
        (Inl e, s, w) \<Rightarrow> (Inl (Recovery_Storage e), s, w)
      | (Inr conn, s, w) \<Rightarrow>
          (map_err Recovery_Storage (recover_transaction (df_store (file_of w)) transaction_id), s, w))"

section \<open>Events and projections\<close>

definition store_events_after :: "engine \<Rightarrow> u64 \<Rightarrow> nat \<Rightarrow> disk \<Rightarrow> Store \<Rightarrow> (Error + PersistedEvent list) \<times> Store" where
  "store_events_after en after limit =
     with_reader en (\<lambda>f. map_err Error_Storage (events_after (df_store f) after limit))"

definition store_last_events :: "engine \<Rightarrow> nat \<Rightarrow> disk \<Rightarrow> Store \<Rightarrow> (Error + PersistedEvent list) \<times> Store" where
  "store_last_events en limit =
     with_reader en (\<lambda>f. map_err Error_Storage (last_events (df_store f) limit))"

definition store_stream_events ::
    "engine \<Rightarrow> str \<Rightarrow> u64 \<Rightarrow> nat \<Rightarrow> disk \<Rightarrow> Store \<Rightarrow> (Error + PersistedEvent list) \<times> Store" where
  "store_stream_events en stream_id from_version limit =
     with_reader en (\<lambda>f. map_err Error_Storage (stream_events (df_store f) stream_id from_version limit))"

definition store_get_event :: "engine \<Rightarrow> Id \<Rightarrow> disk \<Rightarrow> Store \<Rightarrow> (Error + PersistedEvent option) \<times> Store" where
  "store_get_event en event_id =
     with_reader en (\<lambda>f. map_err Error_Storage (get_event (df_store f) event_id))"

definition store_stream_version :: "engine \<Rightarrow> str \<Rightarrow> disk \<Rightarrow> Store \<Rightarrow> (Error + u64) \<times> Store" where
  "store_stream_version en stream_id =
     with_reader en (\<lambda>f. map_err Error_Storage (stream_version (df_store f) stream_id))"

definition store_projection_version :: "engine \<Rightarrow> str \<Rightarrow> disk \<Rightarrow> Store \<Rightarrow> (Error + u64) \<times> Store" where
  "store_projection_version en projection =
     with_reader en (\<lambda>f. projection_version (df_store f) projection)"

definition store_projection_get :: "engine \<Rightarrow> str \<Rightarrow> bytes \<Rightarrow> disk \<Rightarrow> Store \<Rightarrow> (Error + bytes option) \<times> Store" where
  "store_projection_get en projection key =
     with_reader en (\<lambda>f. projection_get (df_store f) projection key)"

definition store_projection_scan_prefix ::
    "engine \<Rightarrow> str \<Rightarrow> bytes \<Rightarrow> nat \<Rightarrow> disk \<Rightarrow> Store \<Rightarrow> (Error + ProjectionEntry list) \<times> Store" where
  "store_projection_scan_prefix en projection pre limit =
     with_reader en (\<lambda>f. projection_scan_prefix (df_store f) projection pre limit)"

definition store_projection_scan_prefix_page ::
    "engine \<Rightarrow> str \<Rightarrow> bytes \<Rightarrow> bytes option \<Rightarrow> nat \<Rightarrow> disk \<Rightarrow> Store \<Rightarrow> (Error + ProjectionEntry list) \<times> Store" where
  "store_projection_scan_prefix_page en projection pre after limit =
     with_reader en (\<lambda>f. projection_scan_prefix_page (df_store f) projection pre after limit)"

definition store_projection_scan_range ::
    "engine \<Rightarrow> str \<Rightarrow> bytes option \<Rightarrow> bytes option \<Rightarrow> bytes option \<Rightarrow> nat \<Rightarrow> disk \<Rightarrow> Store
       \<Rightarrow> (Error + ProjectionEntry list) \<times> Store" where
  "store_projection_scan_range en projection start end after limit =
     with_reader en (\<lambda>f. projection_scan_range (df_store f) projection start end after limit)"

definition store_projections_list :: "engine \<Rightarrow> disk \<Rightarrow> Store \<Rightarrow> (Error + (str \<times> u64) list) \<times> Store" where
  "store_projections_list en = with_reader en (\<lambda>f. projections_list (df_store f))"

definition store_projection_entry_count :: "engine \<Rightarrow> str \<Rightarrow> disk \<Rightarrow> Store \<Rightarrow> (Error + u64) \<times> Store" where
  "store_projection_entry_count en projection =
     with_reader en (\<lambda>f. projection_entry_count (df_store f) projection)"

section \<open>Jobs\<close>

fun claim_unknown :: "ClaimError \<Rightarrow> bool" where
  "claim_unknown (Claim_Indeterminate _) = True"
| "claim_unknown _ = False"

definition store_claim_jobs ::
    "engine \<Rightarrow> ClaimRequest \<Rightarrow> Store \<Rightarrow> disk \<Rightarrow> (ClaimError + ClaimOutcome) \<times> Store \<times> disk" where
  "store_claim_jobs en request s w =
     on_writer en Claim_Storage claim_unknown (claim_jobs request (en_entropy en)) s w"

fun lease_unknown :: "LeaseError \<Rightarrow> bool" where
  "lease_unknown (Lease_Indeterminate _) = True"
| "lease_unknown _ = False"

definition store_extend_lease ::
    "engine \<Rightarrow> Id \<Rightarrow> Id \<Rightarrow> i64 \<Rightarrow> i64 \<Rightarrow> Store \<Rightarrow> disk \<Rightarrow> (LeaseError + LeaseExtensionReceipt) \<times> Store \<times> disk" where
  "store_extend_lease en job_id lease_token new_expiry_ms now_ms s w =
     on_writer en Lease_Storage lease_unknown (extend_lease job_id lease_token new_expiry_ms now_ms) s w"

definition store_recover_claim ::
    "engine \<Rightarrow> Id \<Rightarrow> i64 \<Rightarrow> Store \<Rightarrow> disk \<Rightarrow> (RecoveryError + ClaimRecovery) \<times> Store \<times> disk" where
  "store_recover_claim en transaction_id now_ms s w =
     (case store_connection en s w of
        (Inl e, s, w) \<Rightarrow> (Inl (Recovery_Storage e), s, w)
      | (Inr conn, s, w) \<Rightarrow> (recover_claim (df_store (file_of w)) transaction_id now_ms, s, w))"

definition store_job :: "engine \<Rightarrow> Id \<Rightarrow> disk \<Rightarrow> Store \<Rightarrow> (Error + JobInfo option) \<times> Store" where
  "store_job en job_id = with_reader en (\<lambda>f. get_job (df_store f) job_id)"

definition store_jobs ::
    "engine \<Rightarrow> str option \<Rightarrow> JobState option \<Rightarrow> nat \<Rightarrow> disk \<Rightarrow> Store \<Rightarrow> (Error + JobInfo list) \<times> Store" where
  "store_jobs en queue state limit = with_reader en (\<lambda>f. list_jobs (df_store f) queue state limit)"

definition store_jobs_page ::
    "engine \<Rightarrow> str option \<Rightarrow> JobState option \<Rightarrow> u64 \<Rightarrow> nat \<Rightarrow> disk \<Rightarrow> Store
       \<Rightarrow> (Error + (JobInfo list \<times> u64)) \<times> Store" where
  "store_jobs_page en queue state after_sequence limit =
     with_reader en (\<lambda>f. list_jobs_page (df_store f) queue state after_sequence limit)"

section \<open>Operational tooling\<close>

definition store_verify :: "engine \<Rightarrow> disk \<Rightarrow> Store \<Rightarrow> (Error + VerifyReport) \<times> Store" where
  "store_verify en = with_reader en (verify (en_checks en))"

definition store_stats :: "engine \<Rightarrow> disk \<Rightarrow> Store \<Rightarrow> (Error + StoreStats) \<times> Store" where
  "store_stats en = with_reader en (stats (en_file_size en))"

definition store_diagnostic_export_with ::
    "engine \<Rightarrow> bool \<Rightarrow> disk \<Rightarrow> Store \<Rightarrow> (Error + str) \<times> Store" where
  "store_diagnostic_export_with en include_payloads =
     with_reader en (diagnostic_export (en_file_size en) include_payloads)"

definition store_diagnostic_export :: "engine \<Rightarrow> disk \<Rightarrow> Store \<Rightarrow> (Error + str) \<times> Store" where
  "store_diagnostic_export en = store_diagnostic_export_with en False"

definition store_migrations_status :: "engine \<Rightarrow> disk \<Rightarrow> Store \<Rightarrow> (Error + MigrationStatus list) \<times> Store" where
  "store_migrations_status en = with_reader en (\<lambda>f. map_err Error_Storage (status f))"

end
