(* ===== verification/CommitProperties.thy ===== *)
theory CommitProperties
  imports Commit
begin

text \<open>
  The invariant of a whole store and what a commit guarantees: atomicity, exact recovery,
  idempotent resubmission, optimistic concurrency on streams, gapless transaction and stream
  sequences, and legal evolution of every job.
\<close>

section \<open>The invariant of a store\<close>

text \<open>Transaction sequences are 1, 2, ..., n and transaction ids are unique.\<close>

definition transactions_ok :: "db \<Rightarrow> bool" where
  "transactions_ok d \<longleftrightarrow>
     map tr_transaction_sequence (db_transactions d) = [1..int (length (db_transactions d))] \<and>
     int (length (db_transactions d)) \<le> i64_max \<and>
     distinct (map tr_transaction_id (db_transactions d))"

text \<open>\<open>streams\<close> holds the number of events of each stream, as an \<open>i64\<close>.\<close>

definition streams_ok :: "db \<Rightarrow> bool" where
  "streams_ok d \<longleftrightarrow>
     distinct (map fst (db_streams d)) \<and>
     (\<forall>s v. map_of (db_streams d) s = Some v \<longrightarrow> is_i64 v) \<and>
     (\<forall>s. current_stream_version d s = of_nat (stream_count d s))"

definition store_ok :: "db \<Rightarrow> bool" where
  "store_ok d \<longleftrightarrow>
     transactions_ok d \<and> events_ok d \<and> streams_ok d \<and> projections_ok d \<and> jobs_ok d"

lemma store_okD:
  assumes "store_ok d"
  shows "transactions_ok d" "events_ok d" "streams_ok d" "projections_ok d" "jobs_ok d"
  using assms by (simp_all add: store_ok_def)

lemma empty_store_ok: "store_ok empty_db"
  by (simp add: store_ok_def empty_db_def transactions_ok_def events_ok_def streams_ok_def
      projections_ok_def jobs_ok_def rows_ok_def active_ok_def receipts_ok_def
      current_stream_version_def version_of_def stream_count_def i64_as_u64_def i64_max_def)

lemma transactions_ok_cong:
  "db_transactions d' = db_transactions d \<Longrightarrow> transactions_ok d' = transactions_ok d"
  by (simp add: transactions_ok_def)

lemma events_ok_cong:
  assumes "db_transactions d' = db_transactions d" "db_events d' = db_events d"
    "db_event_counter d' = db_event_counter d"
  shows "events_ok d' = events_ok d"
  using assms has_transaction_cong [OF assms(1)] by (simp add: events_ok_def stream_count_def)

lemma projections_ok_cong:
  "db_projection_entries d' = db_projection_entries d \<Longrightarrow>
     db_projection_meta d' = db_projection_meta d \<Longrightarrow> projections_ok d' = projections_ok d"
  by (simp add: projections_ok_def)

lemma jobs_ok_cong:
  assumes "db_transactions d' = db_transactions d" "db_jobs d' = db_jobs d"
    "db_active_partitions d' = db_active_partitions d" "db_claim_receipts d' = db_claim_receipts d"
  shows "jobs_ok d' = jobs_ok d"
  using assms has_transaction_cong [OF assms(1)] by (simp add: jobs_ok_def)

text \<open>A new transaction row keeps every other table well formed.\<close>

lemma has_transaction_snoc:
  "has_transaction (d\<lparr>db_transactions := db_transactions d @ [r]\<rparr>) i
     \<longleftrightarrow> has_transaction d i \<or> i = tr_transaction_id r"
  by (auto simp: has_transaction_def)

lemma insert_transaction_ok:
  assumes ok: "store_ok d"
    and seq: "next_sequence c (map tr_transaction_sequence (db_transactions d)) = Inr n"
    and ins: "insert_transaction r d = Inr d'" and r: "tr_transaction_sequence r = n"
  shows "store_ok d'" and "n = int (length (db_transactions d)) + 1"
    and "d' = d\<lparr>db_transactions := db_transactions d @ [r]\<rparr>"
    and "\<not> has_transaction d (tr_transaction_id r)"
    and "int (length (db_transactions d)) < i64_max"
proof -
  note okD = store_okD [OF ok]
  have "map tr_transaction_sequence (db_transactions d)
      = [1..int (length (map tr_transaction_sequence (db_transactions d)))]"
    using okD(1) by (simp add: transactions_ok_def)
  from next_sequence_upto [OF this, of c] seq
  show n: "n = int (length (db_transactions d)) + 1" and room: "int (length (db_transactions d)) < i64_max"
    by (simp_all split: if_splits)
  show d': "d' = d\<lparr>db_transactions := db_transactions d @ [r]\<rparr>"
    and fresh: "\<not> has_transaction d (tr_transaction_id r)"
    using ins by (simp_all add: insert_transaction_Inr)
  note has = has_transaction_snoc [of d r, folded d']
  have "transactions_ok d'"
    using okD(1) n r room fresh upto_snoc [of "length (db_transactions d)"]
    by (auto simp: transactions_ok_def d' has_transaction_def add.commute)
  moreover have "events_ok d'"
    using okD(2) has by (simp add: events_ok_def d' stream_count_def)
  moreover have "streams_ok d'"
    using okD(3) by (simp add: streams_ok_def d' current_stream_version_def stream_count_def)
  moreover have "projections_ok d'"
    using okD(4) projections_ok_cong [of d' d] by (simp add: d')
  moreover have "jobs_ok d'"
    using okD(5) has by (simp add: jobs_ok_def d')
  ultimately show "store_ok d'" by (simp add: store_ok_def)
qed

section \<open>The operation loop\<close>

definition version_now :: "stream_versions \<Rightarrow> db \<Rightarrow> str \<Rightarrow> u64" where
  "version_now versions d s =
     (case map_of versions s of Some v \<Rightarrow> v | None \<Rightarrow> current_stream_version d s)"

text \<open>
  Inside the loop the \<open>streams\<close> table lags behind; the map of versions makes up for it.
\<close>

definition loop_ok :: "Id \<Rightarrow> stream_versions \<times> db \<Rightarrow> bool" where
  "loop_ok t s = (case s of (versions, d) \<Rightarrow>
     transactions_ok d \<and> events_ok d \<and> projections_ok d \<and> jobs_ok d \<and>
     has_transaction d t \<and> distinct (map fst versions) \<and> distinct (map fst (db_streams d)) \<and>
     (\<forall>s. version_now versions d s = of_nat (stream_count d s)))"

text \<open>What the loop never does: touch transactions, streams or cursors, drop an event, or move
  a job against the transition table.\<close>

definition loop_rel :: "stream_versions \<times> db \<Rightarrow> stream_versions \<times> db \<Rightarrow> bool" where
  "loop_rel s s' = (case s of (_, d) \<Rightarrow> case s' of (_, d') \<Rightarrow>
     db_transactions d' = db_transactions d \<and> db_streams d' = db_streams d \<and>
     db_queue_cursors d' = db_queue_cursors d \<and>
     (\<exists>rows. db_events d' = db_events d @ rows) \<and> jobs_evolve d d')"

lemma loop_rel_refl: "loop_rel s s"
  by (auto simp: loop_rel_def split: prod.split)

lemma loop_rel_trans: "loop_rel s s' \<Longrightarrow> loop_rel s' s'' \<Longrightarrow> loop_rel s s''"
  unfolding loop_rel_def by (cases s; cases s'; cases s'') (auto intro: jobs_evolve_trans)

lemma version_now_cong:
  "db_streams d' = db_streams d \<Longrightarrow> version_now versions d' = version_now versions d"
  by (simp add: version_now_def current_stream_version_def fun_eq_iff cong: option.case_cong)

lemma version_now_update:
  "version_now (AList.update k v versions) d s = (if s = k then v else version_now versions d s)"
  by (simp add: version_now_def update_conv')

text \<open>A step on the job tables.\<close>

lemma loop_jobs:
  assumes "loop_ok t (versions, d)" and "jobs_step d d'"
  shows "loop_ok t (versions, d') \<and> loop_rel (versions, d) (versions, d')"
proof -
  note same = only_jobsD [OF jobs_stepD(2) [OF assms(2)]]
  have "stream_count d' = stream_count d"
    using same(2) by (simp add: stream_count_def fun_eq_iff)
  then show ?thesis
    using assms(1) jobs_stepD [OF assms(2)] same transactions_ok_cong [OF same(1)]
      events_ok_cong [OF same(1,2,3)] projections_ok_cong [OF same(6,5)]
      has_transaction_cong [OF same(1)] version_now_cong [OF same(4)]
    by (simp add: loop_ok_def loop_rel_def)
qed

lemma only_projectionD:
  assumes "only_projection p d d'"
  shows "db_transactions d' = db_transactions d" "db_events d' = db_events d"
    "db_event_counter d' = db_event_counter d" "db_streams d' = db_streams d"
    "db_jobs d' = db_jobs d" "db_active_partitions d' = db_active_partitions d"
    "db_claim_receipts d' = db_claim_receipts d" "db_queue_cursors d' = db_queue_cursors d"
  using assms by (cases d; cases d'; simp add: only_projection_def)+

text \<open>A step on one projection.\<close>

lemma loop_projection:
  assumes "loop_ok t (versions, d)" and "only_projection p d d'" and "projections_ok d'"
  shows "loop_ok t (versions, d') \<and> loop_rel (versions, d) (versions, d')"
proof -
  note same = only_projectionD [OF assms(2)]
  have "stream_count d' = stream_count d"
    using same(2) by (simp add: stream_count_def fun_eq_iff)
  then show ?thesis
    using assms(1,3) same transactions_ok_cong [OF same(1)]
      events_ok_cong [OF same(1,2,3)] jobs_ok_cong [OF same(1,5,6,7)]
      has_transaction_cong [OF same(1)] version_now_cong [OF same(4)] jobs_evolve_cong [OF same(5)]
    by (simp add: loop_ok_def loop_rel_def)
qed

lemma apply_patch_InrD:
  "projections_ok d \<Longrightarrow> apply_patch p d = Inr d' \<Longrightarrow>
     only_projection (pp_projection p) d d' \<and> projections_ok d'"
  using apply_patch_outcome [of d p] by simp

lemma of_nat_version_add:
  assumes "int n < i64_max"
  shows "checked_add_u64 (of_nat n) 1 = Some (of_nat (n + 1))"
    and "u64_as_i64 (of_nat (n + 1)) = int n + 1"
proof -
  have "uint (of_nat n :: u64) = int n"
    using assms by (simp add: i64_max_def uint_nat unat_of_nat)
  then show "checked_add_u64 (of_nat n) 1 = Some (of_nat (n + 1))"
    using assms by (simp add: checked_add_u64_def i64_max_def)
  show "u64_as_i64 (of_nat (n + 1)) = int n + 1"
    using assms u64_as_i64_of_nat [of "n + 1"] by simp
qed

text \<open>Appending an event: the version assigned is the next one of its stream.\<close>

lemma loop_event:
  assumes ok: "loop_ok t (versions, d)" and t: "t = cb_transaction_id b"
    and run: "run_operation b (AppendEvent e) (versions, d) = Inr s'"
  obtains d' where "insert_event t e (of_nat (stream_count d (ev_stream_id e) + 1)) d = Inr d'"
    "s' = (AList.update (ev_stream_id e) (of_nat (stream_count d (ev_stream_id e) + 1)) versions, d')"
    "loop_ok t s'" "loop_rel (versions, d) s'"
proof -
  let ?s = "ev_stream_id e"
  let ?n = "stream_count d ?s"
  have now: "(case map_of versions ?s of Some v \<Rightarrow> v | None \<Rightarrow> current_stream_version d ?s) = of_nat ?n"
    using ok by (simp add: loop_ok_def version_now_def)
  have events: "events_ok d" using ok by (simp add: loop_ok_def)
  obtain v d' where v: "checked_add_u64 (of_nat ?n) 1 = Some v" and ins: "insert_event t e v d = Inr d'"
    and s': "s' = (AList.update ?s v versions, d')"
    using run t unfolding run_operation.simps Let_def now
    by (auto simp: and_then_Inr_iff)
  have "int (length (db_events d)) < i64_max"
    using ins events by (auto simp: insert_event_def insert_event_row_Inr events_ok_def)
  moreover have "?n \<le> length (db_events d)"
    by (simp add: stream_count_def in_stream_def)
  ultimately have room: "int ?n < i64_max" by linarith
  then have veq: "v = of_nat (?n + 1)" and next_version: "u64_as_i64 v = int ?n + 1"
    using v of_nat_version_add [OF room] by auto
  note ev = insert_event_ok [OF events ins next_version]
  have frame: "db_transactions d' = db_transactions d" "db_streams d' = db_streams d"
    "db_queue_cursors d' = db_queue_cursors d" "db_jobs d' = db_jobs d"
    "db_active_partitions d' = db_active_partitions d" "db_claim_receipts d' = db_claim_receipts d"
    "db_projection_entries d' = db_projection_entries d" "db_projection_meta d' = db_projection_meta d"
    "\<exists>rows. db_events d' = db_events d @ rows"
    using ins by (auto simp: insert_event_def insert_event_row_Inr)
  have "version_now (AList.update ?s v versions) d' s = of_nat (stream_count d' s)" for s
    using ok ev(2) [of s] veq version_now_cong [OF frame(2)]
    by (simp add: loop_ok_def version_now_update)
  then have "loop_ok t s'"
    using ok ev(1) frame transactions_ok_cong [OF frame(1)] projections_ok_cong [OF frame(7,8)]
      jobs_ok_cong [OF frame(1,4,5,6)] has_transaction_cong [OF frame(1)]
    by (simp add: loop_ok_def s' distinct_update)
  moreover have "loop_rel (versions, d) s'"
    using frame jobs_evolve_cong [OF frame(4)] by (simp add: loop_rel_def s')
  ultimately show ?thesis using that ins s' veq by simp
qed

lemma loop_step:
  assumes "loop_ok (cb_transaction_id b) s" and "run_operation b op s = Inr s'"
  shows "loop_ok (cb_transaction_id b) s' \<and> loop_rel s s'"
proof -
  obtain versions d where s: "s = (versions, d)" by fastforce
  have ok: "loop_ok (cb_transaction_id b) (versions, d)" using assms(1) s by simp
  then have inner: "jobs_ok d" "projections_ok d" by (simp_all add: loop_ok_def)
  note jobs = loop_jobs [OF ok]
  show ?thesis
  proof (cases op)
    case (AppendEvent e)
    then show ?thesis using loop_event [OF ok refl] assms(2) s by blast
  next
    case (ProjectionPatch p)
    then show ?thesis
      using assms(2) loop_projection [OF ok] apply_patch_InrD [OF inner(2)]
      by (auto simp: s and_then_Inr_iff)
  next
    case (EnqueueJob spec)
    then show ?thesis
      using assms(2) jobs apply_enqueue_step [OF inner(1)] by (auto simp: s and_then_Inr_iff)
  next
    case (AckJob a)
    then show ?thesis
      using assms(2) jobs row_operations_step(1) [OF inner(1)] by (auto simp: s and_then_Inr_iff)
  next
    case (FailJob f)
    then show ?thesis
      using assms(2) jobs row_operations_step(2) [OF inner(1)] by (auto simp: s and_then_Inr_iff)
  next
    case (CancelJob c)
    then show ?thesis
      using assms(2) jobs row_operations_step(3) [OF inner(1)] by (auto simp: s and_then_Inr_iff)
  next
    case (ResolveJob r)
    then show ?thesis
      using assms(2) jobs row_operations_step(4) [OF inner(1)] by (auto simp: s and_then_Inr_iff)
  next
    case (ExtendLease x)
    then show ?thesis
      using assms(2) jobs apply_extend_lease_step [OF inner(1)] by (auto simp: s and_then_Inr_iff)
  qed
qed

interpretation operations: fallible_loop "run_operation b" "loop_ok (cb_transaction_id b)" loop_rel for b
  by unfold_locales (fact loop_step loop_rel_refl | rule loop_rel_trans, assumption, assumption)+

section \<open>The events of a commit\<close>

fun operation_events :: "Operation \<Rightarrow> Event list" where
  "operation_events (AppendEvent e) = [e]"
| "operation_events op = []"

definition batch_events :: "CommitBatch \<Rightarrow> Event list" where
  "batch_events b = concat (map operation_events (cb_operations b))"

definition row_event :: "EventRow \<Rightarrow> Event" where
  "row_event r = pe_event (persisted r)"

text \<open>\<open>d'\<close> has the rows of \<open>d\<close> followed by those of the events \<open>es\<close> of transaction \<open>t\<close>.\<close>

definition appends :: "Id \<Rightarrow> Event list \<Rightarrow> db \<Rightarrow> db \<Rightarrow> bool" where
  "appends t es d d' \<longleftrightarrow>
     (\<exists>rows. db_events d' = db_events d @ rows \<and> map row_event rows = es \<and>
       (\<forall>r \<in> set rows. er_transaction_id r = t))"

lemma appends_none: "db_events d' = db_events d \<Longrightarrow> appends t [] d d'"
  by (simp add: appends_def)

lemma appends_trans: "appends t es d d' \<Longrightarrow> appends t es' d' d'' \<Longrightarrow> appends t (es @ es') d d''"
  unfolding appends_def by (elim exE conjE) (simp, blast)

lemma insert_event_appends:
  "insert_event t e v d = Inr d' \<Longrightarrow> appends t [e] d d'"
  by (auto simp: insert_event_def insert_event_row_Inr appends_def row_event_def persisted_def)

lemma operation_appends:
  assumes "loop_ok (cb_transaction_id b) (versions, d)" and "run_operation b op (versions, d) = Inr (versions', d')"
  shows "appends (cb_transaction_id b) (operation_events op) d d'"
proof -
  have inner: "jobs_ok d" "projections_ok d" using assms(1) by (simp_all add: loop_ok_def)
  have job: "appends (cb_transaction_id b) [] d d'" if "jobs_step d d'"
    using only_jobsD(2) [OF jobs_stepD(2) [OF that]] by (rule appends_none)
  note steps = row_operations_step [OF inner(1)] apply_enqueue_step [OF inner(1)]
    apply_extend_lease_step [OF inner(1)]
  show ?thesis
  proof (cases op)
    case (AppendEvent e)
    then show ?thesis
      using assms(2) insert_event_appends by (auto simp: and_then_Inr_iff Let_def)
  next
    case (ProjectionPatch p)
    then show ?thesis
      using assms(2) apply_patch_InrD [OF inner(2), of p]
      by (auto simp: and_then_Inr_iff intro!: appends_none only_projectionD(2))
  qed (use assms(2) job steps in \<open>auto simp: and_then_Inr_iff\<close>)
qed

lemma operations_append:
  assumes "loop_ok (cb_transaction_id b) s" and "fold_res (run_operation b) ops s = Inr s'"
  shows "appends (cb_transaction_id b) (concat (map operation_events ops)) (snd s) (snd s')"
  using assms
proof (induction ops arbitrary: s)
  case Nil
  then show ?case by (simp add: appends_none)
next
  case (Cons op ops)
  then obtain s1 where s1: "run_operation b op s = Inr s1" "fold_res (run_operation b) ops s1 = Inr s'"
    by (auto simp: and_then_Inr_iff)
  have "appends (cb_transaction_id b) (operation_events op) (snd s) (snd s1)"
    using operation_appends [of b "fst s" "snd s" op "fst s1" "snd s1"] Cons.prems(1) s1(1) by simp
  moreover have "loop_ok (cb_transaction_id b) s1"
    using loop_step [OF Cons.prems(1) s1(1)] by simp
  ultimately show ?case
    using Cons.IH [OF _ s1(2)] appends_trans by simp
qed

section \<open>The body of a commit\<close>

text \<open>The loop over the expected versions accepts exactly when all of them are current.\<close>

lemma check_expected_ok:
  assumes "fold_res (check_expected d) es versions = Inr versions'"
    and "distinct (map fst versions)" and "\<forall>s. version_now versions d s = current_stream_version d s"
  shows "(\<forall>e \<in> set es. current_stream_version d (es_stream_id e) = es_version e) \<and>
    distinct (map fst versions') \<and> (\<forall>s. version_now versions' d s = current_stream_version d s)"
  using assms
proof (induction es arbitrary: versions)
  case (Cons e es)
  let ?v = "AList.update (es_stream_id e) (current_stream_version d (es_stream_id e)) versions"
  have cur: "current_stream_version d (es_stream_id e) = es_version e"
    using Cons.prems(1) by (simp add: check_expected_def Let_def split: if_splits)
  have rest: "fold_res (check_expected d) es ?v = Inr versions'"
    using Cons.prems(1) cur by (simp add: check_expected_def [of d e])
  have "\<forall>s. version_now ?v d s = current_stream_version d s"
    using Cons.prems(3) by (auto simp: version_now_update)
  from Cons.IH [OF rest distinct_update [OF Cons.prems(2)] this] show ?case
    using cur unfolding list.set(2) ball_simps by blast
qed simp

lemma check_expected_total:
  "\<forall>e \<in> set es. current_stream_version d (es_stream_id e) = es_version e \<Longrightarrow>
     \<exists>versions'. fold_res (check_expected d) es versions = Inr versions'"
  by (induction es arbitrary: versions) (simp_all add: check_expected_def)

lemma check_expected_conflict:
  assumes "\<forall>e \<in> set es. current_stream_version d (es_stream_id e) = es_version e"
    and "current_stream_version d (es_stream_id x) \<noteq> es_version x"
  shows "fold_res (check_expected d) (es @ x # rest) versions =
    Inl (Commit_Conflict (StreamVersionConflict (es_stream_id x) (es_version x)
      (current_stream_version d (es_stream_id x))))"
  using assms(1)
  by (induction es arbitrary: versions) (use assms(2) in \<open>simp_all add: check_expected_def\<close>)

text \<open>Writing the versions back: the table then holds what the loop saw.\<close>

lemma upsert_as_put_all:
  "fold (\<lambda>(s, v). AList.update s (u64_as_i64 v)) versions t =
     fold (\<lambda>(s, v). AList.update s v) (map (\<lambda>(s, v). (s, u64_as_i64 v)) versions) t"
  by (induction versions arbitrary: t) auto

lemma map_of_rev_distinct: "distinct (map fst kvs) \<Longrightarrow> map_of (rev kvs) = map_of kvs"
  by (rule map_of_inject_set [THEN iffD2]) (auto simp: rev_map [symmetric])

lemma upsert_streams_map:
  assumes "distinct (map fst versions)"
  shows "map_of (db_streams (upsert_streams versions d)) =
    map_of (db_streams d) ++ (map_option u64_as_i64 \<circ> map_of versions)"
proof -
  let ?kvs = "map (\<lambda>(s, v). (s, u64_as_i64 v)) versions"
  have keys: "map fst ?kvs = map fst versions" by (induction versions) auto
  have "map_of (rev ?kvs) = map_of ?kvs"
    by (rule map_of_rev_distinct) (simp only: keys assms)
  then show ?thesis
    by (simp add: upsert_streams_def upsert_as_put_all assoc.get_put_all map_of_map)
qed

lemma upsert_streams_version:
  assumes "distinct (map fst versions)"
  shows "current_stream_version (upsert_streams versions d) s = version_now versions d s"
  by (simp add: current_stream_version_def version_of_def version_now_def
      upsert_streams_map [OF assms] map_add_def split: option.split)

lemma upsert_streams_distinct:
  "distinct (map fst (db_streams d)) \<Longrightarrow> distinct (map fst (db_streams (upsert_streams versions d)))"
proof -
  assume "distinct (map fst (db_streams d))"
  then have "distinct (map fst (fold (\<lambda>(s, v). AList.update s (u64_as_i64 v)) versions t))"
    if "distinct (map fst t)" for t :: "(str \<times> i64) list"
    using that by (induction versions arbitrary: t) (auto simp: distinct_update)
  then show ?thesis
    using \<open>distinct (map fst (db_streams d))\<close> by (simp add: upsert_streams_def)
qed

lemma upsert_streams_frame [simp]: "db_transactions (upsert_streams vs d) = db_transactions d"
  "db_events (upsert_streams vs d) = db_events d" "db_event_counter (upsert_streams vs d) = db_event_counter d"
  "db_jobs (upsert_streams vs d) = db_jobs d" "db_active_partitions (upsert_streams vs d) = db_active_partitions d"
  "db_claim_receipts (upsert_streams vs d) = db_claim_receipts d"
  "db_projection_entries (upsert_streams vs d) = db_projection_entries d"
  "db_projection_meta (upsert_streams vs d) = db_projection_meta d" "db_queue_cursors (upsert_streams vs d) = db_queue_cursors d"
  by (simp_all add: upsert_streams_def)

text \<open>Writing the versions back after the loop restores the invariant of the store.\<close>

lemma loop_finish:
  assumes "loop_ok t (versions, d)" and "\<And>s v. map_of (db_streams d) s = Some v \<Longrightarrow> is_i64 v"
  shows "store_ok (upsert_streams versions d)"
proof -
  let ?d = "upsert_streams versions d"
  have l: "transactions_ok d" "events_ok d" "projections_ok d" "jobs_ok d"
    "distinct (map fst versions)" "distinct (map fst (db_streams d))"
    "\<And>s. version_now versions d s = of_nat (stream_count d s)"
    using assms(1) by (simp_all add: loop_ok_def)
  have "streams_ok ?d"
    using l(5-7) assms(2) upsert_streams_version [OF l(5), of d] upsert_streams_distinct [OF l(6), of versions]
    by (auto simp: streams_ok_def stream_count_def upsert_streams_map [OF l(5)] map_add_def split: option.splits)
  then show ?thesis
    using l transactions_ok_cong [of ?d d] events_ok_cong [of ?d d] projections_ok_cong [of ?d d] jobs_ok_cong [of ?d d]
    by (simp add: store_ok_def)
qed

text \<open>A batch that is written runs its operations from the store with its transaction row.\<close>

lemma write_batch_loop:
  assumes ok: "store_ok d" and wb: "write_batch b d = Inr (n, d')"
  obtains versions versions2 d2 where
    "n = int (length (db_transactions d)) + 1" "n \<le> i64_max" "\<not> has_transaction d (cb_transaction_id b)"
    "\<forall>e \<in> set (cb_expected_stream_versions b). current_stream_version d (es_stream_id e) = es_version e"
    "loop_ok (cb_transaction_id b) (versions, d\<lparr>db_transactions := db_transactions d @ [batch_row b n]\<rparr>)"
    "fold_res (run_operation b) (cb_operations b)
       (versions, d\<lparr>db_transactions := db_transactions d @ [batch_row b n]\<rparr>) = Inr (versions2, d2)"
    "d' = upsert_streams versions2 d2"
proof -
  obtain versions d1 versions2 d2 where
    exp: "fold_res (check_expected d) (cb_expected_stream_versions b) [] = Inr versions"
    and seq: "next_sequence ''transactions.transaction_sequence''
      (map tr_transaction_sequence (db_transactions d)) = Inr n"
    and ins: "insert_transaction (batch_row b n) d = Inr d1"
    and ops: "fold_res (run_operation b) (cb_operations b) (versions, d1) = Inr (versions2, d2)"
    and d': "d' = upsert_streams versions2 d2"
    using wb by (auto simp: write_batch_def and_then_Inr_iff)
  have rowb: "tr_transaction_sequence (batch_row b n) = n" "tr_transaction_id (batch_row b n) = cb_transaction_id b"
    by (simp_all add: batch_row_def)
  note row = insert_transaction_ok [OF ok seq ins rowb(1)]
  have empty: "\<forall>s. version_now [] d s = current_stream_version d s"
    by (simp add: version_now_def)
  note expected = check_expected_ok [OF exp _ empty]
  have "version_now versions d1 s = of_nat (stream_count d1 s)" for s
    using expected version_now_cong [of d1 d] store_okD(3) [OF ok]
    by (simp add: row(3) streams_ok_def stream_count_def)
  then have start: "loop_ok (cb_transaction_id b) (versions, d1)"
    using row(1) expected rowb(2) has_transaction_snoc [of d "batch_row b n"]
    by (simp add: loop_ok_def store_ok_def row(3) streams_ok_def)
  show ?thesis
    using that [OF row(2) _ _ _ start [unfolded row(3)] ops [unfolded row(3)] d'] row(2,4,5) rowb(2) expected
    by simp
qed

lemma write_batch_InrD:
  assumes ok: "store_ok d" and wb: "write_batch b d = Inr (n, d')"
  shows "store_ok d'" and "n = int (length (db_transactions d)) + 1"
    and "db_transactions d' = db_transactions d @ [batch_row b n]"
    and "\<not> has_transaction d (cb_transaction_id b)"
    and "\<forall>e \<in> set (cb_expected_stream_versions b). current_stream_version d (es_stream_id e) = es_version e"
    and "appends (cb_transaction_id b) (batch_events b) d d'"
    and "jobs_evolve d d'" and "db_queue_cursors d' = db_queue_cursors d"
    and "n \<le> i64_max"
proof -
  let ?d1 = "d\<lparr>db_transactions := db_transactions d @ [batch_row b n]\<rparr>"
  obtain versions versions2 d2 where L: "n = int (length (db_transactions d)) + 1" "n \<le> i64_max"
    "\<not> has_transaction d (cb_transaction_id b)"
    "\<forall>e \<in> set (cb_expected_stream_versions b). current_stream_version d (es_stream_id e) = es_version e"
    and start: "loop_ok (cb_transaction_id b) (versions, ?d1)"
    and ops: "fold_res (run_operation b) (cb_operations b) (versions, ?d1) = Inr (versions2, d2)"
    and d': "d' = upsert_streams versions2 d2"
    by (rule write_batch_loop [OF assms])
  show "n = int (length (db_transactions d)) + 1" "n \<le> i64_max" "\<not> has_transaction d (cb_transaction_id b)"
    "\<forall>e \<in> set (cb_expected_stream_versions b). current_stream_version d (es_stream_id e) = es_version e"
    by (fact L)+
  note loop = operations.loop [OF start ops]
  from loop have r: "db_transactions d2 = db_transactions ?d1" "db_queue_cursors d2 = db_queue_cursors d"
    "\<exists>rows. db_events d2 = db_events d @ rows" "jobs_evolve ?d1 d2" "db_streams d2 = db_streams d"
    by (simp_all add: loop_rel_def)
  have "is_i64 v" if "map_of (db_streams d2) s = Some v" for s v
    using that store_okD(3) [OF ok] r(5) by (auto simp: streams_ok_def)
  then show "store_ok d'" using loop_finish [of "cb_transaction_id b" versions2 d2] loop by (simp add: d')
  show "db_transactions d' = db_transactions d @ [batch_row b n]" using r(1) by (simp add: d')
  show "appends (cb_transaction_id b) (batch_events b) d d'"
    using operations_append [OF start ops] by (simp add: appends_def batch_events_def d')
  show "jobs_evolve d d'"
    using r(4) jobs_evolve_cong [of ?d1 d] jobs_evolve_cong [of d' d2] jobs_evolve_trans by (auto simp: d')
  show "db_queue_cursors d' = db_queue_cursors d" using r(2) by (simp add: d')
qed

section \<open>Outcomes of a commit\<close>

text \<open>An error that no part of a computation returns is not returned by the whole.\<close>

lemma no_error:
  "m \<noteq> Inl e \<Longrightarrow> (\<And>x. f x \<noteq> Inl e) \<Longrightarrow> and_then m f \<noteq> Inl e"
  "(\<And>x. h x \<noteq> e) \<Longrightarrow> map_err h m' \<noteq> Inl e"
  "(\<And>x t. body x t \<noteq> Inl e) \<Longrightarrow> fold_res body xs s \<noteq> Inl e"
proof -
  show no: "m \<noteq> Inl e \<Longrightarrow> (\<And>x. f x \<noteq> Inl e) \<Longrightarrow> and_then m f \<noteq> Inl e" for m and f :: "_ \<Rightarrow> _ + 'x"
    by (cases m) auto
  show "(\<And>x. h x \<noteq> e) \<Longrightarrow> map_err h m' \<noteq> Inl e"
    by (cases m') auto
  show "(\<And>x t. body x t \<noteq> Inl e) \<Longrightarrow> fold_res body xs s \<noteq> Inl e"
    by (induction xs arbitrary: s) (auto simp: and_then_Inl_iff)
qed

lemma commit_error_definite: "commit_error_of e \<noteq> Commit_Indeterminate i"
  by (cases e) auto

lemma lease_error_definite: "lease_commit_error e \<noteq> Commit_Indeterminate i"
  by (cases e) auto

text \<open>No error before \<open>COMMIT\<close> is reported as indeterminate.\<close>

lemma run_operation_definite: "run_operation b op s \<noteq> Inl (Commit_Indeterminate i)"
proof -
  obtain versions d where "s = (versions, d)" by fastforce
  then show ?thesis
    by (cases op) (auto simp: and_then_Inl_iff map_err_Inl_iff Let_def
        dest: commit_error_definite [THEN notE, OF sym] lease_error_definite [THEN notE, OF sym])
qed

lemma check_expected_definite: "check_expected d x s \<noteq> Inl (Commit_Indeterminate i)"
  by (simp add: check_expected_def Let_def)

lemma write_batch_definite: "write_batch b d \<noteq> Inl (Commit_Indeterminate i)"
  unfolding write_batch_def
  by (intro no_error check_expected_definite run_operation_definite CommitError.distinct)
    (simp add: split_beta)

lemma attempt_batch_Inr: "attempt_batch io b d = Inr x \<Longrightarrow> io_write io = None \<and> write_batch b d = Inr x"
  by (auto simp: attempt_batch_def and_then_Inr_iff split: option.splits)

lemma attempt_batch_definite: "attempt_batch io b d \<noteq> Inl (Commit_Indeterminate i)"
proof (cases "io_write io")
  case None
  then show ?thesis by (simp add: attempt_batch_def write_batch_definite)
next
  case (Some msg)
  show ?thesis
    unfolding attempt_batch_def Some option.case
    by (intro no_error check_expected_definite CommitError.distinct) simp
qed

text \<open>What a commit can do: nothing, or everything.\<close>

lemma commit_outcomes:
  assumes "commit l b io d = (res, d')"
  obtains (refused) e where "res = Inl e" "d' = d" "\<nexists>i. e = Commit_Indeterminate i"
  | (resubmitted) n at where "res = Inr \<lparr>rc_transaction_id = cb_transaction_id b,
        rc_transaction_sequence = n, rc_committed_at_ms = at\<rparr>" "d' = d"
      "lookup_transaction d (cb_transaction_id b) = Some (n, at, request_digest b)"
  | (committed) n where "res = Inr \<lparr>rc_transaction_id = cb_transaction_id b,
        rc_transaction_sequence = i64_as_u64 n, rc_committed_at_ms = cb_committed_at_ms b\<rparr>"
      "write_batch b d = Inr (n, d')" "lookup_transaction d (cb_transaction_id b) = None"
  | (unknown) n msg new where "res = Inl (Commit_Indeterminate \<lparr>ic_transaction_id = cb_transaction_id b,
        ic_storage_error = msg\<rparr>)" "write_batch b d = Inr (n, new)" "d' = d \<or> d' = new"
      "lookup_transaction d (cb_transaction_id b) = None"
  using assms that attempt_batch_definite [of io b d]
  by (auto simp: commit_def commit_step_def dest!: attempt_batch_Inr
      split: sum.splits option.splits prod.splits if_splits)

end
