(* ===== verification/CommitGuarantees.thy ===== *)
theory CommitGuarantees
  imports CommitProperties
begin

text \<open>
  What a caller of \<open>commit\<close> and \<open>recover_transaction\<close> may rely on, and the concrete batch the
  witnesses run.
\<close>

section \<open>A concrete commit\<close>

definition sample_event :: "Id \<Rightarrow> str \<Rightarrow> Event" where
  "sample_event i s =
     \<lparr>ev_event_id = i, ev_stream_id = s, ev_event_type = ''created'', ev_schema_version = 1,
      ev_occurred_at_ms = 5, ev_causation_id = None, ev_correlation_id = None,
      ev_payload = [1], ev_metadata = []\<rparr>"

definition sample_batch :: CommitBatch where
  "sample_batch =
     enqueue_job (append_event (expect_stream_version (batch_new (id_from_u128 1) 10) ''s'' 0)
       (sample_event (id_from_u128 2) ''s''))
       (reconcilable (id_from_u128 3) ''q'' ''p'' [9])"

definition sample_event_row :: EventRow where
  "sample_event_row =
     \<lparr>er_global_sequence = 1, er_event_id = id_from_u128 2, er_transaction_id = id_from_u128 1,
      er_stream_id = ''s'', er_stream_version = 1, er_event_type = ''created'',
      er_schema_version = 1, er_occurred_at_ms = 5, er_causation_id = None,
      er_correlation_id = None, er_payload = [1], er_metadata = []\<rparr>"

definition sample_db :: db where
  "sample_db =
     empty_db\<lparr>db_transactions := [batch_row sample_batch 1], db_events := [sample_event_row],
       db_event_counter := 1, db_streams := [(''s'', 1)],
       db_jobs := [new_job_row (id_from_u128 1) (reconcilable (id_from_u128 3) ''q'' ''p'' [9]) 1],
       db_active_partitions := [((''q'', ''p''), 1)]\<rparr>"

definition sample_receipt :: CommitReceipt where
  "sample_receipt =
     \<lparr>rc_transaction_id = id_from_u128 1, rc_transaction_sequence = 1, rc_committed_at_ms = 10\<rparr>"

lemma MkId_ZERO_iff [simp]: "MkId w = ZERO \<longleftrightarrow> w = 0"
  by (simp add: ZERO_def)

lemmas sample_simps = sample_batch_def enqueue_job_def append_event_def expect_stream_version_def
  push_operation_def batch_new_def sample_event_def reconcilable_def job_base_def

lemma sample_valid: "validate_batch default_limits sample_batch = Inr ()"
  by (simp add: validate_batch_def sample_simps default_limits_def result_simps)

lemma sample_write: "write_batch sample_batch empty_db = Inr (1, sample_db)"
proof -
  have "cb_expected_stream_versions sample_batch = [\<lparr>es_stream_id = ''s'', es_version = 0\<rparr>]"
    "cb_operations sample_batch = [AppendEvent (sample_event (MkId 2) ''s''),
       EnqueueJob (reconcilable (MkId 3) ''q'' ''p'' [9])]"
    "cb_transaction_id sample_batch = MkId 1"
    by (simp_all add: sample_simps)
  then show ?thesis
    by (simp add: write_batch_def check_expected_def current_stream_version_def version_of_def
        i64_as_u64_def empty_db_def next_sequence_def i64_max_def insert_transaction_def
        has_transaction_def batch_row_def insert_event_def insert_event_row_def
        checked_add_u64_def apply_enqueue_def insert_job_def job_checks_def new_job_row_def
        reconcilable_def job_base_def activate_partition_def upsert_streams_def
        sample_event_def sample_event_row_def sample_db_def u64_as_i64_def)
qed

lemma sample_fresh: "lookup_transaction empty_db i = None"
  by (simp add: lookup_transaction_def empty_db_def)

lemma sample_commit:
  "commit default_limits sample_batch healthy empty_db = (Inr sample_receipt, sample_db)"
  by (simp add: commit_def attempt_batch_def sample_valid healthy_def sample_fresh sample_write commit_step_def
      sample_receipt_def i64_as_u64_def) (simp add: sample_simps)

section \<open>Finding a transaction\<close>

lemma lookup_transaction_None: "lookup_transaction d i = None \<longleftrightarrow> \<not> has_transaction d i"
  by (auto simp: lookup_transaction_def find_key_None has_transaction_def)

lemma lookup_transaction_kept:
  "lookup_transaction d i = Some x \<Longrightarrow> db_transactions d' = db_transactions d @ rest \<Longrightarrow>
     lookup_transaction d' i = Some x"
  by (auto simp: lookup_transaction_def find_append)

lemma recover_as_lookup:
  "recover_transaction d i = Inr (case lookup_transaction d i of
     None \<Rightarrow> Tx_Absent
   | Some (n, at, _) \<Rightarrow> Tx_Committed \<lparr>rc_transaction_id = i, rc_transaction_sequence = n, rc_committed_at_ms = at\<rparr>)"
  by (simp add: recover_transaction_def lookup_transaction_def split: option.split)

lemma lookup_after_write:
  assumes "store_ok d" and "write_batch b d = Inr (n, d')"
  shows "lookup_transaction d' (cb_transaction_id b)
    = Some (i64_as_u64 n, cb_committed_at_ms b, request_digest b)"
proof -
  have "find (\<lambda>r. tr_transaction_id r = cb_transaction_id b) (db_transactions d) = None"
    using write_batch_InrD(4) [OF assms] by (auto simp: find_key_None has_transaction_def)
  then show ?thesis
    using write_batch_InrD(3) [OF assms] by (simp add: lookup_transaction_def find_append batch_row_def)
qed

text \<open>A successful commit leaves its receipt behind.\<close>

lemma lookup_after_commit:
  assumes "store_ok d" and "commit l b io d = (Inr r, d')"
  shows "lookup_transaction d' (cb_transaction_id b)
    = Some (rc_transaction_sequence r, rc_committed_at_ms r, request_digest b)"
    and "rc_transaction_id r = cb_transaction_id b"
proof -
  have "lookup_transaction d' (cb_transaction_id b)
      = Some (rc_transaction_sequence r, rc_committed_at_ms r, request_digest b) \<and>
    rc_transaction_id r = cb_transaction_id b"
    using assms(2) by (cases rule: commit_outcomes) (auto dest: lookup_after_write [OF assms(1)])
  then show "lookup_transaction d' (cb_transaction_id b)
      = Some (rc_transaction_sequence r, rc_committed_at_ms r, request_digest b)"
    "rc_transaction_id r = cb_transaction_id b" by simp_all
qed

section \<open>Guarantees\<close>

text \<open>
  A commit, whatever its outcome, leaves a well-formed store: transaction and event sequences
  without gaps, stream versions equal to the number of events, the job invariants. It never
  rewrites or drops a transaction or an event, and moves every job only along the state machine.
\<close>

theorem commit_keeps_store:
  assumes "store_ok d" and "commit l b io d = (res, d')"
  shows "store_ok d' \<and> jobs_evolve d d' \<and> db_queue_cursors d' = db_queue_cursors d \<and>
    (\<exists>ts es. db_transactions d' = db_transactions d @ ts \<and> db_events d' = db_events d @ es)"
proof -
  have "store_ok new \<and> jobs_evolve d new \<and> db_queue_cursors new = db_queue_cursors d \<and>
    (\<exists>ts es. db_transactions new = db_transactions d @ ts \<and> db_events new = db_events d @ es)"
    if "write_batch b d = Inr (n, new)" for n new
    using write_batch_InrD [OF assms(1) that] by (auto simp: appends_def)
  note written = this
  from assms(2) show ?thesis
    by (cases rule: commit_outcomes) (use assms(1) written in auto)
qed

theorem commit_keeps_store_witness: "store_ok sample_db \<and> db_events sample_db = [sample_event_row]"
  using commit_keeps_store [OF empty_store_ok sample_commit] by (simp add: sample_db_def)

text \<open>
  A commit is atomic and recoverable. An acknowledged commit is found by
  \<open>recover_transaction\<close> with the receipt that was returned. A definite error changes nothing. An
  unknown outcome names the transaction, the store is the old one or the fully written one, and
  \<open>recover_transaction\<close> tells which.
\<close>

theorem commit_recoverable:
  assumes "store_ok d" and "commit l b io d = (res, d')"
  shows "case res of
      Inr r \<Rightarrow> recover_transaction d' (cb_transaction_id b) = Inr (Tx_Committed r)
    | Inl (Commit_Indeterminate i) \<Rightarrow>
        ic_transaction_id i = cb_transaction_id b \<and>
        (\<exists>n new. write_batch b d = Inr (n, new) \<and>
          (d' = d \<and> recover_transaction d' (cb_transaction_id b) = Inr Tx_Absent \<or>
           d' = new \<and> recover_transaction d' (cb_transaction_id b)
             = Inr (Tx_Committed \<lparr>rc_transaction_id = cb_transaction_id b,
                 rc_transaction_sequence = i64_as_u64 n,
                 rc_committed_at_ms = cb_committed_at_ms b\<rparr>)))
    | Inl _ \<Rightarrow> d' = d"
  using assms(2)
proof (cases rule: commit_outcomes)
  case (refused e)
  then show ?thesis by (cases e) auto
next
  case (unknown n msg new)
  then show ?thesis
    using lookup_after_write [OF assms(1) unknown(2)] by (auto simp: recover_as_lookup)
qed (use lookup_after_commit [OF assms(1)] assms(2) in \<open>auto simp: recover_as_lookup\<close>)

theorem commit_recoverable_witness:
  "recover_transaction sample_db (cb_transaction_id sample_batch) = Inr (Tx_Committed sample_receipt)"
  using commit_recoverable [OF empty_store_ok sample_commit] by simp

lemma commit_again:
  assumes "store_ok d" and "commit l b io d = (Inr r, d')"
    and "db_transactions later = db_transactions d' @ rest"
    and "cb_transaction_id b' = cb_transaction_id b" and "validate_batch l' b' = Inr ()"
    and "io_begin io' = None"
  shows "commit l' b' io' later =
    (if request_digest b' = request_digest b then Inr r else Inl DuplicateIdWithDifferentContent, later)"
  using assms(4-6) lookup_transaction_kept [OF lookup_after_commit(1) [OF assms(1,2)] assms(3)]
    lookup_after_commit(2) [OF assms(1,2)]
  by (auto simp: commit_def)

text \<open>
  Resubmission is idempotent for as long as the store lives: once a transaction id has
  committed, submitting it again, after any later transactions, writes nothing; the original
  receipt comes back when the content digest is the same, and an error otherwise.
\<close>

theorem commit_resubmit:
  assumes "store_ok d" and "commit l b io d = (Inr r, d')"
    and "db_transactions later = db_transactions d' @ rest"
    and "cb_transaction_id b' = cb_transaction_id b" and "validate_batch l' b' = Inr ()"
    and "io_begin io' = None"
  shows "commit l' b' io' later =
    (if request_digest b' = request_digest b then Inr r else Inl DuplicateIdWithDifferentContent, later)"
  by (rule commit_again [OF assms])

theorem commit_resubmit_witness:
  "commit default_limits sample_batch healthy sample_db = (Inr sample_receipt, sample_db)"
  using commit_resubmit [OF empty_store_ok sample_commit, of sample_db "[]" sample_batch default_limits healthy]
  by (simp add: sample_valid healthy_def)

text \<open>
  C15: retrying after an unknown outcome commits exactly once: whether or not the first attempt
  was durable, the retry returns a receipt and ends in the store a single healthy commit gives.
\<close>

theorem commit_retry_once:
  assumes "store_ok d" and "commit l b io d = (Inl (Commit_Indeterminate i), d')"
  shows "commit l b healthy d' = commit l b healthy d \<and> (\<exists>r. fst (commit l b healthy d') = Inr r)"
proof -
  have valid: "validate_batch l b = Inr ()"
    using assms(2) by (auto simp: commit_def split: sum.splits)
  from assms(2) obtain n new where new: "write_batch b d = Inr (n, new)" "d' = d \<or> d' = new"
    "lookup_transaction d (cb_transaction_id b) = None"
    by (cases rule: commit_outcomes) auto
  then have "commit l b healthy d = (Inr \<lparr>rc_transaction_id = cb_transaction_id b,
      rc_transaction_sequence = i64_as_u64 n, rc_committed_at_ms = cb_committed_at_ms b\<rparr>, new)"
    using valid by (simp add: commit_def attempt_batch_def healthy_def commit_step_def)
  moreover from this have "commit l b healthy new = commit l b healthy d"
    using lookup_after_write [OF assms(1) new(1)] valid by (simp add: commit_def healthy_def)
  ultimately show ?thesis using new(2) by auto
qed

theorem commit_retry_once_witness:
  "commit default_limits sample_batch healthy sample_db =
   commit default_limits sample_batch healthy empty_db"
proof -
  have "\<exists>i. commit default_limits sample_batch (healthy\<lparr>io_failpoint := True\<rparr>) empty_db
      = (Inl (Commit_Indeterminate i), sample_db)"
    by (simp add: commit_def attempt_batch_def sample_valid healthy_def sample_fresh sample_write commit_step_def)
  then show ?thesis using commit_retry_once [OF empty_store_ok] by blast
qed

lemma in_stream_events:
  "map row_event (in_stream s rows) = filter (\<lambda>e. ev_stream_id e = s) (map row_event rows)"
  by (induction rows) (auto simp: row_event_def persisted_def)

lemma write_batch_stream:
  assumes "store_ok d" and "write_batch b d = Inr (n, d')"
  shows "map row_event (in_stream s (db_events d')) = map row_event (in_stream s (db_events d))
      @ filter (\<lambda>e. ev_stream_id e = s) (batch_events b)"
    and "stream_count d' s = stream_count d s + length (filter (\<lambda>e. ev_stream_id e = s) (batch_events b))"
proof -
  show grow: "map row_event (in_stream s (db_events d')) = map row_event (in_stream s (db_events d))
      @ filter (\<lambda>e. ev_stream_id e = s) (batch_events b)"
    using write_batch_InrD(6) [OF assms] unfolding in_stream_events by (auto simp: appends_def)
  from arg_cong [where f = length, OF grow]
  show "stream_count d' s = stream_count d s + length (filter (\<lambda>e. ev_stream_id e = s) (batch_events b))"
    by (simp add: stream_count_def)
qed

lemma lookup_row:
  assumes "transactions_ok d" and "r \<in> set (db_transactions d)" and "tr_transaction_id r = i"
  shows "lookup_transaction d i = Some (i64_as_u64 (tr_transaction_sequence r), tr_committed_at_ms r, tr_request_digest r)"
proof -
  have "find (\<lambda>x. tr_transaction_id x = i) (db_transactions d) = Some r"
    using assms by (simp add: find_key_iff transactions_ok_def)
  then show ?thesis by (simp add: lookup_transaction_def)
qed

text \<open>
  C16: the two conflicts of a commit, both of which write nothing. A transaction id that is already
  recorded is refused when the recorded digest is not that of the batch, and answered with the
  recorded receipt when it is, whatever the stream versions have become. For a new id, the first expected stream version that
  is not the current one is reported with the actual version.
\<close>

theorem commit_conflict:
  assumes "store_ok d" and "validate_batch l b = Inr ()" and "io_begin io = None"
  shows "(\<forall>r \<in> set (db_transactions d). tr_transaction_id r = cb_transaction_id b \<longrightarrow>
      commit l b io d =
        (if tr_request_digest r \<noteq> request_digest b then Inl DuplicateIdWithDifferentContent
         else Inr \<lparr>rc_transaction_id = cb_transaction_id b,
                rc_transaction_sequence = i64_as_u64 (tr_transaction_sequence r),
                rc_committed_at_ms = tr_committed_at_ms r\<rparr>, d)) \<and>
    (cb_transaction_id b \<notin> tr_transaction_id ` set (db_transactions d) \<and>
      cb_expected_stream_versions b = before @ x # rest \<and>
      (\<forall>e \<in> set before. current_stream_version d (es_stream_id e) = es_version e) \<and>
      current_stream_version d (es_stream_id x) \<noteq> es_version x \<longrightarrow>
      commit l b io d = (Inl (Commit_Conflict (StreamVersionConflict (es_stream_id x) (es_version x)
        (current_stream_version d (es_stream_id x)))), d))"
proof (intro conjI ballI impI; (elim conjE)?)
  fix r assume "r \<in> set (db_transactions d)" "tr_transaction_id r = cb_transaction_id b"
  from lookup_row [OF store_okD(1) [OF assms(1)] this]
  show "commit l b io d =
        (if tr_request_digest r \<noteq> request_digest b then Inl DuplicateIdWithDifferentContent
         else Inr \<lparr>rc_transaction_id = cb_transaction_id b,
                rc_transaction_sequence = i64_as_u64 (tr_transaction_sequence r),
                rc_committed_at_ms = tr_committed_at_ms r\<rparr>, d)"
    using assms(2,3) by (simp add: commit_def)
next
  assume fresh: "cb_transaction_id b \<notin> tr_transaction_id ` set (db_transactions d)"
    and exp: "cb_expected_stream_versions b = before @ x # rest"
    and stale: "\<forall>e \<in> set before. current_stream_version d (es_stream_id e) = es_version e"
      "current_stream_version d (es_stream_id x) \<noteq> es_version x"
  have "lookup_transaction d (cb_transaction_id b) = None"
    using fresh by (simp add: lookup_transaction_None has_transaction_def)
  then show "commit l b io d = (Inl (Commit_Conflict (StreamVersionConflict (es_stream_id x) (es_version x)
        (current_stream_version d (es_stream_id x)))), d)"
    using assms(2,3) exp check_expected_conflict [OF stale]
    by (simp add: commit_def attempt_batch_def write_batch_def split: option.split)
qed

text \<open>A store in which the id of the sample batch is taken by a transaction with another digest.\<close>

definition taken_db :: db where
  "taken_db = empty_db\<lparr>db_transactions := [(batch_row sample_batch 1)\<lparr>tr_request_digest := 0 # request_digest sample_batch\<rparr>]\<rparr>"

lemma taken_db_ok: "store_ok taken_db"
  using empty_store_ok
  by (simp add: store_ok_def transactions_ok_def events_ok_def streams_ok_def projections_ok_def jobs_ok_def
      taken_db_def empty_db_def batch_row_def i64_max_def stream_count_def current_stream_version_def)

theorem commit_conflict_witness:
  "commit default_limits (sample_batch\<lparr>cb_transaction_id := id_from_u128 7\<rparr>) healthy sample_db
     = (Inl (Commit_Conflict (StreamVersionConflict ''s'' 0 1)), sample_db) \<and>
   commit default_limits sample_batch healthy taken_db = (Inl DuplicateIdWithDifferentContent, taken_db)"
proof
  let ?b = "sample_batch\<lparr>cb_transaction_id := id_from_u128 7\<rparr>"
  have ok: "store_ok sample_db" using write_batch_InrD(1) [OF empty_store_ok sample_write] .
  have valid: "validate_batch default_limits ?b = Inr ()"
    by (simp add: validate_batch_def sample_simps default_limits_def result_simps)
  have steady: "io_begin healthy = None" by (simp add: healthy_def)
  have fresh: "cb_transaction_id ?b \<notin> tr_transaction_id ` set (db_transactions sample_db)"
    by (simp add: sample_db_def batch_row_def sample_simps)
  have now: "current_stream_version sample_db ''s'' = 1"
    by (simp add: current_stream_version_def version_of_def sample_db_def i64_as_u64_def)
  have exp: "cb_expected_stream_versions ?b = [] @ \<lparr>es_stream_id = ''s'', es_version = 0\<rparr> # []"
    by (simp add: sample_simps)
  show "commit default_limits ?b healthy sample_db
     = (Inl (Commit_Conflict (StreamVersionConflict ''s'' 0 1)), sample_db)"
    using commit_conflict [OF ok valid steady, of "[]" "\<lparr>es_stream_id = ''s'', es_version = 0\<rparr>" "[]"] fresh exp now
    by simp
  show "commit default_limits sample_batch healthy taken_db = (Inl DuplicateIdWithDifferentContent, taken_db)"
    using commit_conflict [OF taken_db_ok sample_valid steady] by (simp add: taken_db_def batch_row_def)
qed

text \<open>
  The order in which the map of stream versions is written back, which a \<open>HashMap\<close> leaves
  open, does not matter.
\<close>

theorem upsert_streams_any_order:
  assumes "distinct (map fst vs)" and "distinct (map fst vs')" and "set vs = set vs'"
  shows "map_of (db_streams (upsert_streams vs d)) = map_of (db_streams (upsert_streams vs' d))"
proof -
  let ?cast = "map (\<lambda>(s, v). (s, u64_as_i64 v))"
  have keys: "map fst (?cast xs) = map fst xs" for xs :: stream_versions
    by (induction xs) auto
  have "set (?cast vs) = set (?cast vs')"
    using assms(3) by simp
  then show ?thesis
    using assoc.put_all_order [of "?cast vs" "?cast vs'" "db_streams d"] assms(1,2)
    by (simp add: upsert_streams_def upsert_as_put_all keys del: set_map map_map)
qed

theorem upsert_streams_any_order_witness:
  "map_of (db_streams (upsert_streams [(''a'', 1), (''b'', 2)] empty_db))
     = map_of (db_streams (upsert_streams [(''b'', 2), (''a'', 1)] empty_db))"
  by (rule upsert_streams_any_order) auto

end
