(* ===== verification/ClaimProperties.thy ===== *)
theory ClaimProperties
  imports Claims CommitGuarantees
begin

text \<open>
  What a claim does to a well-formed store: which jobs are planned, that no statement of the
  write can fail, and the rows, receipts and cursor it leaves.
\<close>

section \<open>The plan\<close>

definition expired_jobs :: "db \<Rightarrow> ClaimRequest \<Rightarrow> JobRow list" where
  "expired_jobs d req = take 64 (sort_key expiry_key (filter (lease_expired req) (db_jobs d)))"

definition maintenance_of :: "JobRow \<Rightarrow> MaintenanceAction" where
  "maintenance_of r = \<lparr>ma_job = r, ma_to = maintenance_target r\<rparr>"

lemma plan_maintenance_eq:
  "plan_maintenance d req = Inr (map maintenance_of (expired_jobs d req))"
proof -
  have "sql_limit MAINTENANCE_LIMIT xs = take 64 xs" for xs :: "JobRow list"
    by (simp add: sql_limit_take MAINTENANCE_LIMIT_def i64_max_def)
  then show ?thesis
    by (simp add: plan_maintenance_def expired_jobs_def maintenance_of_def [abs_def])
qed

lemma expired_jobs_set:
  assumes "r \<in> set (expired_jobs d req)"
  shows "r \<in> set (db_jobs d)" "lease_expired req r" "jr_state r = Leased"
proof -
  have "r \<in> set (filter (lease_expired req) (db_jobs d))"
    using in_set_takeD [OF assms [unfolded expired_jobs_def]] by simp
  then show "r \<in> set (db_jobs d)" "lease_expired req r" "jr_state r = Leased"
    by (auto simp: lease_expired_def)
qed

lemma expired_jobs_distinct:
  assumes "rows_ok (db_jobs d)"
  shows "distinct (map jr_job_id (expired_jobs d req))"
proof -
  have "distinct (map jr_job_id (filter (lease_expired req) (db_jobs d)))"
    using rows_okD(2) [OF assms] by (rule distinct_map_filter)
  then have "distinct (map jr_job_id (sort_key expiry_key (filter (lease_expired req) (db_jobs d))))"
    by (simp add: distinct_map)
  then show ?thesis
    by (simp add: expired_jobs_def take_map [symmetric])
qed

text \<open>Every earlier job of the partition of \<open>r\<close> is terminal.\<close>

definition earlier_done :: "db \<Rightarrow> JobRow \<Rightarrow> bool" where
  "earlier_done d r \<longleftrightarrow>
     (\<forall>s \<in> set (db_jobs d). job_partition s = job_partition r \<and>
        jr_enqueue_sequence s < jr_enqueue_sequence r \<longrightarrow> is_terminal (jr_state s))"

lemma sort_key_head:
  assumes "sort_key (f :: 'a \<Rightarrow> int) xs = r # rest"
  shows "r \<in> set xs" and "s \<in> set xs \<Longrightarrow> f r \<le> f s"
proof -
  have set: "set xs = set (r # rest)" using arg_cong [OF assms, of set] by simp
  have "sorted (map f (r # rest))" using sorted_sort_key [of f xs] assms by simp
  then show "r \<in> set xs" "s \<in> set xs \<Longrightarrow> f r \<le> f s" unfolding set by auto
qed

lemma head_job_SomeD:
  assumes "head_job d q p = Some r"
  shows "r \<in> set (db_jobs d)" "job_partition r = (q, p)" "\<not> is_terminal (jr_state r)"
    "earlier_done d r"
proof -
  let ?P = "\<lambda>r. jr_queue r = q \<and> jr_partition_key r = p \<and> jr_state r \<in> set ACTIVE_STATES"
  obtain rest where head: "sort_key jr_enqueue_sequence (filter ?P (db_jobs d)) = r # rest"
    using assms by (auto simp: head_job_def split: list.splits)
  show r: "r \<in> set (db_jobs d)" "job_partition r = (q, p)" "\<not> is_terminal (jr_state r)"
    using sort_key_head(1) [OF head] by (auto simp: job_partition_def)
  show "earlier_done d r"
    unfolding earlier_done_def
  proof (intro ballI impI)
    fix s assume s: "s \<in> set (db_jobs d)"
      "job_partition s = job_partition r \<and> jr_enqueue_sequence s < jr_enqueue_sequence r"
    then show "is_terminal (jr_state s)"
      using sort_key_head(2) [OF head, of s] r(2) by (auto simp: job_partition_def)
  qed
qed

text \<open>The jobs a claim may lease: the ready heads of the partitions, in the order visited.\<close>

definition ready_heads :: "db \<Rightarrow> ClaimRequest \<Rightarrow> str list \<Rightarrow> JobRow list" where
  "ready_heads d req ps = filter (ready req) (List.map_filter (head_job d (cr_queue req)) ps)"

lemma ready_heads_simps [simp]:
  "ready_heads d req [] = []"
  "ready_heads d req (p # ps) =
     (case head_job d (cr_queue req) p of
        None \<Rightarrow> ready_heads d req ps
      | Some r \<Rightarrow> if ready req r then r # ready_heads d req ps else ready_heads d req ps)"
  by (auto simp: ready_heads_def map_filter_simps split: option.split)

lemma ready_heads_set:
  "r \<in> set (ready_heads d req ps) \<longleftrightarrow>
     (\<exists>p \<in> set ps. head_job d (cr_queue req) p = Some r) \<and> ready req r"
  by (induction ps) (auto split: option.split)

lemma ready_heads_partitions: "subseq (map jr_partition_key (ready_heads d req ps)) ps"
proof (induction ps)
  case (Cons p ps)
  show ?case
  proof (cases "head_job d (cr_queue req) p")
    case (Some r)
    then have "jr_partition_key r = p"
      using head_job_SomeD(2) by (simp add: job_partition_def)
    then show ?thesis using Some Cons by auto
  qed (use Cons in auto)
qed simp

text \<open>The loop over the partitions takes the first ready heads up to the limit.\<close>

definition tokens_from :: "entropy \<Rightarrow> nat \<Rightarrow> ProposedLease list \<Rightarrow> bool" where
  "tokens_from ent n ls \<longleftrightarrow>
     (\<forall>i < length ls. id_new (ent (n + i)) = Inr (pl_lease_token (ls ! i)))"

definition last_partition :: "ProposedLease list \<Rightarrow> str option \<Rightarrow> str option" where
  "last_partition ls before = (if ls = [] then before else Some (jr_partition_key (pl_job (last ls))))"

lemma tokens_from_Cons:
  "tokens_from ent n (l # ls) \<longleftrightarrow> id_new (ent n) = Inr (pl_lease_token l) \<and> tokens_from ent (n + 1) ls"
proof -
  have "(\<forall>i < Suc k. P i) \<longleftrightarrow> P 0 \<and> (\<forall>i < k. P (Suc i))" for P k
    using less_Suc_eq_0_disj by auto
  then show ?thesis by (simp add: tokens_from_def)
qed

lemma lease_partitions_spec:
  assumes "lease_partitions d req ent ps leases before n = Inr (leases', last', n')"
  shows "\<exists>ls. leases' = leases @ ls \<and>
    map pl_job ls = take (cr_limit req - length leases) (ready_heads d req ps) \<and>
    n' = n + length ls \<and> tokens_from ent n ls \<and> last' = last_partition ls before"
  using assms
proof (induction ps arbitrary: leases before n)
  case Nil
  then show ?case by (simp add: tokens_from_def last_partition_def)
next
  case (Cons p ps)
  let ?goal = "\<lambda>ps leases before n ls. leases' = leases @ ls \<and>
    map pl_job ls = take (cr_limit req - length leases) (ready_heads d req ps) \<and>
    n' = n + length ls \<and> tokens_from ent n ls \<and> last' = last_partition ls before"
  consider (full) "cr_limit req \<le> length leases"
    | (skip) "\<not> cr_limit req \<le> length leases" "lease_partitions d req ent ps leases before n = Inr (leases', last', n')"
        "ready_heads d req (p # ps) = ready_heads d req ps"
    | (grant) r token where "\<not> cr_limit req \<le> length leases" "head_job d (cr_queue req) p = Some r" "ready req r"
        "id_new (ent n) = Inr token"
        "lease_partitions d req ent ps (leases @ [\<lparr>pl_job = r, pl_lease_token = token\<rparr>]) (Some p) (n + 1)
           = Inr (leases', last', n')"
    using Cons.prems by (auto simp: and_then_Inr_iff map_err_Inr_iff split: option.splits if_splits)
  then show ?case
  proof cases
    case full
    then show ?thesis using Cons.prems by (simp add: tokens_from_def last_partition_def)
  next
    case skip
    then show ?thesis using Cons.IH by metis
  next
    case grant
    let ?l = "\<lparr>pl_job = r, pl_lease_token = token\<rparr>"
    obtain ls where ls: "?goal ps (leases @ [?l]) (Some p) (n + 1) ls"
      using Cons.IH [OF grant(5)] by blast
    have "cr_limit req - length leases = Suc (cr_limit req - length (leases @ [?l]))"
      using grant(1) by simp
    moreover have "jr_partition_key r = p"
      using head_job_SomeD(2) [OF grant(2)] by (simp add: job_partition_def)
    ultimately have "?goal (p # ps) leases before n (?l # ls)"
      using ls grant(2-4) by (simp add: tokens_from_Cons last_partition_def)
    then show ?thesis by blast
  qed
qed

lemma lease_partitions_total:
  assumes "\<forall>k. \<exists>t. id_new (ent k) = Inr t"
  shows "\<exists>x. lease_partitions d req ent ps leases before n = Inr x"
proof (induction ps arbitrary: leases before n)
  case (Cons p ps)
  obtain t where "id_new (ent n) = Inr t" using assms by blast
  then show ?case using Cons by (auto split: option.split)
qed simp

lemma lease_order_rotation:
  "\<exists>k. lease_order d q = drop k (partitions_of d q) @ take k (partitions_of d q)"
  by (auto simp: lease_order_def Let_def)

lemma partitions_of_set:
  "p \<in> set (partitions_of d q) \<longleftrightarrow> (q, p) \<in> fst ` set (db_active_partitions d)"
  by (force simp: partitions_of_def)

lemma lease_order_set: "set (lease_order d q) = set (partitions_of d q)"
proof -
  obtain k where "lease_order d q = drop k (partitions_of d q) @ take k (partitions_of d q)"
    using lease_order_rotation by blast
  moreover have "set (drop k (partitions_of d q)) \<union> set (take k (partitions_of d q)) = set (partitions_of d q)"
    by (metis Un_commute append_take_drop_id set_append)
  ultimately show ?thesis by simp
qed

lemma lease_order_distinct:
  assumes "distinct (map fst (db_active_partitions d))"
  shows "distinct (lease_order d q)"
proof -
  have "distinct (map (snd \<circ> fst) (filter (\<lambda>e. fst (fst e) = q) (db_active_partitions d)))"
    using distinct_map_filter [OF assms] unfolding distinct_map by (auto simp: inj_on_def prod_eq_iff)
  then have "distinct (partitions_of d q)"
    by (simp add: partitions_of_def comp_def)
  moreover obtain k where "lease_order d q = drop k (partitions_of d q) @ take k (partitions_of d q)"
    using lease_order_rotation by blast
  ultimately show ?thesis
    using distinct_append [of "take k (partitions_of d q)" "drop k (partitions_of d q)"] by auto
qed

definition granted :: "db \<Rightarrow> ClaimRequest \<Rightarrow> JobRow list" where
  "granted d req = take (cr_limit req) (ready_heads d req (lease_order d (cr_queue req)))"

lemma plan_leases_spec:
  assumes "plan_leases d req ent = Inr (ls, part, n)"
  shows "map pl_job ls = granted d req \<and> n = length ls \<and> tokens_from ent 0 ls \<and> part = last_partition ls None"
  using assms lease_partitions_spec [of d req ent "lease_order d (cr_queue req)" "[]" None 0 ls part n]
  by (auto simp: plan_leases_def granted_def tokens_from_def last_partition_def split: if_splits)

lemma granted_facts:
  assumes "r \<in> set (granted d req)"
  shows "r \<in> set (db_jobs d)" "jr_queue r = cr_queue req" "ready req r" "earlier_done d r"
    "jr_state r \<in> {Pending, RetryWait}"
proof -
  obtain p where head: "head_job d (cr_queue req) p = Some r" and ready: "ready req r"
    using assms in_set_takeD unfolding granted_def by (metis ready_heads_set)
  show "r \<in> set (db_jobs d)" "jr_queue r = cr_queue req" "ready req r" "earlier_done d r"
    using head_job_SomeD [OF head] ready by (auto simp: job_partition_def)
  show "jr_state r \<in> {Pending, RetryWait}"
    using ready by (cases "jr_state r") (auto simp: ready_def)
qed

lemma subseq_distinct_keep: "subseq xs ys \<Longrightarrow> distinct ys \<Longrightarrow> distinct xs"
  by (auto simp: subseq_conv_nths intro: distinct_nthsI)

lemma granted_partitions:
  assumes "distinct (map fst (db_active_partitions d))"
  shows "distinct (map jr_partition_key (granted d req))"
proof -
  have "distinct (map jr_partition_key (ready_heads d req (lease_order d (cr_queue req))))"
    using ready_heads_partitions lease_order_distinct [OF assms] subseq_distinct_keep by blast
  then show ?thesis by (simp add: granted_def take_map [symmetric])
qed

lemma granted_distinct:
  assumes "distinct (map fst (db_active_partitions d))" and "rows_ok (db_jobs d)"
  shows "distinct (map jr_job_id (granted d req))"
proof -
  have "distinct (granted d req)" using granted_partitions [OF assms(1)] by (simp add: distinct_map)
  moreover have "inj_on jr_job_id (set (granted d req))"
    using rows_ok_unique [OF assms(2)] granted_facts(1) by (intro inj_onI) blast
  ultimately show ?thesis by (simp add: distinct_map)
qed

section \<open>Replacing rows one after another\<close>

lemma put_row_step:
  assumes ok: "jobs_ok d" and r: "r \<in> set (db_jobs d)" and step: "row_step r r'"
  shows "jobs_step d (put_row r' d)"
proof -
  have "set (db_jobs (put_row r' d)) = insert r' (set (db_jobs d) - {r})"
    using set_update_rows [OF _ r] ok same_jobD(1) [OF row_stepD(1) [OF step]] by (simp add: jobs_ok_def)
  then have "jobs_evolve d (put_row r' d)"
    using jobs_evolve_replace [OF _ r] row_step_evolves [OF step] ok by (simp add: jobs_ok_def)
  then show ?thesis
    using put_row_jobs_ok [OF ok r step] put_row_only_jobs by (simp add: jobs_step_def)
qed

lemma jobs_step_refl: "jobs_ok d \<Longrightarrow> jobs_step d d"
  by (simp add: jobs_step_def)

lemma jobs_step_trans: "jobs_step d d' \<Longrightarrow> jobs_step d' d'' \<Longrightarrow> jobs_step d d''"
  unfolding jobs_step_def using only_jobs_trans jobs_evolve_trans by blast

text \<open>\<open>d'\<close> holds the row \<open>r'\<close> where \<open>d\<close> holds \<open>r\<close>, which was not terminal; the rest is the same.\<close>

definition replaces :: "JobRow \<Rightarrow> JobRow \<Rightarrow> db \<Rightarrow> db \<Rightarrow> bool" where
  "replaces r r' d d' \<longleftrightarrow>
     r \<in> set (db_jobs d) \<and> \<not> is_terminal (jr_state r) \<and> same_job r r' \<and>
     set (db_jobs d') = insert r' (set (db_jobs d) - {r})"

lemma replaces_other:
  "replaces r r' d d' \<Longrightarrow> y \<in> set (db_jobs d) \<Longrightarrow> jr_job_id y \<noteq> jr_job_id r \<Longrightarrow> y \<in> set (db_jobs d')"
  by (auto simp: replaces_def)

lemma replaces_earlier_done:
  assumes "replaces r r' d d'" and "earlier_done d y"
  shows "earlier_done d' y"
  using assms same_jobD [of r r'] unfolding replaces_def earlier_done_def by auto

text \<open>A whole loop: rows \<open>rs\<close> become \<open>f r\<close>, every other row stays.\<close>

definition rewritten :: "(JobRow \<Rightarrow> JobRow) \<Rightarrow> JobRow list \<Rightarrow> db \<Rightarrow> db \<Rightarrow> bool" where
  "rewritten f rs d d' \<longleftrightarrow>
     (\<forall>r \<in> set rs. f r \<in> set (db_jobs d')) \<and>
     (\<forall>y \<in> set (db_jobs d). jr_job_id y \<notin> jr_job_id ` set rs \<longrightarrow> y \<in> set (db_jobs d')) \<and>
     (\<forall>y. earlier_done d y \<longrightarrow> earlier_done d' y)"

lemma rewritten_none: "db_jobs d' = db_jobs d \<Longrightarrow> rewritten f [] d d'"
  by (simp add: rewritten_def earlier_done_def)

lemma rewritten_Cons:
  assumes "replaces r (f r) d d1" and "rewritten f rs d1 d'" and "jr_job_id r \<notin> jr_job_id ` set rs"
  shows "rewritten f (r # rs) d d'"
proof -
  have "f r \<in> set (db_jobs d1)" "jr_job_id (f r) = jr_job_id r"
    using assms(1) same_jobD(1) by (auto simp: replaces_def)
  moreover have "y \<in> set (db_jobs d')"
    if "y \<in> set (db_jobs d)" "jr_job_id y \<notin> jr_job_id ` set (r # rs)" for y
    using that assms(2) replaces_other [OF assms(1) that(1)] by (auto simp: rewritten_def)
  ultimately show ?thesis
    using assms(2,3) replaces_earlier_done [OF assms(1)] unfolding rewritten_def by auto
qed

section \<open>Maintenance\<close>

definition maintained_row :: "ClaimRequest \<Rightarrow> Id \<Rightarrow> JobRow \<Rightarrow> JobRow" where
  "maintained_row req t r =
     (if maintenance_target r = Dead
      then terminal_row Dead (cr_now_ms req) t None (Some ''lease expired at final attempt'') r
      else nonterminal_row (maintenance_target r) None t r)"

lemma run_maintenance_put:
  assumes ok: "jobs_ok d" and r: "r \<in> set (db_jobs d)" and leased: "jr_state r = Leased"
  shows "run_maintenance req t (maintenance_of r) d = Inr (put_row (maintained_row req t r) d)"
    and "row_step r (maintained_row req t r)"
proof -
  have rows: "rows_ok (db_jobs d)" using ok by (simp add: jobs_ok_def)
  have row: "job_row_ok r" by (rule rows_okD(3) [OF rows r])
  have "maintenance_target r = Dead \<or> maintenance_target r = Uncertain
      \<or> maintenance_target r = Pending \<and> jr_attempt r < jr_max_attempts r"
    by (auto simp: maintenance_target_def split: EffectMode.split)
  then have "row_step r (maintained_row req t r) \<and>
    run_maintenance req t (maintenance_of r) d = Inr (put_row (maintained_row req t r) d)"
  proof (elim disjE)
    assume dead: "maintenance_target r = Dead"
    then have "row_step r (maintained_row req t r)"
      using terminal_row_ok [OF row] leased by (simp add: maintained_row_def row_step_def)
    moreover have "run_maintenance req t (maintenance_of r) d = Inr (put_row (maintained_row req t r) d)"
      using dead leased set_terminal_put [OF rows r, of Dead]
      by (simp add: run_maintenance_def maintenance_of_def ensure_transition_def maintained_row_def)
    ultimately show ?thesis ..
  next
    let ?f = "nonterminal_row (maintenance_target r) None t"
    assume to: "maintenance_target r = Uncertain"
    have ok': "job_row_ok (?f r)"
      using row leased to by (auto simp: job_row_ok_def job_checks_def nonterminal_row_def)
    then have "row_step r (maintained_row req t r)"
      using to leased by (simp add: maintained_row_def row_step_def)
    moreover have "run_maintenance req t (maintenance_of r) d = Inr (put_row (maintained_row req t r) d)"
      using to leased ok' update_job_put [where f = ?f, OF rows r] put_nonterminal [OF rows r, of "?f r"]
      by (simp add: run_maintenance_def maintenance_of_def ensure_transition_def maintained_row_def
          set_nonterminal_def job_row_ok_def)
    ultimately show ?thesis ..
  next
    assume to: "maintenance_target r = Pending \<and> jr_attempt r < jr_max_attempts r"
    then have "row_step r (maintained_row req t r)"
      using nonterminal_row_ok [OF row] leased by (simp add: maintained_row_def row_step_def)
    moreover have "run_maintenance req t (maintenance_of r) d = Inr (put_row (maintained_row req t r) d)"
      using to leased set_nonterminal_put [OF rows r]
      by (simp add: run_maintenance_def maintenance_of_def ensure_transition_def maintained_row_def)
    ultimately show ?thesis ..
  qed
  then show "run_maintenance req t (maintenance_of r) d = Inr (put_row (maintained_row req t r) d)"
    "row_step r (maintained_row req t r)" by simp_all
qed

lemma maintenance_loop:
  assumes "jobs_ok d" and "\<forall>r \<in> set rs. r \<in> set (db_jobs d) \<and> jr_state r = Leased"
    and "distinct (map jr_job_id rs)"
  shows "\<exists>d'. fold_res (run_maintenance req t) (map maintenance_of rs) d = Inr d' \<and> jobs_step d d' \<and>
    db_claim_receipts d' = db_claim_receipts d \<and> rewritten (maintained_row req t) rs d d'"
  using assms
proof (induction rs arbitrary: d)
  case Nil
  then show ?case by (simp add: jobs_step_refl rewritten_none)
next
  case (Cons r rs)
  let ?r = "maintained_row req t r"
  let ?d = "put_row ?r d"
  have r: "r \<in> set (db_jobs d)" "jr_state r = Leased" using Cons.prems(2) by auto
  note put = run_maintenance_put [OF Cons.prems(1) r, of req t]
  note step = put_row_step [OF Cons.prems(1) r(1) put(2)]
  have "set (db_jobs ?d) = insert ?r (set (db_jobs d) - {r})"
    using set_update_rows [OF _ r(1)] Cons.prems(1) same_jobD(1) [OF row_stepD(1) [OF put(2)]]
    by (simp add: jobs_ok_def)
  then have rep: "replaces r ?r d ?d"
    using r row_stepD(1) [OF put(2)] by (simp add: replaces_def)
  have "\<forall>x \<in> set rs. x \<in> set (db_jobs ?d) \<and> jr_state x = Leased"
    using Cons.prems(2,3) replaces_other [OF rep] by (auto simp: image_iff simp del: put_row_jobs)
  then obtain d' where "fold_res (run_maintenance req t) (map maintenance_of rs) ?d = Inr d'"
    "jobs_step ?d d'" "db_claim_receipts d' = db_claim_receipts d" "rewritten (maintained_row req t) rs ?d d'"
    using Cons.IH [of ?d] jobs_stepD(1) [OF step] Cons.prems(3) by auto
  then show ?case
    using put(1) jobs_step_trans [OF step] rewritten_Cons [where f = "maintained_row req t", OF rep] Cons.prems(3) by auto
qed

section \<open>Leases\<close>

definition granted_row :: "ClaimRequest \<Rightarrow> i64 \<Rightarrow> Id \<Rightarrow> ProposedLease \<Rightarrow> JobRow" where
  "granted_row req e t l =
     leased_row req e t (jr_attempt (pl_job l) + 1) (pl_lease_token l) (pl_job l)"

definition granted_job :: "ClaimRequest \<Rightarrow> i64 \<Rightarrow> ProposedLease \<Rightarrow> ClaimedJob" where
  "granted_job req e l = claimed_job req e (jr_attempt (pl_job l) + 1) l"

definition granted_receipt :: "ClaimRequest \<Rightarrow> i64 \<Rightarrow> Id \<Rightarrow> ProposedLease \<Rightarrow> ReceiptRow" where
  "granted_receipt req e t l = receipt_row req e t (jr_attempt (pl_job l) + 1) l"

lemma granted_row_simps [simp]:
  "same_job (pl_job l) (granted_row req e t l)" "jr_state (granted_row req e t l) = Leased"
  "jr_attempt (granted_row req e t l) = jr_attempt (pl_job l) + 1"
  "jr_job_id (granted_row req e t l) = jr_job_id (pl_job l)"
  by (simp_all add: granted_row_def leased_row_def same_job_def)

text \<open>A pending or waiting job has an attempt left, so the new attempt does not wrap.\<close>

lemma next_attempt:
  assumes "job_row_ok r" and "jr_state r \<in> {Pending, RetryWait}"
  shows "uint (jr_attempt r + 1) = uint (jr_attempt r) + 1" "0 < jr_attempt r + 1"
    "jr_attempt r + 1 \<le> jr_max_attempts r"
proof -
  have less: "uint (jr_attempt r) < uint (jr_max_attempts r)"
    using assms by (auto simp: job_row_ok_def word_less_def)
  then have "uint (jr_attempt r) + 1 < 2 ^ 32"
    using uint_lt2p [of "jr_max_attempts r"] by simp
  then show up: "uint (jr_attempt r + 1) = uint (jr_attempt r) + 1"
    using uint_ge_0 [of "jr_attempt r"] by (simp add: uint_word_ariths)
  show "0 < jr_attempt r + 1" "jr_attempt r + 1 \<le> jr_max_attempts r"
    using less uint_ge_0 [of "jr_attempt r"] by (simp_all add: word_less_def word_le_def up)
qed

lemma granted_row_ok:
  assumes "job_row_ok (pl_job l)" and "jr_state (pl_job l) \<in> {Pending, RetryWait}"
  shows "job_row_ok (granted_row req e t l)"
proof -
  have "jr_terminal_at_ms (pl_job l) = None" "0 < jr_max_attempts (pl_job l)"
    using assms by (auto simp: job_row_ok_def job_checks_def)
  then show ?thesis
    using next_attempt(2,3) [OF assms]
    by (simp add: job_row_ok_def job_checks_def granted_row_def leased_row_def)
qed

text \<open>One lease: neither the UPDATE nor the INSERT can fail, and the invariants survive.\<close>

lemma grant_lease_step:
  assumes ok: "jobs_ok d" and t: "has_transaction d t"
    and l: "pl_job l \<in> set (db_jobs d)" "jr_state (pl_job l) \<in> {Pending, RetryWait}" "earlier_done d (pl_job l)"
    and fresh: "\<forall>c \<in> set (db_claim_receipts d). cl_transaction_id c = t \<longrightarrow> cl_job_id c \<noteq> jr_job_id (pl_job l)"
  obtains d' where "grant_lease req e t l (claimed, d) = Inr (claimed @ [granted_job req e l], d')"
    "jobs_step d d'" "replaces (pl_job l) (granted_row req e t l) d d'"
    "db_claim_receipts d' = db_claim_receipts d @ [granted_receipt req e t l]"
proof -
  let ?r = "pl_job l" and ?r' = "granted_row req e t l" and ?c = "granted_receipt req e t l"
  let ?d = "put_row ?r' d\<lparr>db_claim_receipts := db_claim_receipts d @ [?c]\<rparr>"
  have okd: "rows_ok (db_jobs d)" "active_ok (db_active_partitions d) (db_jobs d)"
    "receipts_ok (db_claim_receipts d) (db_jobs d)"
    using ok by (simp_all add: jobs_ok_def)
  have open_r: "\<not> is_terminal (jr_state ?r)" using l(2) by auto
  have row: "job_row_ok ?r'" by (rule granted_row_ok [OF rows_okD(3) [OF okd(1) l(1)] l(2)])
  have same: "same_job ?r ?r'" by simp
  have put: "put_row ?r' d = d\<lparr>db_jobs := update_rows (jr_job_id ?r) (\<lambda>_. ?r') (db_jobs d)\<rparr>"
    using put_nonterminal [OF okd(1) l(1) _ same] by simp
  have rows: "set (db_jobs ?d) = insert ?r' (set (db_jobs d) - {?r})"
    using set_update_rows [OF okd(1) l(1)] by simp
  let ?f = "leased_row req e t (jr_attempt ?r + 1) (pl_lease_token l)"
  have "update_job (jr_job_id ?r) ?f d = Inr (put_row ?r' d)"
    using update_job_put [where f = ?f, OF okd(1) l(1)] row put
    by (simp add: job_row_ok_def granted_row_def)
  moreover have "insert_receipt ?c (put_row ?r' d) = Inr ?d"
    using fresh t has_transaction_cong [of "put_row ?r' d" d]
    by (auto simp: insert_receipt_Inr granted_receipt_def receipt_row_def)
  ultimately have run: "grant_lease req e t l (claimed, d) = Inr (claimed @ [granted_job req e l], ?d)"
    by (simp add: grant_lease_def Let_def granted_receipt_def granted_job_def)
  have "rows_ok (db_jobs ?d)"
    using rows_ok_replace [OF okd(1) l(1) same row] open_r l(3) by (auto simp: earlier_done_def)
  moreover have "active_ok (db_active_partitions ?d) (db_jobs ?d)"
    using put_row_active_ok [OF okd(1,2) l(1) open_r same] by simp
  moreover have "receipts_ok (db_claim_receipts ?d) (db_jobs ?d)"
  proof -
    have "jr_job_id ` set (db_jobs ?d) = jr_job_id ` set (db_jobs d)"
      unfolding rows using l(1) by (auto simp: image_iff)
    moreover have "receipt_of ?r' ?c"
      by (simp add: receipt_of_def granted_receipt_def receipt_row_def granted_row_def leased_row_def)
    ultimately show ?thesis
      using okd(3) fresh l(1) unfolding receipts_ok_def rows
      by (auto simp: granted_receipt_def receipt_row_def)
  qed
  moreover have "has_transaction ?d = has_transaction d" by (rule has_transaction_cong) simp
  ultimately have "jobs_ok ?d"
    using ok t rows l(1) by (auto simp: jobs_ok_def granted_receipt_def receipt_row_def granted_row_def leased_row_def)
  moreover have "only_jobs d ?d"
    using put by (simp add: only_jobs_def)
  moreover have "row_evolves ?r ?r'"
    using l(2) next_attempt(1) [OF rows_okD(3) [OF okd(1) l(1)] l(2)]
    by (auto simp: row_evolves_def word_le_def intro: job_path.intros)
  then have "jobs_evolve d ?d" by (rule jobs_evolve_replace [OF okd(1) l(1) rows])
  ultimately have "jobs_step d ?d" by (simp add: jobs_step_def)
  then show ?thesis
    using that [OF run] l(1) open_r rows by (simp add: replaces_def)
qed

lemma grant_loop:
  assumes "jobs_ok d" and "has_transaction d t"
    and "\<forall>l \<in> set ls. pl_job l \<in> set (db_jobs d) \<and> jr_state (pl_job l) \<in> {Pending, RetryWait} \<and> earlier_done d (pl_job l)"
    and "\<forall>c \<in> set (db_claim_receipts d). \<forall>l \<in> set ls. cl_transaction_id c = t \<longrightarrow> cl_job_id c \<noteq> jr_job_id (pl_job l)"
    and "distinct (map (\<lambda>l. jr_job_id (pl_job l)) ls)"
  shows "\<exists>d'. fold_res (grant_lease req e t) ls (claimed, d) = Inr (claimed @ map (granted_job req e) ls, d') \<and>
    jobs_step d d' \<and> db_claim_receipts d' = db_claim_receipts d @ map (granted_receipt req e t) ls \<and>
    (\<forall>l \<in> set ls. granted_row req e t l \<in> set (db_jobs d')) \<and>
    (\<forall>y \<in> set (db_jobs d). jr_job_id y \<notin> jr_job_id ` pl_job ` set ls \<longrightarrow> y \<in> set (db_jobs d'))"
  using assms
proof (induction ls arbitrary: d claimed)
  case Nil
  then show ?case by (simp add: jobs_step_refl)
next
  case (Cons l ls)
  obtain d1 where d1: "grant_lease req e t l (claimed, d) = Inr (claimed @ [granted_job req e l], d1)"
    "jobs_step d d1" "replaces (pl_job l) (granted_row req e t l) d d1"
    "db_claim_receipts d1 = db_claim_receipts d @ [granted_receipt req e t l]"
    using grant_lease_step [OF Cons.prems(1,2), of l req e claimed] Cons.prems(3,4) by auto
  have tx: "has_transaction d1 t"
    using Cons.prems(2) has_transaction_cong [OF only_jobsD(1) [OF jobs_stepD(2) [OF d1(2)]]] by simp
  have planned: "\<forall>x \<in> set ls. pl_job x \<in> set (db_jobs d1) \<and> jr_state (pl_job x) \<in> {Pending, RetryWait} \<and> earlier_done d1 (pl_job x)"
    using Cons.prems(3,5) replaces_other [OF d1(3)] replaces_earlier_done [OF d1(3)] by (auto simp: image_iff)
  have fresh: "\<forall>c \<in> set (db_claim_receipts d1). \<forall>l \<in> set ls. cl_transaction_id c = t \<longrightarrow> cl_job_id c \<noteq> jr_job_id (pl_job l)"
    using Cons.prems(4,5) by (auto simp: d1(4) granted_receipt_def receipt_row_def image_iff)
  have rest: "distinct (map (\<lambda>l. jr_job_id (pl_job l)) ls)" using Cons.prems(5) by simp
  from Cons.IH [OF jobs_stepD(1) [OF d1(2)] tx planned fresh rest, of "claimed @ [granted_job req e l]"]
  obtain d' where d': "fold_res (grant_lease req e t) ls (claimed @ [granted_job req e l], d1)
      = Inr ((claimed @ [granted_job req e l]) @ map (granted_job req e) ls, d')"
    "jobs_step d1 d'" "db_claim_receipts d' = db_claim_receipts d1 @ map (granted_receipt req e t) ls"
    "\<forall>l \<in> set ls. granted_row req e t l \<in> set (db_jobs d')"
    "\<forall>y \<in> set (db_jobs d1). jr_job_id y \<notin> jr_job_id ` pl_job ` set ls \<longrightarrow> y \<in> set (db_jobs d')"
    by blast
  have "granted_row req e t l \<in> set (db_jobs d')"
    using d'(5) d1(3) Cons.prems(5) by (auto simp: replaces_def image_iff)
  moreover have "\<forall>y \<in> set (db_jobs d). jr_job_id y \<notin> jr_job_id ` pl_job ` set (l # ls) \<longrightarrow> y \<in> set (db_jobs d')"
    using d'(5) replaces_other [OF d1(3)] by auto
  ultimately show ?case
    using d1(1,4) d' jobs_step_trans [OF d1(2) d'(2)] by auto
qed

end
