(* ===== verification/ClaimGuarantees.thy ===== *)
theory ClaimGuarantees
  imports ClaimProperties
begin

text \<open>
  What a caller of \<open>claim_jobs\<close>, \<open>extend_lease\<close> and \<open>recover_claim\<close> may rely on.
\<close>

section \<open>The body of a claim\<close>

lemma plan_claim_spec:
  assumes "plan_claim d req ent = Inr (ms, ls, part, n)"
  shows "ms = map maintenance_of (expired_jobs d req)" "map pl_job ls = granted d req"
    "n = length ls" "tokens_from ent 0 ls" "part = last_partition ls None"
proof -
  have ms: "ms = map maintenance_of (expired_jobs d req)" and plan: "plan_leases d req ent = Inr (ls, part, n)"
    using assms by (auto simp: plan_claim_def plan_maintenance_eq and_then_Inr_iff map_err_Inr_iff)
  show "ms = map maintenance_of (expired_jobs d req)" by (rule ms)
  show "map pl_job ls = granted d req" "n = length ls" "tokens_from ent 0 ls" "part = last_partition ls None"
    using plan_leases_spec [OF plan] by simp_all
qed

text \<open>Two planned jobs never share a partition with a leased one: a leased job is the head.\<close>

lemma expired_not_granted:
  assumes "x \<in> set (expired_jobs d req)" and "y \<in> set (granted d req)"
  shows "x \<noteq> y"
  using expired_jobs_set(3) [OF assms(1)] granted_facts(5) [OF assms(2)] by auto

lemma insert_claim_transaction_InrD:
  assumes "store_ok d" and "insert_claim_transaction t req k d = Inr d1"
  shows "store_ok d1" "\<not> has_transaction d t" "has_transaction d1 t"
    "d1 = d\<lparr>db_transactions := db_transactions d @ [claim_row t req k (int (length (db_transactions d)) + 1)]\<rparr>"
proof -
  obtain n where seq: "next_sequence ''transactions.transaction_sequence''
      (map tr_transaction_sequence (db_transactions d)) = Inr n"
    and ins: "insert_transaction (claim_row t req k n) d = Inr d1"
    using assms(2) by (auto simp: insert_claim_transaction_def and_then_Inr_iff)
  have row: "tr_transaction_sequence (claim_row t req k n) = n" "tr_transaction_id (claim_row t req k n) = t"
    by (simp_all add: claim_row_def)
  note I = insert_transaction_ok [OF assms(1) seq ins row(1)]
  show "store_ok d1" "\<not> has_transaction d t" using I(1,4) row(2) by simp_all
  show "d1 = d\<lparr>db_transactions := db_transactions d @ [claim_row t req k (int (length (db_transactions d)) + 1)]\<rparr>"
    using I(2,3) by simp
  show "has_transaction d1 t" using has_transaction_snoc [of d "claim_row t req k n" t] row(2) I(3) by simp
qed

lemma advance_cursor_simps [simp]:
  "db_transactions (advance_cursor q p d) = db_transactions d" "db_events (advance_cursor q p d) = db_events d"
  "db_event_counter (advance_cursor q p d) = db_event_counter d" "db_streams (advance_cursor q p d) = db_streams d"
  "db_projection_meta (advance_cursor q p d) = db_projection_meta d"
  "db_projection_entries (advance_cursor q p d) = db_projection_entries d"
  "db_jobs (advance_cursor q p d) = db_jobs d"
  "db_active_partitions (advance_cursor q p d) = db_active_partitions d"
  "db_claim_receipts (advance_cursor q p d) = db_claim_receipts d"
  by (simp_all add: advance_cursor_def split: option.split)

text \<open>A well-formed store is one whose other tables and job tables are.\<close>

lemma store_ok_jobs_step:
  assumes "store_ok d" and "jobs_step d d'"
  shows "store_ok d'"
proof -
  note same = only_jobsD [OF jobs_stepD(2) [OF assms(2)]]
  have "stream_count d' = stream_count d" "current_stream_version d' = current_stream_version d"
    using same(2,4) by (simp_all add: stream_count_def current_stream_version_def fun_eq_iff)
  then have "streams_ok d' = streams_ok d" using same(4) by (simp add: streams_ok_def)
  then show ?thesis
    using assms(1) jobs_stepD(1) [OF assms(2)] transactions_ok_cong [OF same(1)]
      events_ok_cong [OF same(1,2,3)] projections_ok_cong [OF same(6,5)]
    by (simp add: store_ok_def)
qed

lemma store_ok_cursor: "store_ok (advance_cursor q p d) = store_ok d"
proof -
  have "streams_ok (advance_cursor q p d) = streams_ok d"
    by (simp add: streams_ok_def current_stream_version_def stream_count_def)
  then show ?thesis
    using transactions_ok_cong [of "advance_cursor q p d" d] events_ok_cong [of "advance_cursor q p d" d]
      projections_ok_cong [of "advance_cursor q p d" d] jobs_ok_cong [of "advance_cursor q p d" d]
    by (simp add: store_ok_def)
qed

text \<open>Repairing expired leases leaves what was planned to be leased.\<close>

lemma maintenance_leaves:
  assumes ok: "jobs_ok d" and repaired: "rewritten (maintained_row req t) (expired_jobs d req) d d1"
  shows "y \<in> set (db_jobs d) \<Longrightarrow> y \<notin> set (expired_jobs d req) \<Longrightarrow> y \<in> set (db_jobs d1)"
    and "r \<in> set (granted d req) \<Longrightarrow>
      r \<in> set (db_jobs d1) \<and> jr_state r \<in> {Pending, RetryWait} \<and> earlier_done d1 r"
proof -
  have rows: "rows_ok (db_jobs d)" using ok by (simp add: jobs_ok_def)
  show keep: "y \<in> set (db_jobs d1)" if "y \<in> set (db_jobs d)" "y \<notin> set (expired_jobs d req)" for y
  proof -
    have "jr_job_id y \<notin> jr_job_id ` set (expired_jobs d req)"
      using rows_ok_unique [OF rows that(1)] expired_jobs_set(1) that(2) by blast
    then show ?thesis using repaired that(1) by (auto simp: rewritten_def)
  qed
  assume g: "r \<in> set (granted d req)"
  have "r \<notin> set (expired_jobs d req)" using expired_not_granted [OF _ g] by blast
  then have "r \<in> set (db_jobs d1)" by (rule keep [OF granted_facts(1) [OF g]])
  moreover have "earlier_done d1 r" using granted_facts(4) [OF g] repaired by (simp add: rewritten_def)
  ultimately show "r \<in> set (db_jobs d1) \<and> jr_state r \<in> {Pending, RetryWait} \<and> earlier_done d1 r"
    using granted_facts(5) [OF g] by blast
qed

text \<open>The two loops of a claim: no statement fails, whatever was planned.\<close>

lemma claim_loops:
  assumes ok: "jobs_ok d" and t: "has_transaction d t"
    and fresh: "\<forall>c \<in> set (db_claim_receipts d). cl_transaction_id c \<noteq> t"
    and ls: "map pl_job ls = granted d req"
  shows "\<exists>d1 d2. fold_res (run_maintenance req t) (map maintenance_of (expired_jobs d req)) d = Inr d1 \<and>
    fold_res (grant_lease req e t) ls ([], d1) = Inr (map (granted_job req e) ls, d2) \<and> jobs_step d d2 \<and>
    db_claim_receipts d2 = db_claim_receipts d @ map (granted_receipt req e t) ls \<and>
    (\<forall>l \<in> set ls. granted_row req e t l \<in> set (db_jobs d2)) \<and>
    (\<forall>r \<in> set (expired_jobs d req). maintained_row req t r \<in> set (db_jobs d2)) \<and>
    (\<forall>y \<in> set (db_jobs d). y \<notin> set (granted d req) \<longrightarrow> y \<notin> set (expired_jobs d req) \<longrightarrow> y \<in> set (db_jobs d2))"
proof -
  let ?rs = "expired_jobs d req"
  have rows: "rows_ok (db_jobs d)" and active: "distinct (map fst (db_active_partitions d))"
    using ok by (simp_all add: jobs_ok_def active_ok_def)
  have apart: "jr_job_id x \<noteq> jr_job_id y" if "x \<in> set (db_jobs d)" "y \<in> set (db_jobs d)" "x \<noteq> y" for x y
    using rows_ok_unique [OF rows that(1,2)] that(3) by blast
  obtain d1 where d1: "fold_res (run_maintenance req t) (map maintenance_of ?rs) d = Inr d1" "jobs_step d d1"
    "db_claim_receipts d1 = db_claim_receipts d" "rewritten (maintained_row req t) ?rs d d1"
    using maintenance_loop [where req = req and t = t, OF ok _ expired_jobs_distinct [OF rows, of req]] expired_jobs_set by blast
  have pl: "pl_job l \<in> set (granted d req)" if "l \<in> set ls" for l
    using that arg_cong [OF ls, of set] by auto
  note keep = maintenance_leaves(1) [OF ok d1(4)]
  have planned: "\<forall>l \<in> set ls. pl_job l \<in> set (db_jobs d1) \<and> jr_state (pl_job l) \<in> {Pending, RetryWait}
      \<and> earlier_done d1 (pl_job l)"
    using maintenance_leaves(2) [OF ok d1(4)] pl by blast
  have "distinct (map jr_job_id (map pl_job ls))"
    unfolding ls by (rule granted_distinct [OF active rows])
  then have dist: "distinct (map (\<lambda>l. jr_job_id (pl_job l)) ls)" by (simp add: comp_def)
  have t1: "has_transaction d1 t"
    using t has_transaction_cong [OF only_jobsD(1) [OF jobs_stepD(2) [OF d1(2)]]] by simp
  have fresh1: "\<forall>c \<in> set (db_claim_receipts d1). \<forall>l \<in> set ls. cl_transaction_id c = t \<longrightarrow> cl_job_id c \<noteq> jr_job_id (pl_job l)"
    using fresh d1(3) by auto
  obtain d2 where d2: "fold_res (grant_lease req e t) ls ([], d1) = Inr ([] @ map (granted_job req e) ls, d2)"
    "jobs_step d1 d2" "db_claim_receipts d2 = db_claim_receipts d1 @ map (granted_receipt req e t) ls"
    "\<forall>l \<in> set ls. granted_row req e t l \<in> set (db_jobs d2)"
    "\<forall>y \<in> set (db_jobs d1). jr_job_id y \<notin> jr_job_id ` pl_job ` set ls \<longrightarrow> y \<in> set (db_jobs d2)"
    using grant_loop [OF jobs_stepD(1) [OF d1(2)] t1 planned fresh1 dist, of req e "[]"] by blast
  have granted: "pl_job ` set ls = set (granted d req)"
    using arg_cong [OF ls, of set] by simp
  have maintained: "maintained_row req t r \<in> set (db_jobs d2)" if r: "r \<in> set ?rs" for r
  proof -
    have "maintained_row req t r \<in> set (db_jobs d1)" using d1(4) r by (auto simp: rewritten_def)
    moreover have "jr_job_id r \<notin> jr_job_id ` pl_job ` set ls"
      using apart expired_jobs_set(1) [OF r] granted_facts(1) expired_not_granted [OF r] unfolding granted by blast
    ultimately show ?thesis using d2(5) by (simp add: maintained_row_def)
  qed
  have "y \<in> set (db_jobs d2)" if "y \<in> set (db_jobs d)" "y \<notin> set (granted d req)" "y \<notin> set ?rs" for y
  proof -
    have "jr_job_id y \<notin> jr_job_id ` pl_job ` set ls"
      unfolding granted using apart [OF that(1)] granted_facts(1) that(2) by blast
    then show ?thesis using d2(5) keep that(1,3) by blast
  qed
  then show ?thesis
    using d1 d2 maintained jobs_step_trans [OF d1(2) d2(2)] by auto
qed

text \<open>Everything a claim that reaches \<open>COMMIT\<close> has done.\<close>

definition claim_effect :: "ClaimRequest \<Rightarrow> i64 \<Rightarrow> Id \<Rightarrow> ProposedLease list \<Rightarrow> db \<Rightarrow> db \<Rightarrow> bool" where
  "claim_effect req e t ls d d' \<longleftrightarrow>
     store_ok d' \<and> jobs_evolve d d' \<and> \<not> has_transaction d t \<and>
     db_transactions d' = db_transactions d
       @ [claim_row t req (length (expired_jobs d req) + length ls) (int (length (db_transactions d)) + 1)] \<and>
     db_events d' = db_events d \<and> db_streams d' = db_streams d \<and>
     db_projection_entries d' = db_projection_entries d \<and> db_projection_meta d' = db_projection_meta d \<and>
     db_claim_receipts d' = db_claim_receipts d @ map (granted_receipt req e t) ls \<and>
     (\<forall>l \<in> set ls. granted_row req e t l \<in> set (db_jobs d')) \<and>
     (\<forall>r \<in> set (expired_jobs d req). maintained_row req t r \<in> set (db_jobs d')) \<and>
     (\<forall>y \<in> set (db_jobs d). y \<notin> set (granted d req) \<longrightarrow> y \<notin> set (expired_jobs d req) \<longrightarrow> y \<in> set (db_jobs d')) \<and>
     db_queue_cursors d' = db_queue_cursors (advance_cursor (cr_queue req) (last_partition ls None) d)"

lemma write_claim_InrD:
  assumes ok: "store_ok d" and ls: "map pl_job ls = granted d req"
    and written: "write_claim req e t (map maintenance_of (expired_jobs d req)) ls (last_partition ls None) d
      = Inr (claimed, d')"
  shows "claimed = map (granted_job req e) ls" and "claim_effect req e t ls d d'"
proof -
  let ?k = "length (expired_jobs d req) + length ls"
  obtain d0 where ins: "insert_claim_transaction t req ?k d = Inr d0"
    using written by (auto simp: write_claim_def and_then_Inr_iff)
  note I = insert_claim_transaction_InrD [OF ok ins]
  have same: "expired_jobs d0 req = expired_jobs d req" "granted d0 req = granted d req"
    "db_jobs d0 = db_jobs d" "db_claim_receipts d0 = db_claim_receipts d"
    by (simp_all add: I(4) expired_jobs_def granted_def ready_heads_def head_job_def [abs_def]
        lease_order_def partitions_of_def cursor_of_def)
  have jobs: "jobs_ok d0" by (rule store_okD(5) [OF I(1)])
  have fresh: "\<forall>c \<in> set (db_claim_receipts d0). cl_transaction_id c \<noteq> t"
    using store_okD(5) [OF ok] I(2) same(4) by (auto simp: jobs_ok_def)
  have ls0: "map pl_job ls = granted d0 req" using ls same(2) by simp
  obtain d1 d2 where loops: "fold_res (run_maintenance req t) (map maintenance_of (expired_jobs d req)) d0 = Inr d1"
    "fold_res (grant_lease req e t) ls ([], d1) = Inr (map (granted_job req e) ls, d2)" "jobs_step d0 d2"
    and effect: "db_claim_receipts d2 = db_claim_receipts d @ map (granted_receipt req e t) ls"
    "\<forall>l \<in> set ls. granted_row req e t l \<in> set (db_jobs d2)"
    "\<forall>r \<in> set (expired_jobs d req). maintained_row req t r \<in> set (db_jobs d2)"
    "\<forall>y \<in> set (db_jobs d). y \<notin> set (granted d req) \<longrightarrow> y \<notin> set (expired_jobs d req) \<longrightarrow> y \<in> set (db_jobs d2)"
    using claim_loops [OF jobs I(3) fresh ls0, of e] unfolding same by blast
  have eq: "claimed = map (granted_job req e) ls"
    "d' = advance_cursor (cr_queue req) (last_partition ls None) d2"
    using written ins loops by (simp_all add: write_claim_def)
  show "claimed = map (granted_job req e) ls" by (rule eq(1))
  note frame = only_jobsD [OF jobs_stepD(2) [OF loops(3)]]
  have "store_ok d'"
    using store_ok_jobs_step [OF I(1) loops(3)] by (simp add: eq(2) store_ok_cursor)
  moreover have "jobs_evolve d d'"
    using jobs_evolve_trans [OF jobs_evolve_cong [OF same(3)] jobs_evolve_trans [OF jobs_stepD(3) [OF loops(3)] jobs_evolve_cong [of d' d2]]]
    by (simp add: eq(2))
  moreover have "db_queue_cursors d' = db_queue_cursors (advance_cursor (cr_queue req) (last_partition ls None) d)"
    using frame(7) I(4) by (simp add: eq(2) advance_cursor_def split: option.split)
  ultimately show "claim_effect req e t ls d d'"
    using effect frame I(2) by (simp add: claim_effect_def eq(2) I(4))
qed

text \<open>The only statement of a claim that can fail is the INSERT of its transaction.\<close>

lemma write_claim_total:
  assumes ok: "store_ok d" and ls: "map pl_job ls = granted d req"
    and t: "\<not> has_transaction d t" and room: "int (length (db_transactions d)) < i64_max"
  shows "\<exists>x. write_claim req e t (map maintenance_of (expired_jobs d req)) ls part d = Inr x"
proof -
  let ?k = "length (expired_jobs d req) + length ls"
  let ?d = "d\<lparr>db_transactions := db_transactions d @ [claim_row t req ?k (int (length (db_transactions d)) + 1)]\<rparr>"
  have seqs: "map tr_transaction_sequence (db_transactions d)
      = [1..int (length (map tr_transaction_sequence (db_transactions d)))]"
    using store_okD(1) [OF ok] by (simp add: transactions_ok_def)
  have "int (length (db_transactions d)) + 1 \<notin> set (map tr_transaction_sequence (db_transactions d))"
    by (subst seqs) (simp del: set_map)
  then have ins: "insert_claim_transaction t req ?k d = Inr ?d"
    using t room next_sequence_upto [OF seqs]
    by (simp add: insert_claim_transaction_def insert_transaction_def claim_row_def)
  note I = insert_claim_transaction_InrD [OF ok ins]
  have same: "expired_jobs ?d req = expired_jobs d req" "granted ?d req = granted d req"
    by (simp_all add: expired_jobs_def granted_def ready_heads_def head_job_def [abs_def]
        lease_order_def partitions_of_def cursor_of_def)
  have "\<forall>c \<in> set (db_claim_receipts ?d). cl_transaction_id c \<noteq> t"
    using store_okD(5) [OF ok] I(2) by (auto simp: jobs_ok_def)
  from claim_loops [OF store_okD(5) [OF I(1)] I(3) this, of ls req e] show ?thesis
    using ins ls unfolding same by (auto simp: write_claim_def and_then_Inr_iff)
qed

section \<open>Outcomes of a claim\<close>

lemma error_to_claim_definite: "error_to_claim e \<noteq> Claim_Indeterminate i"
  by (cases e) auto

lemma grant_lease_definite: "grant_lease req e t l s \<noteq> Inl (Claim_Indeterminate i)"
  unfolding grant_lease_def Let_def by (cases s) (simp add: map_err_Inl_iff)

lemma run_maintenance_definite: "run_maintenance req t a d \<noteq> Inl (Claim_Indeterminate i)"
  unfolding run_maintenance_def by (intro no_error error_to_claim_definite ClaimError.distinct)

lemma write_claim_definite: "write_claim req e t ms ls part d \<noteq> Inl (Claim_Indeterminate i)"
  unfolding write_claim_def
  by (intro no_error grant_lease_definite run_maintenance_definite ClaimError.distinct)
    (simp add: split_beta)

lemma plan_claim_definite: "plan_claim d req ent \<noteq> Inl (Claim_Indeterminate i)"
  unfolding plan_claim_def
  by (intro no_error error_to_claim_definite ClaimError.distinct) (simp add: split_beta)

definition claim_result :: "Id \<Rightarrow> ClaimedJob list \<Rightarrow> ClaimOutcome" where
  "claim_result t claimed =
     (if claimed = [] then MaintenanceCommitted \<lparr>mr_transaction_id = t\<rparr>
      else Committed \<lparr>cc_transaction_id = t, cc_jobs = claimed, cc_stale_jobs = []\<rparr>)"

lemma validate_claim_InrD:
  "validate_claim req = Inr e \<Longrightarrow> e = cr_now_ms req + cr_lease_ms req \<and> 0 < cr_lease_ms req"
  by (auto simp: validate_claim_def checked_add_i64_def split: if_splits)

lemma validate_claim_definite: "validate_claim req \<noteq> Inl (Claim_Indeterminate i)"
  by (auto simp: validate_claim_def claim_invalid_def checked_add_i64_def)

lemma attempt_claim_Inr:
  "attempt_claim io req e t ms ls part d = Inr x \<Longrightarrow>
     io_write io = None \<and> write_claim req e t ms ls part d = Inr x"
  by (auto simp: attempt_claim_def and_then_Inr_iff split: option.splits)

lemma attempt_claim_definite: "attempt_claim io req e t ms ls part d \<noteq> Inl (Claim_Indeterminate i)"
  by (auto simp: attempt_claim_def write_claim_definite and_then_Inl_iff map_err_Inl_iff split: option.split)

text \<open>How far a claim gets: to a refusal, to an empty plan, or to \<open>COMMIT\<close>.\<close>

lemma claim_reaches:
  assumes "claim_jobs req ent io d = (res, d')"
  obtains (refused) e where "res = Inl e" "d' = d" "\<nexists>i. e = Claim_Indeterminate i"
  | (noop) part n where "plan_claim d req ent = Inr ([], [], part, n)" "res = Inr Noop" "d' = d"
  | (commits) e ms ls part n t where "validate_claim req = Inr e" "plan_claim d req ent = Inr (ms, ls, part, n)"
      "ms \<noteq> [] \<or> ls \<noteq> []" "id_new (ent n) = Inr t"
      "commit_claim io t d (attempt_claim io req e t ms ls part d) = (res, d')"
proof (cases "validate_claim req")
  case (Inl e)
  then show ?thesis using assms refused validate_claim_definite [of req] by (auto simp: claim_jobs_def)
next
  case valid: (Inr e)
  show ?thesis
  proof (cases "io_begin io")
    case (Some msg)
    then show ?thesis using assms valid refused by (auto simp: claim_jobs_def)
  next
    case begun: None
    show ?thesis
    proof (cases "plan_claim d req ent")
      case (Inl err)
      then have "\<nexists>i. err = Claim_Indeterminate i" using plan_claim_definite by metis
      moreover have "res = Inl err" "d' = d" using assms valid begun Inl by (simp_all add: claim_jobs_def)
      ultimately show ?thesis using refused by blast
    next
      case (Inr p)
      obtain ms ls part n where p: "p = (ms, ls, part, n)" using prod_cases4 by blast
      show ?thesis
      proof (cases "id_new (ent n)")
        case (Inl err)
        then show ?thesis
          using assms valid begun Inr p noop refused error_to_claim_definite by (auto simp: claim_jobs_def split: if_splits)
      next
        case t: (Inr t)
        then show ?thesis
          using assms valid begun Inr p noop commits [of e ms ls part n t] by (auto simp: claim_jobs_def split: if_splits)
      qed
    qed
  qed
qed

text \<open>What \<open>COMMIT\<close> makes of it.\<close>

lemma commit_claim_cases:
  assumes "commit_claim io t d (attempt_claim io req e t ms ls part d) = (res, d')"
  obtains (refused) err where "res = Inl err" "d' = d" "\<nexists>i. err = Claim_Indeterminate i"
  | (written) claimed new where "write_claim req e t ms ls part d = Inr (claimed, new)"
      "res = Inr (claim_result t claimed) \<and> d' = new \<or>
       (\<exists>msg. res = Inl (Claim_Indeterminate \<lparr>ix_transaction_id = t, ix_proposed_jobs = map cj_job_id claimed,
          ix_storage_error = msg\<rparr>) \<and> (d' = d \<or> d' = new))"
proof (cases "attempt_claim io req e t ms ls part d")
  case (Inl err)
  then show ?thesis
    using assms refused attempt_claim_definite [of io req e t ms ls part d] by (auto simp: commit_claim_def)
next
  case (Inr x)
  obtain claimed new where x: "x = (claimed, new)" by fastforce
  have "res = Inr (claim_result t claimed) \<and> d' = new \<or>
      (\<exists>msg. res = Inl (Claim_Indeterminate \<lparr>ix_transaction_id = t, ix_proposed_jobs = map cj_job_id claimed,
         ix_storage_error = msg\<rparr>) \<and> (d' = d \<or> d' = new))"
    using assms Inr x
    by (auto simp: commit_claim_def commit_step_def claim_result_def split: option.splits if_splits prod.splits)
  then show ?thesis using written attempt_claim_Inr [OF Inr] x by simp
qed

lemma claim_outcomes:
  assumes ok: "store_ok d" and claim: "claim_jobs req ent io d = (res, d')"
  obtains (refused) e where "res = Inl e" "d' = d" "\<nexists>i. e = Claim_Indeterminate i"
  | (noop) "res = Inr Noop" "d' = d" "expired_jobs d req = []" "granted d req = []"
  | (written) e t ls new where "e = cr_now_ms req + cr_lease_ms req" "0 < cr_lease_ms req"
      "map pl_job ls = granted d req" "tokens_from ent 0 ls" "id_new (ent (length ls)) = Inr t"
      "expired_jobs d req \<noteq> [] \<or> ls \<noteq> []" "claim_effect req e t ls d new"
      "res = Inr (claim_result t (map (granted_job req e) ls)) \<and> d' = new \<or>
       (\<exists>msg. res = Inl (Claim_Indeterminate \<lparr>ix_transaction_id = t,
          ix_proposed_jobs = map (\<lambda>l. jr_job_id (pl_job l)) ls, ix_storage_error = msg\<rparr>) \<and> (d' = d \<or> d' = new))"
  using claim
proof (cases rule: claim_reaches)
  case (noop part n)
  from plan_claim_spec [OF noop(1)] show ?thesis using that(2) noop(2,3) by simp
next
  case (commits e ms ls part n t)
  note P = plan_claim_spec [OF commits(2)]
  note valid = validate_claim_InrD [OF commits(1)]
  have some: "expired_jobs d req \<noteq> [] \<or> ls \<noteq> []" using P(1) commits(3) by auto
  show ?thesis
    using commits(5)
  proof (cases rule: commit_claim_cases)
    case (written claimed new)
    have C: "claimed = map (granted_job req e) ls" "claim_effect req e t ls d new"
      using write_claim_InrD [OF ok P(2)] written(1) P(1,5) by simp_all
    have "map cj_job_id claimed = map (\<lambda>l. jr_job_id (pl_job l)) ls"
      by (simp add: C(1) granted_job_def claimed_job_def Let_def)
    note outcome = written(2) [unfolded this, unfolded C(1)]
    have "id_new (ent (length ls)) = Inr t" using commits(4) P(3) by simp
    from that(3) [OF conjunct1 [OF valid] conjunct2 [OF valid] P(2,4) this some C(2) outcome] show ?thesis .
  qed (rule that(1))
qed (rule that(1))

end
