(* ===== verification/ClaimTheorems.thy ===== *)
theory ClaimTheorems
  imports ClaimGuarantees
begin

text \<open>
  The properties of claims: what is leased and to whom, that no partition ever has two leases,
  that expired leases are repaired, and that a claim of unknown outcome is recovered exactly.
\<close>

section \<open>A concrete claim\<close>

definition sample_request :: ClaimRequest where
  "sample_request = \<lparr>cr_queue = ''q'', cr_worker_id = ''w'', cr_now_ms = 20, cr_lease_ms = 5, cr_limit = 2\<rparr>"

definition sample_entropy :: entropy where
  "sample_entropy n = Draw (as_bytes (id_from_u128 (of_nat n + 100)))"

definition sample_token :: Id where
  "sample_token = id_from_u128 100"

definition sample_claim_id :: Id where
  "sample_claim_id = id_from_u128 101"

definition sample_claimed :: ClaimedJob where
  "sample_claimed =
     \<lparr>cj_job_id = id_from_u128 3, cj_queue = ''q'', cj_partition_key = ''p'', cj_payload = [9],
      cj_worker_id = ''w'', cj_lease_token = sample_token, cj_attempt = 1,
      cj_lease_expires_at_ms = 25, cj_idempotency_key = None\<rparr>"

lemma id_new_as_bytes: "i \<noteq> ZERO \<Longrightarrow> id_new (Draw (as_bytes i)) = Inr i"
  using as_bytes_inject [of i ZERO] by (simp add: as_bytes_ZERO)

lemma sample_draws:
  "id_new (sample_entropy 0) = Inr sample_token" "id_new (sample_entropy 1) = Inr sample_claim_id"
  by (simp_all add: sample_entropy_def sample_token_def sample_claim_id_def id_new_as_bytes del: id_new.simps)

lemma sample_store_ok: "store_ok sample_db"
proof -
  have "write_batch sample_batch empty_db = Inr (1, sample_db)" by (rule sample_write)
  then show ?thesis by (rule write_batch_InrD(1) [OF empty_store_ok])
qed

lemma sample_job_row:
  "db_jobs sample_db = [new_job_row (MkId 1) (reconcilable (MkId 3) ''q'' ''p'' [9]) 1]"
  by (simp add: sample_db_def)

lemma sample_plan: "expired_jobs sample_db sample_request = []"
  "granted sample_db sample_request = db_jobs sample_db"
  by (simp_all add: expired_jobs_def granted_def sample_job_row lease_expired_def new_job_row_def
      lease_order_def partitions_of_def cursor_of_def sample_db_def empty_db_def sample_request_def
      head_job_def ready_def reconcilable_def job_base_def)

definition sample_lease :: ProposedLease where
  "sample_lease = \<lparr>pl_job = hd (db_jobs sample_db), pl_lease_token = sample_token\<rparr>"

definition sample_leased :: JobRow where
  "sample_leased = leased_row sample_request 25 sample_claim_id 1 sample_token (hd (db_jobs sample_db))"

definition sample_claimed_db :: db where
  "sample_claimed_db =
     sample_db\<lparr>db_transactions := db_transactions sample_db @ [claim_row sample_claim_id sample_request 1 2],
       db_jobs := [sample_leased],
       db_claim_receipts := [\<lparr>cl_transaction_id = sample_claim_id, cl_job_id = id_from_u128 3,
         cl_lease_token = sample_token, cl_attempt = 1, cl_worker_id = ''w'',
         cl_lease_expires_at_ms = 25\<rparr>],
       db_queue_cursors := [(''q'', Some ''p'')]\<rparr>"

lemma sample_plan_claim:
  "plan_claim sample_db sample_request sample_entropy = Inr ([], [sample_lease], Some ''p'', 1)"
proof -
  have "head_job sample_db ''q'' ''p'' = Some (hd (db_jobs sample_db))"
    by (simp add: head_job_def sample_job_row new_job_row_def reconcilable_def job_base_def)
  moreover have "lease_order sample_db ''q'' = [''p'']"
    by (simp add: lease_order_def partitions_of_def cursor_of_def sample_db_def empty_db_def)
  moreover have "ready sample_request (hd (db_jobs sample_db))"
    by (simp add: ready_def sample_job_row new_job_row_def reconcilable_def job_base_def sample_request_def)
  moreover have "cr_queue sample_request = ''q''" "cr_limit sample_request = 2"
    by (simp_all add: sample_request_def)
  ultimately show ?thesis
    using sample_draws(1)
    by (simp add: plan_claim_def plan_maintenance_eq sample_plan plan_leases_def sample_lease_def)
qed

lemma sample_write_claim:
  "write_claim sample_request 25 sample_claim_id [] [sample_lease] (Some ''p'') sample_db
     = Inr ([sample_claimed], sample_claimed_db)"
proof -
  have row: "tr_transaction_id (claim_row t req k n) = t" "tr_transaction_sequence (claim_row t req k n) = n" for t req k n
    by (simp_all add: claim_row_def)
  have batch: "tr_transaction_id (batch_row sample_batch 1) = MkId 1" "tr_transaction_sequence (batch_row sample_batch 1) = 1"
    by (simp_all add: batch_row_def sample_simps)
  let ?d = "sample_db\<lparr>db_transactions := db_transactions sample_db @ [claim_row sample_claim_id sample_request 1 2]\<rparr>"
  have tx: "insert_claim_transaction sample_claim_id sample_request 1 sample_db = Inr ?d"
    by (simp add: insert_claim_transaction_def next_sequence_def i64_max_def insert_transaction_def row batch
        has_transaction_def sample_db_def sample_claim_id_def)
  have grant: "grant_lease sample_request 25 sample_claim_id sample_lease ([], ?d)
      = Inr ([sample_claimed], sample_claimed_db\<lparr>db_queue_cursors := []\<rparr>)"
    by (simp add: grant_lease_def sample_lease_def sample_job_row update_job_def update_rows_def
        leased_row_def job_checks_def insert_receipt_def receipt_row_def has_transaction_def row
        claimed_job_def sample_claimed_def sample_request_def new_job_row_def reconcilable_def job_base_def
        sample_claimed_db_def sample_leased_def sample_db_def empty_db_def)
  show ?thesis
    using tx grant
    by (simp add: write_claim_def advance_cursor_def sample_claimed_db_def sample_request_def sample_db_def empty_db_def)
qed

lemma sample_claim:
  "claim_jobs sample_request sample_entropy healthy sample_db =
     (Inr (Committed \<lparr>cc_transaction_id = sample_claim_id, cc_jobs = [sample_claimed], cc_stale_jobs = []\<rparr>),
      sample_claimed_db)"
proof -
  have "validate_claim sample_request = Inr 25"
    by (simp add: validate_claim_def sample_request_def checked_add_i64_def is_i64_def i64_min_def i64_max_def)
  then show ?thesis
    using sample_plan_claim sample_draws(2) sample_write_claim
    by (simp add: claim_jobs_def attempt_claim_def healthy_def commit_claim_def commit_step_def)
qed

section \<open>Leases\<close>

text \<open>
  A claim, whatever its outcome, leaves a well-formed store, appends at most to the
  transactions, moves jobs only along the state machine, and touches neither events, streams nor
  projections.
\<close>

theorem claim_keeps_store:
  assumes "store_ok d" and "claim_jobs req ent io d = (res, d')"
  shows "store_ok d' \<and> jobs_evolve d d' \<and> db_events d' = db_events d \<and> db_streams d' = db_streams d \<and>
    db_projection_meta d' = db_projection_meta d \<and> db_projection_entries d' = db_projection_entries d \<and>
    (\<exists>ts. db_transactions d' = db_transactions d @ ts)"
  using assms by (cases rule: claim_outcomes [OF assms]) (auto simp: claim_effect_def)

theorem claim_keeps_store_witness: "store_ok sample_claimed_db \<and> db_events sample_claimed_db = [sample_event_row]"
  using claim_keeps_store [OF sample_store_ok sample_claim] by (simp add: sample_db_def)

text \<open>
  C17: what a successful claim hands out: at most the requested number of jobs, of distinct
  partitions, each of which was ready and the first unfinished job of its partition, and is now
  leased to the worker under the returned token until now plus the lease time, with its attempt
  count one higher (never wrapping, never above the maximum).
\<close>

theorem claim_grants:
  assumes "store_ok d" and "claim_jobs req ent io d = (Inr (Committed c), d')"
  shows "length (cc_jobs c) \<le> cr_limit req \<and> cc_jobs c \<noteq> [] \<and> cc_stale_jobs c = [] \<and>
    distinct (map cj_partition_key (cc_jobs c)) \<and>
    (\<forall>j \<in> set (cc_jobs c). \<exists>r \<in> set (db_jobs d). \<exists>r' \<in> set (db_jobs d').
       jr_queue r = cr_queue req \<and> ready req r \<and> earlier_done d r \<and> same_job r r' \<and>
       cj_job_id j = jr_job_id r \<and> cj_payload j = jr_payload r \<and> cj_worker_id j = cr_worker_id req \<and>
       cj_partition_key j = jr_partition_key r \<and>
       uint (cj_attempt j) = uint (jr_attempt r) + 1 \<and> cj_attempt j \<le> jr_max_attempts r \<and>
       jr_state r' = Leased \<and> jr_attempt r' = cj_attempt j \<and> jr_worker_id r' = Some (cr_worker_id req) \<and>
       jr_lease_token r' = Some (cj_lease_token j) \<and>
       jr_lease_expires_at_ms r' = Some (cr_now_ms req + cr_lease_ms req) \<and>
       cj_lease_expires_at_ms j = cr_now_ms req + cr_lease_ms req)"
  using assms
proof (cases rule: claim_outcomes)
  case (written e t ls new)
  have c: "cc_jobs c = map (granted_job req e) ls" "cc_stale_jobs c = []" "ls \<noteq> []" "d' = new"
    using written(8) by (auto simp: claim_result_def split: if_splits)
  have rows: "rows_ok (db_jobs d)" and active: "distinct (map fst (db_active_partitions d))"
    using store_okD(5) [OF assms(1)] by (simp_all add: jobs_ok_def active_ok_def)
  have "length (map pl_job ls) \<le> cr_limit req"
    unfolding written(3) by (simp add: granted_def)
  moreover have "map cj_partition_key (map (granted_job req e) ls) = map jr_partition_key (map pl_job ls)"
    by (simp add: granted_job_def claimed_job_def Let_def)
  then have "distinct (map cj_partition_key (cc_jobs c))"
    unfolding c(1) using granted_partitions [OF active, of req] written(3) by simp
  moreover have "\<exists>r \<in> set (db_jobs d). \<exists>r' \<in> set (db_jobs d').
       jr_queue r = cr_queue req \<and> ready req r \<and> earlier_done d r \<and> same_job r r' \<and>
       cj_job_id j = jr_job_id r \<and> cj_payload j = jr_payload r \<and> cj_worker_id j = cr_worker_id req \<and>
       cj_partition_key j = jr_partition_key r \<and>
       uint (cj_attempt j) = uint (jr_attempt r) + 1 \<and> cj_attempt j \<le> jr_max_attempts r \<and>
       jr_state r' = Leased \<and> jr_attempt r' = cj_attempt j \<and> jr_worker_id r' = Some (cr_worker_id req) \<and>
       jr_lease_token r' = Some (cj_lease_token j) \<and>
       jr_lease_expires_at_ms r' = Some (cr_now_ms req + cr_lease_ms req) \<and>
       cj_lease_expires_at_ms j = cr_now_ms req + cr_lease_ms req" if j: "j \<in> set (cc_jobs c)" for j
  proof -
    obtain l where l: "l \<in> set ls" "j = granted_job req e l" using j c(1) by auto
    have "pl_job l \<in> set (map pl_job ls)" using l(1) by simp
    then have g: "pl_job l \<in> set (granted d req)" by (simp only: written(3))
    note G = granted_facts [OF g]
    note N = next_attempt [OF rows_okD(3) [OF rows G(1)] G(5)]
    have "granted_row req e t l \<in> set (db_jobs d')"
      using written(7) l(1) c(4) by (simp add: claim_effect_def)
    then show ?thesis
      using G N written(1)
      by (intro bexI [of _ "pl_job l"] bexI [of _ "granted_row req e t l"])
        (simp_all add: l(2) granted_job_def claimed_job_def Let_def granted_row_def leased_row_def same_job_def)
  qed
  ultimately show ?thesis using c by simp
qed auto

theorem claim_grants_witness:
  "length [sample_claimed] \<le> cr_limit sample_request \<and>
   (\<exists>r \<in> set (db_jobs sample_claimed_db). jr_state r = Leased \<and> jr_lease_token r = Some sample_token)"
  using claim_grants [OF sample_store_ok sample_claim] by (auto simp: sample_claimed_def)

lemma head_job_ready:
  assumes "jobs_ok d" and "r \<in> set (db_jobs d)" and "ready req r" and "earlier_done d r"
  shows "head_job d (jr_queue r) (jr_partition_key r) = Some r"
    and "jr_partition_key r \<in> set (lease_order d (jr_queue r))"
proof -
  let ?P = "\<lambda>s. jr_queue s = jr_queue r \<and> jr_partition_key s = jr_partition_key r \<and> jr_state s \<in> set ACTIVE_STATES"
  have rows: "rows_ok (db_jobs d)" and active: "active_ok (db_active_partitions d) (db_jobs d)"
    using assms(1) by (simp_all add: jobs_ok_def)
  have open_r: "\<not> is_terminal (jr_state r)"
    using assms(3) by (cases "jr_state r") (auto simp: ready_def)
  define xs where "xs = sort_key jr_enqueue_sequence (filter ?P (db_jobs d))"
  have "r \<in> set xs" using assms(2) open_r by (simp add: xs_def)
  then obtain s rest where "xs = s # rest" by (cases xs) auto
  then have s: "sort_key jr_enqueue_sequence (filter ?P (db_jobs d)) = s # rest" by (simp only: xs_def)
  note H = sort_key_head [OF s]
  have mem: "s \<in> set (db_jobs d)" "job_partition s = job_partition r" "\<not> is_terminal (jr_state s)"
    using H(1) by (auto simp: job_partition_def)
  have "jr_enqueue_sequence s \<le> jr_enqueue_sequence r"
    using H(2) assms(2) open_r by simp
  moreover have "\<not> jr_enqueue_sequence s < jr_enqueue_sequence r"
    using assms(4) mem by (auto simp: earlier_done_def)
  ultimately have "s = r"
    using rows_ok_sequence_unique [OF rows mem(1) assms(2)] by simp
  then show "head_job d (jr_queue r) (jr_partition_key r) = Some r"
    using s by (simp add: head_job_def)
  have "map_of (db_active_partitions d) (job_partition r) \<noteq> None"
    using active_okD(2) [OF active assms(2) open_r] by auto
  then have "job_partition r \<in> fst ` set (db_active_partitions d)"
    by (simp add: map_of_eq_None_iff)
  then show "jr_partition_key r \<in> set (lease_order d (jr_queue r))"
    by (simp add: lease_order_set partitions_of_set job_partition_def)
qed

text \<open>
  C19: Claiming makes progress: a ready job that is first in its partition is leased by the claim,
  unless the claim already hands out as many jobs as it may.
\<close>

theorem claim_progress:
  assumes "store_ok d" and "claim_jobs req ent io d = (Inr out, d')"
    and "r \<in> set (db_jobs d)" and "jr_queue r = cr_queue req" and "ready req r" and "earlier_done d r"
  shows "case out of
      Committed c \<Rightarrow> jr_job_id r \<in> cj_job_id ` set (cc_jobs c) \<or> length (cc_jobs c) = cr_limit req
    | _ \<Rightarrow> cr_limit req = 0"
proof -
  let ?all = "ready_heads d req (lease_order d (cr_queue req))"
  have "r \<in> set ?all"
    using head_job_ready [OF store_okD(5) [OF assms(1)] assms(3,5,6)] assms(4,5)
    by (auto simp: ready_heads_set)
  then have full: "r \<in> set (granted d req) \<or> length (granted d req) = cr_limit req"
    unfolding granted_def by (cases "length ?all \<le> cr_limit req") auto
  show ?thesis
    using assms(1,2)
  proof (cases rule: claim_outcomes)
    case noop
    then show ?thesis using full by simp
  next
    case (written e t ls new)
    have out: "out = claim_result t (map (granted_job req e) ls)" using written(8) by auto
    have ids: "cj_job_id ` set (map (granted_job req e) ls) = jr_job_id ` set (granted d req)"
    proof -
      have "set (granted d req) = pl_job ` set ls" using arg_cong [OF written(3), of set] by simp
      then show ?thesis by (simp add: image_image granted_job_def claimed_job_def Let_def)
    qed
    have "length ls = length (granted d req)" using arg_cong [OF written(3), of length] by simp
    then show ?thesis
      using full ids out written(3) by (auto simp: claim_result_def)
  qed auto
qed

theorem claim_progress_witness: "id_from_u128 3 \<in> cj_job_id ` set [sample_claimed]"
  using claim_progress [OF sample_store_ok sample_claim, of "hd (db_jobs sample_db)"]
  by (simp add: sample_job_row new_job_row_def reconcilable_def job_base_def sample_request_def
      ready_def earlier_done_def sample_claimed_def)

section \<open>Exclusion and repair\<close>

text \<open>In a well-formed store a partition has at most one started unfinished job.\<close>

definition started :: "JobRow \<Rightarrow> bool" where
  "started r \<longleftrightarrow> (0 < jr_attempt r \<or> jr_state r \<in> {Leased, Uncertain}) \<and> \<not> is_terminal (jr_state r)"

lemma started_unique:
  assumes "store_ok d" and "r \<in> set (db_jobs d)" and "s \<in> set (db_jobs d)"
    and "started r" and "started s" and "job_partition r = job_partition s"
  shows "r = s"
proof -
  have rows: "rows_ok (db_jobs d)" using store_okD(5) [OF assms(1)] by (simp add: jobs_ok_def)
  have "0 < jr_attempt x \<and> \<not> is_terminal (jr_state x)" if "x \<in> set (db_jobs d)" "started x" for x
    using rows_okD(3) [OF rows that(1)] that(2) by (auto simp: job_row_ok_def started_def)
  then have "\<not> jr_enqueue_sequence r < jr_enqueue_sequence s" "\<not> jr_enqueue_sequence s < jr_enqueue_sequence r"
    using rows_okD(4) [OF rows] assms(2-6) by metis+
  then show ?thesis
    using rows_ok_sequence_unique [OF rows assms(2,3)] by simp
qed

lemma sample_claimed_ok: "store_ok sample_claimed_db" "sample_leased \<in> set (db_jobs sample_claimed_db)"
  "jr_state sample_leased = Leased"
proof -
  have "map pl_job [sample_lease] = granted sample_db sample_request"
    by (simp add: sample_plan sample_lease_def sample_job_row)
  moreover have "last_partition [sample_lease] None = Some ''p''"
    by (simp add: last_partition_def sample_lease_def sample_job_row new_job_row_def reconcilable_def job_base_def)
  ultimately have "claim_effect sample_request 25 sample_claim_id [sample_lease] sample_db sample_claimed_db"
    using write_claim_InrD(2) [OF sample_store_ok, of "[sample_lease]"] sample_write_claim
    by (simp add: sample_plan)
  then show "store_ok sample_claimed_db" by (simp add: claim_effect_def)
  show "sample_leased \<in> set (db_jobs sample_claimed_db)" "jr_state sample_leased = Leased"
    by (simp_all add: sample_claimed_db_def sample_leased_def leased_row_def)
qed

text \<open>The state a repaired job is in, by its effect mode and its attempts.\<close>

definition repaired :: "i64 \<Rightarrow> JobRow \<Rightarrow> JobRow \<Rightarrow> bool" where
  "repaired now r r' \<longleftrightarrow>
     same_job r r' \<and> jr_attempt r' = jr_attempt r \<and> jr_lease_token r' = None \<and> jr_worker_id r' = None \<and>
     jr_lease_expires_at_ms r' = None \<and> jr_retry_after_ms r' = None \<and>
     (case jr_effect_mode r of
        RequiresReconciliation \<Rightarrow> jr_state r' = Uncertain
      | ExplicitlyIdempotent \<Rightarrow>
          if jr_max_attempts r \<le> jr_attempt r
          then jr_state r' = Dead \<and> jr_terminal_at_ms r' = Some now \<and>
            jr_error_summary r' = Some ''lease expired at final attempt''
          else jr_state r' = Pending \<and> jr_error_summary r' = jr_error_summary r)"

lemma maintained_row_repaired: "repaired (cr_now_ms req) r (maintained_row req t r)"
  by (cases "jr_effect_mode r")
    (simp_all add: repaired_def maintained_row_def maintenance_target_def terminal_row_def nonterminal_row_def
      same_job_def coalesce_def)

text \<open>The expired leases of a queue, and the 64 that expired first.\<close>

definition expired_rows :: "i64 \<Rightarrow> str \<Rightarrow> db \<Rightarrow> JobRow set" where
  "expired_rows now queue d =
     {r \<in> set (db_jobs d). jr_queue r = queue \<and> jr_state r = Leased \<and>
        (\<exists>ms < now. jr_lease_expires_at_ms r = Some ms)}"

lemma expired_jobs_first:
  assumes "rows_ok (db_jobs d)"
  shows "set (expired_jobs d req) \<subseteq> expired_rows (cr_now_ms req) (cr_queue req) d"
    and "card (set (expired_jobs d req)) = min 64 (card (expired_rows (cr_now_ms req) (cr_queue req) d))"
    and "r \<in> set (expired_jobs d req) \<Longrightarrow>
      s \<in> expired_rows (cr_now_ms req) (cr_queue req) d - set (expired_jobs d req) \<Longrightarrow>
      the (jr_lease_expires_at_ms r) \<le> the (jr_lease_expires_at_ms s)"
proof -
  let ?xs = "sort_key expiry_key (filter (lease_expired req) (db_jobs d))"
  have set: "set ?xs = expired_rows (cr_now_ms req) (cr_queue req) d"
    by (auto simp: expired_rows_def lease_expired_def split: option.splits)
  have "distinct (db_jobs d)" using rows_okD(2) [OF assms] by (simp add: distinct_map)
  then have dist: "distinct ?xs" by simp
  show sub: "set (expired_jobs d req) \<subseteq> expired_rows (cr_now_ms req) (cr_queue req) d"
    unfolding set [symmetric] expired_jobs_def by (rule set_take_subset)
  show "card (set (expired_jobs d req)) = min 64 (card (expired_rows (cr_now_ms req) (cr_queue req) d))"
    unfolding set [symmetric] expired_jobs_def
    using distinct_card [OF dist] distinct_card [OF distinct_take [OF dist, of 64]] by simp
  assume r: "r \<in> set (expired_jobs d req)"
    and s: "s \<in> expired_rows (cr_now_ms req) (cr_queue req) d - set (expired_jobs d req)"
  have "set (take 64 ?xs) \<union> set (drop 64 ?xs) = set ?xs"
    by (metis append_take_drop_id set_append)
  then have "s \<in> set (drop 64 ?xs)" using s unfolding set [symmetric] expired_jobs_def by blast
  moreover have "sorted (map expiry_key (take 64 ?xs @ drop 64 ?xs))"
    by (simp only: append_take_drop_id sorted_sort_key)
  ultimately have "expiry_key r \<le> expiry_key s"
    using r unfolding expired_jobs_def map_append sorted_append by auto
  moreover have "x \<in> expired_rows (cr_now_ms req) (cr_queue req) d \<Longrightarrow> expiry_key x = the (jr_lease_expires_at_ms x)" for x
    by (auto simp: expired_rows_def expiry_key_def)
  ultimately show "the (jr_lease_expires_at_ms r) \<le> the (jr_lease_expires_at_ms s)"
    using sub r s by auto
qed

text \<open>
  C21: a successful claim repairs the expired leases of its queue, all of them up to 64, and the 64
  that expired first when there are more. A repaired job loses its lease and keeps its attempts: it becomes
  uncertain when its effects need reconciliation, dead at its last attempt and pending otherwise
  when they are idempotent. Every other leased job of the store stays exactly as it is.
\<close>

theorem claim_repairs_expired:
  assumes "store_ok d" and "claim_jobs req ent io d = (Inr out, d')"
  shows "\<exists>R \<subseteq> expired_rows (cr_now_ms req) (cr_queue req) d.
    card R = min 64 (card (expired_rows (cr_now_ms req) (cr_queue req) d)) \<and>
    (\<forall>r \<in> R. \<forall>s \<in> expired_rows (cr_now_ms req) (cr_queue req) d - R.
       the (jr_lease_expires_at_ms r) \<le> the (jr_lease_expires_at_ms s)) \<and>
    (\<forall>r \<in> R. \<exists>r' \<in> set (db_jobs d'). repaired (cr_now_ms req) r r') \<and>
    (\<forall>r \<in> set (db_jobs d) - R. jr_state r = Leased \<longrightarrow> r \<in> set (db_jobs d'))"
proof -
  have rows: "rows_ok (db_jobs d)" using store_okD(5) [OF assms(1)] by (simp add: jobs_ok_def)
  note first = expired_jobs_first [OF rows, where req = req]
  have not_granted: "r \<notin> set (granted d req)" if "jr_state r = Leased" for r
    using granted_facts(5) [of r d req] that by auto
  have "(\<forall>r \<in> set (expired_jobs d req). \<exists>r' \<in> set (db_jobs d'). repaired (cr_now_ms req) r r') \<and>
    (\<forall>r \<in> set (db_jobs d) - set (expired_jobs d req). jr_state r = Leased \<longrightarrow> r \<in> set (db_jobs d'))"
    using assms(1,2)
  proof (cases rule: claim_outcomes)
    case (written e t ls new)
    then have "d' = new" by auto
    then show ?thesis
      using written(7) not_granted maintained_row_repaired [of req _ t] unfolding claim_effect_def by blast
  qed auto
  then show ?thesis using first by (intro exI [of _ "set (expired_jobs d req)"]) blast
qed

definition repair_request :: ClaimRequest where
  "repair_request = sample_request\<lparr>cr_now_ms := 30, cr_limit := 0\<rparr>"

lemma sample_repair:
  "\<exists>d'. claim_jobs repair_request sample_entropy healthy sample_claimed_db
     = (Inr (MaintenanceCommitted \<lparr>mr_transaction_id = sample_token\<rparr>), d')"
proof -
  have "expired_jobs sample_claimed_db repair_request = [sample_leased]"
    by (simp add: expired_jobs_def sample_claimed_db_def lease_expired_def sample_leased_def leased_row_def
        sample_job_row new_job_row_def reconcilable_def job_base_def repair_request_def sample_request_def)
  moreover from this have plan: "plan_claim sample_claimed_db repair_request sample_entropy
      = Inr (map maintenance_of (expired_jobs sample_claimed_db repair_request), [], None, 0)"
    by (simp add: plan_claim_def plan_maintenance_eq plan_leases_def repair_request_def)
  moreover have "map pl_job [] = granted sample_claimed_db repair_request"
    by (simp add: granted_def repair_request_def)
  moreover have "\<not> has_transaction sample_claimed_db sample_token"
    by (simp add: has_transaction_def sample_claimed_db_def sample_db_def batch_row_def sample_simps
        claim_row_def sample_claim_id_def sample_token_def)
  moreover have "int (length (db_transactions sample_claimed_db)) < i64_max"
    by (simp add: sample_claimed_db_def sample_db_def i64_max_def)
  ultimately obtain x where x: "write_claim repair_request 35 sample_token
      (map maintenance_of (expired_jobs sample_claimed_db repair_request)) [] None sample_claimed_db = Inr x"
    using write_claim_total [OF sample_claimed_ok(1)] by blast
  obtain claimed new where "x = (claimed, new)" by fastforce
  moreover from this have "claimed = []"
    using x by (auto simp: write_claim_def and_then_Inr_iff)
  moreover have "validate_claim repair_request = Inr 35"
    by (simp add: validate_claim_def repair_request_def sample_request_def checked_add_i64_def is_i64_def i64_min_def i64_max_def)
  ultimately show ?thesis
    using plan x sample_draws(1) \<open>expired_jobs _ _ = _\<close>
    by (simp add: claim_jobs_def attempt_claim_def healthy_def commit_claim_def commit_step_def)
qed

theorem claim_repairs_expired_witness:
  "\<exists>r' \<in> set (db_jobs (snd (claim_jobs repair_request sample_entropy healthy sample_claimed_db))).
     jr_state r' = Uncertain \<and> jr_lease_token r' = None"
proof -
  obtain d' where d': "claim_jobs repair_request sample_entropy healthy sample_claimed_db
      = (Inr (MaintenanceCommitted \<lparr>mr_transaction_id = sample_token\<rparr>), d')"
    using sample_repair by blast
  have fields: "jr_state sample_leased = Leased" "jr_lease_expires_at_ms sample_leased = Some 25"
    "jr_queue sample_leased = ''q''" "jr_effect_mode sample_leased = RequiresReconciliation"
    "cr_now_ms repair_request = 30" "cr_queue repair_request = ''q''"
    by (simp_all add: sample_leased_def leased_row_def sample_job_row new_job_row_def
        reconcilable_def job_base_def repair_request_def sample_request_def)
  then have expired: "expired_rows (cr_now_ms repair_request) (cr_queue repair_request) sample_claimed_db = {sample_leased}"
    by (auto simp: expired_rows_def sample_claimed_db_def)
  then obtain r' where "r' \<in> set (db_jobs d')" "repaired 30 sample_leased r'"
    using claim_repairs_expired [OF sample_claimed_ok(1) d'] fields(5) by (auto simp: subset_singleton_iff)
  then show ?thesis using d' fields(4) by (auto simp: repaired_def)
qed

section \<open>Recovery\<close>

definition receipt_job :: "db \<Rightarrow> ReceiptRow \<Rightarrow> JobRow" where
  "receipt_job d c = the (find (\<lambda>j. jr_job_id j = cl_job_id c) (db_jobs d))"

definition lease_current :: "db \<Rightarrow> i64 \<Rightarrow> ReceiptRow \<Rightarrow> bool" where
  "lease_current d now c \<longleftrightarrow>
     (let r = receipt_job d c in jr_state r = Leased \<and> jr_lease_token r = Some (cl_lease_token c) \<and>
        (case jr_lease_expires_at_ms r of None \<Rightarrow> False | Some ms \<Rightarrow> now \<le> ms))"

definition recovered_job :: "db \<Rightarrow> ReceiptRow \<Rightarrow> ClaimedJob" where
  "recovered_job d c =
     (let r = receipt_job d c in
      \<lparr>cj_job_id = cl_job_id c, cj_queue = jr_queue r, cj_partition_key = jr_partition_key r,
       cj_payload = jr_payload r, cj_worker_id = cl_worker_id c, cj_lease_token = cl_lease_token c,
       cj_attempt = cl_attempt c, cj_lease_expires_at_ms = cl_lease_expires_at_ms c,
       cj_idempotency_key = jr_idempotency_key r\<rparr>)"

definition receipts_of :: "db \<Rightarrow> Id \<Rightarrow> ReceiptRow list" where
  "receipts_of d t = sort_key cl_job_id (filter (\<lambda>c. cl_transaction_id c = t) (db_claim_receipts d))"

lemma map_filter_total:
  "\<forall>c \<in> set cs. \<exists>j. f c = Some j \<Longrightarrow> List.map_filter (\<lambda>c. map_option (g c) (f c)) cs = map (\<lambda>c. g c (the (f c))) cs"
  by (induction cs) (auto simp: map_filter_simps)

lemma receipt_job_found:
  assumes "jobs_ok d" and "c \<in> set (db_claim_receipts d)"
  shows "find (\<lambda>j. jr_job_id j = cl_job_id c) (db_jobs d) = Some (receipt_job d c)"
    and "receipt_job d c \<in> set (db_jobs d)" and "jr_job_id (receipt_job d c) = cl_job_id c"
proof -
  have "cl_job_id c \<in> jr_job_id ` set (db_jobs d)"
    using assms by (auto simp: jobs_ok_def receipts_ok_def)
  then have "find (\<lambda>j. jr_job_id j = cl_job_id c) (db_jobs d) \<noteq> None"
    by (simp add: find_key_None)
  then show f: "find (\<lambda>j. jr_job_id j = cl_job_id c) (db_jobs d) = Some (receipt_job d c)"
    by (auto simp: receipt_job_def)
  show "receipt_job d c \<in> set (db_jobs d)" "jr_job_id (receipt_job d c) = cl_job_id c"
    using find_SomeD [OF f] by simp_all
qed

lemma claim_rows_eq:
  assumes "jobs_ok d"
  shows "claim_rows d t = map (\<lambda>c. claim_columns c (receipt_job d c)) (receipts_of d t)"
proof -
  have "\<forall>c \<in> set (receipts_of d t). \<exists>j. find (\<lambda>j. jr_job_id j = cl_job_id c) (db_jobs d) = Some j"
    using receipt_job_found(1) [OF assms] by (auto simp: receipts_of_def)
  from map_filter_total [OF this] show ?thesis
    by (simp add: claim_rows_def receipts_of_def receipt_job_def)
qed

lemma state_encode_leased [simp]: "state_encode s = 1 \<longleftrightarrow> s = Leased"
  by (cases s) simp_all

lemma recover_row_columns:
  "recover_row now (claim_columns c (receipt_job d c)) (jobs, stale) =
     (if lease_current d now c then Inr (jobs @ [recovered_job d c], stale) else Inr (jobs, stale @ [cl_job_id c]))"
  by (simp add: recover_row_def claim_columns_def still_current_def lease_current_def recovered_job_def Let_def)

lemma recover_rows:
  "fold_res (recover_row now) (map (\<lambda>c. claim_columns c (receipt_job d c)) cs) (jobs, stale) =
     Inr (jobs @ map (recovered_job d) (filter (lease_current d now) cs),
          stale @ map cl_job_id (filter (\<lambda>c. \<not> lease_current d now c) cs))"
  by (induction cs arbitrary: jobs stale) (simp_all add: recover_row_columns)

lemma recover_claim_eq:
  assumes "jobs_ok d"
  shows "recover_claim d t now = Inr (
    if receipts_of d t \<noteq> []
    then Recovered_Committed \<lparr>cc_transaction_id = t,
           cc_jobs = map (recovered_job d) (filter (lease_current d now) (receipts_of d t)),
           cc_stale_jobs = map cl_job_id (filter (\<lambda>c. \<not> lease_current d now c) (receipts_of d t))\<rparr>
    else if has_transaction d t then Recovered_MaintenanceCommitted \<lparr>mr_transaction_id = t\<rparr>
    else Recovered_Absent)"
  by (simp add: recover_claim_def claim_rows_eq [OF assms] recover_rows)

text \<open>What recovery says of one receipt.\<close>

lemma recovered_receipts:
  assumes ok: "jobs_ok d" and rec: "recover_claim d t now = Inr (Recovered_Committed c)"
  shows "cc_transaction_id c = t"
    and "cc_jobs c = map (recovered_job d) (filter (lease_current d now) (receipts_of d t))"
    and "cc_stale_jobs c = map cl_job_id (filter (\<lambda>x. \<not> lease_current d now x) (receipts_of d t))"
    and "set (receipts_of d t) = {x \<in> set (db_claim_receipts d). cl_transaction_id x = t}"
    and "distinct (map cl_job_id (receipts_of d t))"
proof -
  have c: "c = \<lparr>cc_transaction_id = t, cc_jobs = map (recovered_job d) (filter (lease_current d now) (receipts_of d t)),
      cc_stale_jobs = map cl_job_id (filter (\<lambda>x. \<not> lease_current d now x) (receipts_of d t))\<rparr>"
    using rec recover_claim_eq [OF ok, of t now] by (auto split: if_splits)
  then show "cc_transaction_id c = t"
    "cc_jobs c = map (recovered_job d) (filter (lease_current d now) (receipts_of d t))"
    "cc_stale_jobs c = map cl_job_id (filter (\<lambda>x. \<not> lease_current d now x) (receipts_of d t))" by simp_all
  show set: "set (receipts_of d t) = {x \<in> set (db_claim_receipts d). cl_transaction_id x = t}"
    by (auto simp: receipts_of_def)
  have pairs: "distinct (map (\<lambda>c. (cl_transaction_id c, cl_job_id c)) (db_claim_receipts d))"
    using ok by (simp add: jobs_ok_def receipts_ok_def)
  then have "distinct (receipts_of d t)" by (simp add: receipts_of_def distinct_map)
  moreover have "inj_on cl_job_id (set (receipts_of d t))"
    using pairs unfolding set by (auto simp: distinct_map inj_on_def)
  ultimately show "distinct (map cl_job_id (receipts_of d t))" by (simp add: distinct_map)
qed

lemma recovered_job_fields [simp]:
  "cj_job_id (recovered_job d x) = cl_job_id x" "cj_lease_token (recovered_job d x) = cl_lease_token x"
  by (simp_all add: recovered_job_def Let_def)

lemma lease_current_iff:
  assumes "jobs_ok d" and "x \<in> set (db_claim_receipts d)" and "r \<in> set (db_jobs d)" and "jr_job_id r = cl_job_id x"
  shows "lease_current d now x \<longleftrightarrow> jr_state r = Leased \<and> jr_lease_token r = Some (cl_lease_token x) \<and>
      (\<exists>ms \<ge> now. jr_lease_expires_at_ms r = Some ms)"
    and "receipt_job d x = r"
proof -
  have "rows_ok (db_jobs d)" using assms(1) by (simp add: jobs_ok_def)
  then show r: "receipt_job d x = r"
    using receipt_job_found [OF assms(1,2)] rows_ok_unique assms(3,4) by metis
  show "lease_current d now x \<longleftrightarrow> jr_state r = Leased \<and> jr_lease_token r = Some (cl_lease_token x) \<and>
      (\<exists>ms \<ge> now. jr_lease_expires_at_ms r = Some ms)"
    by (auto simp: lease_current_def r Let_def split: option.splits)
qed

text \<open>
  C22: recovery of a claim reports every job the claim has a receipt for, each once, and says
  exactly which leases are still current: when the job is leased now, under the token of the receipt, and not past its
  expiry, it is returned with the columns of the receipt, the original token among them;
  otherwise, also when it has been leased again under another token, it is stale.
\<close>

theorem recover_only_current:
  assumes "store_ok d" and "recover_claim d t now = Inr (Recovered_Committed c)"
  shows "cc_transaction_id c = t \<and>
    cj_job_id ` set (cc_jobs c) \<union> set (cc_stale_jobs c)
      = cl_job_id ` {x \<in> set (db_claim_receipts d). cl_transaction_id x = t} \<and>
    distinct (map cj_job_id (cc_jobs c) @ cc_stale_jobs c) \<and>
    (\<forall>x \<in> set (db_claim_receipts d). cl_transaction_id x = t \<longrightarrow>
      (\<exists>r \<in> set (db_jobs d). jr_job_id r = cl_job_id x \<and>
        (if jr_state r = Leased \<and> jr_lease_token r = Some (cl_lease_token x) \<and>
            (\<exists>ms \<ge> now. jr_lease_expires_at_ms r = Some ms)
         then \<lparr>cj_job_id = cl_job_id x, cj_queue = jr_queue r, cj_partition_key = jr_partition_key r,
             cj_payload = jr_payload r, cj_worker_id = cl_worker_id x, cj_lease_token = cl_lease_token x,
             cj_attempt = cl_attempt x, cj_lease_expires_at_ms = cl_lease_expires_at_ms x,
             cj_idempotency_key = jr_idempotency_key r\<rparr> \<in> set (cc_jobs c)
         else cl_job_id x \<in> set (cc_stale_jobs c))))"
proof (intro conjI ballI impI)
  have ok: "jobs_ok d" by (rule store_okD(5) [OF assms(1)])
  note R = recovered_receipts [OF ok assms(2)]
  show "cc_transaction_id c = t" by (rule R(1))
  show "cj_job_id ` set (cc_jobs c) \<union> set (cc_stale_jobs c)
      = cl_job_id ` {x \<in> set (db_claim_receipts d). cl_transaction_id x = t}"
    unfolding R(2,3) R(4) [symmetric] by (auto simp: image_image)
  show "distinct (map cj_job_id (cc_jobs c) @ cc_stale_jobs c)"
    using R(5) unfolding R(2,3) by (auto simp: distinct_map comp_def inj_on_def)
  fix x assume x: "x \<in> set (db_claim_receipts d)" "cl_transaction_id x = t"
  note row = receipt_job_found(2,3) [OF ok x(1)]
  show "\<exists>r \<in> set (db_jobs d). jr_job_id r = cl_job_id x \<and>
        (if jr_state r = Leased \<and> jr_lease_token r = Some (cl_lease_token x) \<and>
            (\<exists>ms \<ge> now. jr_lease_expires_at_ms r = Some ms)
         then \<lparr>cj_job_id = cl_job_id x, cj_queue = jr_queue r, cj_partition_key = jr_partition_key r,
             cj_payload = jr_payload r, cj_worker_id = cl_worker_id x, cj_lease_token = cl_lease_token x,
             cj_attempt = cl_attempt x, cj_lease_expires_at_ms = cl_lease_expires_at_ms x,
             cj_idempotency_key = jr_idempotency_key r\<rparr> \<in> set (cc_jobs c)
         else cl_job_id x \<in> set (cc_stale_jobs c))"
  proof (intro bexI [of _ "receipt_job d x"] conjI)
    have x': "x \<in> set (receipts_of d t)" using x R(4) by simp
    show "if jr_state (receipt_job d x) = Leased \<and> jr_lease_token (receipt_job d x) = Some (cl_lease_token x) \<and>
            (\<exists>ms \<ge> now. jr_lease_expires_at_ms (receipt_job d x) = Some ms)
         then \<lparr>cj_job_id = cl_job_id x, cj_queue = jr_queue (receipt_job d x),
             cj_partition_key = jr_partition_key (receipt_job d x),
             cj_payload = jr_payload (receipt_job d x), cj_worker_id = cl_worker_id x, cj_lease_token = cl_lease_token x,
             cj_attempt = cl_attempt x, cj_lease_expires_at_ms = cl_lease_expires_at_ms x,
             cj_idempotency_key = jr_idempotency_key (receipt_job d x)\<rparr> \<in> set (cc_jobs c)
         else cl_job_id x \<in> set (cc_stale_jobs c)"
      unfolding lease_current_iff(1) [OF ok x(1) row, symmetric] R(2,3)
      using x' by (auto simp: recovered_job_def Let_def)
  qed (use row in simp_all)
qed

theorem recover_only_current_witness:
  "\<exists>c. recover_claim sample_claimed_db sample_claim_id 25 = Inr (Recovered_Committed c) \<and>
     cj_job_id ` set (cc_jobs c) = {id_from_u128 3} \<and> cc_stale_jobs c = []"
proof -
  obtain c where c: "recover_claim sample_claimed_db sample_claim_id 25 = Inr (Recovered_Committed c)"
    using recover_claim_eq [OF store_okD(5) [OF sample_claimed_ok(1)], of sample_claim_id 25]
    by (simp add: receipts_of_def sample_claimed_db_def)
  have jobs: "db_jobs sample_claimed_db = [sample_leased]" by (simp add: sample_claimed_db_def)
  have fields: "jr_state sample_leased = Leased" "jr_lease_token sample_leased = Some sample_token"
    "jr_lease_expires_at_ms sample_leased = Some 25"
    by (simp_all add: sample_leased_def leased_row_def sample_job_row new_job_row_def
        reconcilable_def job_base_def sample_request_def)
  obtain x where x: "db_claim_receipts sample_claimed_db = [x]" "cl_transaction_id x = sample_claim_id"
    "cl_job_id x = id_from_u128 3" "cl_lease_token x = sample_token"
    by (simp add: sample_claimed_db_def)
  have S: "cj_job_id ` set (cc_jobs c) \<union> set (cc_stale_jobs c) = {id_from_u128 3}"
    "distinct (map cj_job_id (cc_jobs c) @ cc_stale_jobs c)" "id_from_u128 3 \<in> cj_job_id ` set (cc_jobs c)"
    using recover_only_current [OF sample_claimed_ok(1) c] by (auto simp: jobs fields x intro: rev_image_eqI)
  then show ?thesis using c by (intro exI [of _ c]) (cases "cc_stale_jobs c"; auto)
qed

section \<open>Recovery after a claim\<close>

lemma insort_key_map: "insort_key k (f x) (map f ys) = map f (insort_key (\<lambda>x. k (f x)) x ys)"
  by (induction ys) simp_all

lemma sort_key_map: "sort_key k (map f xs) = map f (sort_key (\<lambda>x. k (f x)) xs)"
  by (induction xs) (simp_all add: insort_key_map)

text \<open>Right after a claim, while its leases last, recovery finds exactly what was granted.\<close>

lemma recover_written:
  assumes effect: "claim_effect req e t ls d d'" and ok: "store_ok d" and "now \<le> e"
    and ls: "map pl_job ls = granted d req"
  shows "recover_claim d' t now = Inr (
    if ls = [] then Recovered_MaintenanceCommitted \<lparr>mr_transaction_id = t\<rparr>
    else Recovered_Committed \<lparr>cc_transaction_id = t,
      cc_jobs = sort_key cj_job_id (map (granted_job req e) ls), cc_stale_jobs = []\<rparr>)"
proof -
  have E: "store_ok d'" "\<not> has_transaction d t" "has_transaction d' t"
    "db_claim_receipts d' = db_claim_receipts d @ map (granted_receipt req e t) ls"
    "\<forall>l \<in> set ls. granted_row req e t l \<in> set (db_jobs d')"
    using effect by (auto simp: claim_effect_def has_transaction_def claim_row_def)
  have jobs: "jobs_ok d'" by (rule store_okD(5) [OF E(1)])
  have old: "filter (\<lambda>c. cl_transaction_id c = t) (db_claim_receipts d) = []"
    using store_okD(5) [OF ok] E(2) by (auto simp: jobs_ok_def filter_empty_conv)
  let ?id = "\<lambda>l. jr_job_id (pl_job l)"
  let ?ls = "sort_key ?id ls"
  have tx: "cl_transaction_id (granted_receipt req e t l) = t" "cl_job_id (granted_receipt req e t l) = ?id l" for l
    by (simp_all add: granted_receipt_def receipt_row_def)
  have "receipts_of d' t = sort_key cl_job_id (map (granted_receipt req e t) ls)"
    by (simp add: receipts_of_def E(4) old tx filter_map comp_def)
  also have "\<dots> = map (granted_receipt req e t) ?ls"
    by (simp only: sort_key_map tx)
  finally have receipts: "receipts_of d' t = map (granted_receipt req e t) ?ls" .
  have row: "receipt_job d' (granted_receipt req e t l) = granted_row req e t l" if l: "l \<in> set ls" for l
  proof -
    have "rows_ok (db_jobs d')" using jobs by (simp add: jobs_ok_def)
    then have "find (\<lambda>j. jr_job_id j = ?id l) (db_jobs d') = Some (granted_row req e t l)"
      using E(5) l by (simp add: find_key_iff [OF rows_okD(2)])
    then show ?thesis by (simp add: receipt_job_def tx(2))
  qed
  have current: "lease_current d' now (granted_receipt req e t l)" if "l \<in> set ls" for l
    using row [OF that] assms(3)
    by (simp add: lease_current_def granted_receipt_def receipt_row_def granted_row_def leased_row_def)
  have job: "recovered_job d' (granted_receipt req e t l) = granted_job req e l" if "l \<in> set ls" for l
    using row [OF that]
    by (simp add: recovered_job_def granted_receipt_def receipt_row_def granted_row_def leased_row_def
        granted_job_def claimed_job_def Let_def)
  have "filter (lease_current d' now) (receipts_of d' t) = receipts_of d' t"
    "filter (\<lambda>c. \<not> lease_current d' now c) (receipts_of d' t) = []"
    using current by (auto simp: receipts filter_id_conv filter_empty_conv)
  moreover have "map (recovered_job d') (receipts_of d' t) = map (granted_job req e) ?ls"
    using job by (simp add: receipts)
  moreover have "map (granted_job req e) ?ls = sort_key cj_job_id (map (granted_job req e) ls)"
    unfolding sort_key_map by (simp add: granted_job_def claimed_job_def Let_def)
  moreover have "receipts_of d' t = [] \<longleftrightarrow> ls = []"
    unfolding receipts by (metis Nil_is_map_conv length_0_conv length_sort)
  ultimately show ?thesis
    using recover_claim_eq [OF jobs, of t now] E(3) by simp
qed

text \<open>
  A claim can always be recovered, until its leases expire. What it returned, \<open>recover_claim\<close>
  returns again, with the original tokens, in job order; when the outcome is unknown, either
  nothing was written and recovery says so, or recovery names exactly the proposed jobs. Any
  other error, or nothing to do, leaves the store untouched.
\<close>

theorem claim_recoverable:
  assumes "store_ok d" and "claim_jobs req ent io d = (res, d')" and "now \<le> cr_now_ms req + cr_lease_ms req"
  shows "case res of
      Inr Noop \<Rightarrow> d' = d
    | Inr (MaintenanceCommitted m) \<Rightarrow>
        recover_claim d' (mr_transaction_id m) now = Inr (Recovered_MaintenanceCommitted m)
    | Inr (Committed c) \<Rightarrow>
        recover_claim d' (cc_transaction_id c) now
          = Inr (Recovered_Committed (c\<lparr>cc_jobs := sort_key cj_job_id (cc_jobs c)\<rparr>))
    | Inl (Claim_Indeterminate i) \<Rightarrow>
        d' = d \<or>
        (if ix_proposed_jobs i = []
         then recover_claim d' (ix_transaction_id i) now
           = Inr (Recovered_MaintenanceCommitted \<lparr>mr_transaction_id = ix_transaction_id i\<rparr>)
         else \<exists>c. recover_claim d' (ix_transaction_id i) now = Inr (Recovered_Committed c) \<and>
           map cj_job_id (cc_jobs c) = sort (ix_proposed_jobs i) \<and> cc_stale_jobs c = [])
    | Inl _ \<Rightarrow> d' = d"
  using assms(1,2)
proof (cases rule: claim_outcomes)
  case (refused e)
  then show ?thesis by (cases e) auto
next
  case noop
  then show ?thesis by simp
next
  case (written e t ls new)
  have rec: "recover_claim new t now = Inr (
    if ls = [] then Recovered_MaintenanceCommitted \<lparr>mr_transaction_id = t\<rparr>
    else Recovered_Committed \<lparr>cc_transaction_id = t,
      cc_jobs = sort_key cj_job_id (map (granted_job req e) ls), cc_stale_jobs = []\<rparr>)"
    using recover_written [OF written(7) assms(1) _ written(3), of now] assms(3) written(1) by simp
  have ids: "map cj_job_id (sort_key cj_job_id (map (granted_job req e) ls)) = sort (map (\<lambda>l. jr_job_id (pl_job l)) ls)"
    using sort_key_map [of "\<lambda>x. x" cj_job_id "map (granted_job req e) ls"]
    by (simp add: comp_def) (simp add: granted_job_def claimed_job_def Let_def)
  show ?thesis
    using written(8) rec ids by (auto simp: claim_result_def)
qed

theorem claim_recoverable_witness:
  "recover_claim sample_claimed_db sample_claim_id 25 = Inr (Recovered_Committed
     \<lparr>cc_transaction_id = sample_claim_id, cc_jobs = [sample_claimed], cc_stale_jobs = []\<rparr>)"
  using claim_recoverable [OF sample_store_ok sample_claim, of 25] by (simp add: sample_request_def)

section \<open>Extending a lease\<close>

text \<open>An extension is refused as a whole or applied as a whole.\<close>

lemma extend_lease_cases:
  assumes "extend_lease i tok new_expiry now io d = (res, d')"
  obtains (refused) e where "res = Inl e" "d' = d" "\<nexists>x. e = Lease_Indeterminate x"
  | (written) rc new where
      "apply_extend_lease \<lparr>le_job_id = i, le_lease_token = tok, le_new_expiry_ms = new_expiry\<rparr> now d = Inr (rc, new)"
      "res = Inr rc \<and> d' = new \<or>
       (\<exists>msg. res = Inl (Lease_Indeterminate \<lparr>il_job_id = i, il_storage_error = msg\<rparr>) \<and> (d' = d \<or> d' = new))"
proof (cases "apply_extend_lease \<lparr>le_job_id = i, le_lease_token = tok, le_new_expiry_ms = new_expiry\<rparr> now d")
  case (Inl e)
  have "\<nexists>x. e = Lease_Indeterminate x"
    using Inl by (auto simp: apply_extend_lease_def Let_def and_then_Inl_iff map_err_Inl_iff split: if_splits)
  then show ?thesis
    using assms Inl refused by (auto simp: extend_lease_def split: option.splits)
next
  case (Inr p)
  obtain rc new where "p = (rc, new)" by fastforce
  then show ?thesis
    using assms Inr that by (auto simp: extend_lease_def commit_step_def split: option.splits if_splits)
qed

text \<open>
  Extending a lease keeps the store well formed and is atomic. Success means the job was
  leased under the presented token and not yet past its expiry, and that its expiry moved to the
  later time requested, and nothing else of the row; an error other than an unknown outcome changes nothing.
\<close>

theorem extend_lease_commits:
  assumes "store_ok d" and "extend_lease i tok new_expiry now io d = (res, d')"
  shows "store_ok d' \<and> jobs_evolve d d' \<and>
    (case res of
      Inr rc \<Rightarrow> \<exists>r \<in> set (db_jobs d). \<exists>current. jr_job_id r = i \<and> jr_state r = Leased \<and>
        jr_lease_token r = Some tok \<and> jr_lease_expires_at_ms r = Some current \<and> now \<le> current \<and>
        current < new_expiry \<and> r\<lparr>jr_lease_expires_at_ms := Some new_expiry\<rparr> \<in> set (db_jobs d') \<and>
        rc = \<lparr>ler_job_id = i, ler_attempt = jr_attempt r, ler_lease_expires_at_ms = new_expiry\<rparr>
    | Inl (Lease_Indeterminate x) \<Rightarrow> il_job_id x = i
    | Inl _ \<Rightarrow> d' = d)"
  using assms(2)
proof (cases rule: extend_lease_cases)
  case (refused e)
  then show ?thesis using assms(1) by (cases e) auto
next
  case (written rc new)
  have jobs: "jobs_ok d" by (rule store_okD(5) [OF assms(1)])
  note step = apply_extend_lease_step [OF jobs written(1)]
  have new: "store_ok new" "jobs_evolve d new"
    using store_ok_jobs_step [OF assms(1) step] jobs_stepD(3) [OF step] by simp_all
  obtain r current where r: "r \<in> set (db_jobs d)" "jr_job_id r = i" "jr_state r = Leased"
    "jr_lease_token r = Some tok" "jr_lease_expires_at_ms r = Some current" "now \<le> current"
    "current < new_expiry"
    "rc = \<lparr>ler_job_id = i, ler_attempt = jr_attempt r, ler_lease_expires_at_ms = new_expiry\<rparr>"
    "db_jobs new = update_rows i (\<lambda>_. r\<lparr>jr_lease_expires_at_ms := Some new_expiry\<rparr>) (db_jobs d)"
    by (rule apply_extend_lease_InrD [OF jobs written(1)]) simp
  have "r\<lparr>jr_lease_expires_at_ms := Some new_expiry\<rparr> \<in> set (db_jobs new)"
    using r(1,2,9) by (auto simp: update_rows_def image_iff)
  then show ?thesis
    using assms(1) new written(2) r(1-8) by (elim disjE exE conjE) (simp_all, (intro bexI [of _ r], simp_all)?)
qed

theorem extend_lease_commits_witness:
  "\<exists>d'. store_ok d' \<and> sample_leased\<lparr>jr_lease_expires_at_ms := Some 40\<rparr> \<in> set (db_jobs d')"
proof -
  have "\<exists>rc d'. extend_lease (id_from_u128 3) sample_token 40 25 healthy sample_claimed_db = (Inr rc, d')"
    by (simp add: extend_lease_def healthy_def apply_extend_lease_def Let_def sample_claimed_db_def
        sample_leased_def leased_row_def sample_job_row new_job_row_def reconcilable_def job_base_def
        update_job_def job_checks_def commit_step_def sample_request_def)
  then obtain rc d' where e: "extend_lease (id_from_u128 3) sample_token 40 25 healthy sample_claimed_db = (Inr rc, d')"
    by blast
  show ?thesis
    using extend_lease_commits [OF sample_claimed_ok(1) e] by (auto simp: sample_claimed_db_def)
qed

text \<open>
  C23: a lease has one boundary, its expiry, the last millisecond at which it is current. Up to and at that time
  the holder can extend it, recovery of the claim that granted it returns it with its token, and no claim repairs
  it; one millisecond later and from then on extending it is refused as expired, recovery reports it stale,
  and a claim may repair it.
\<close>

theorem lease_expiry_boundary:
  assumes "store_ok d" and "r \<in> set (db_jobs d)" and "jr_state r = Leased" and "jr_queue r = cr_queue req"
  shows "\<exists>x current tok. x \<in> set (db_claim_receipts d) \<and> cl_job_id x = jr_job_id r \<and>
    cl_lease_token x = tok \<and> jr_lease_token r = Some tok \<and> jr_lease_expires_at_ms r = Some current \<and>
    (\<forall>now. (lease_expired (req\<lparr>cr_now_ms := now\<rparr>) r \<longleftrightarrow> current < now) \<and>
      (let ext = apply_extend_lease \<lparr>le_job_id = jr_job_id r, le_lease_token = tok, le_new_expiry_ms = current + 1\<rparr> now d
       in if now \<le> current then \<exists>y. ext = Inr y
          else ext = Inl (Lease_Conflict (Expired (jr_job_id r) current now))) \<and>
      (\<exists>c. recover_claim d (cl_transaction_id x) now = Inr (Recovered_Committed c) \<and>
        (if now \<le> current then (jr_job_id r, tok) \<in> (\<lambda>j. (cj_job_id j, cj_lease_token j)) ` set (cc_jobs c)
         else jr_job_id r \<in> set (cc_stale_jobs c))))"
proof -
  have jobs: "jobs_ok d" by (rule store_okD(5) [OF assms(1)])
  then have rows: "rows_ok (db_jobs d)" by (simp add: jobs_ok_def)
  obtain x where x: "x \<in> set (db_claim_receipts d)" "receipt_of r x"
    using jobs assms(2,3) unfolding jobs_ok_def receipts_ok_def by blast
  obtain current tok where row: "jr_lease_expires_at_ms r = Some current" "jr_lease_token r = Some tok"
    "cl_lease_token x = tok" "cl_job_id x = jr_job_id r"
    using x(2) by (auto simp: receipt_of_def)
  have find: "find (\<lambda>x. jr_job_id x = jr_job_id r) (db_jobs d) = Some r"
    using assms(2) by (simp add: find_key_iff [OF rows_okD(2) [OF rows]])
  let ?f = "\<lambda>r. r\<lparr>jr_lease_expires_at_ms := Some (current + 1)\<rparr>"
  have "job_checks (?f r)"
    using rows_okD(3) [OF rows assms(2)] assms(3) by (auto simp: job_row_ok_def job_checks_def)
  note put = update_job_put [where f = ?f, OF rows assms(2) this]
  have expired: "lease_expired (req\<lparr>cr_now_ms := now\<rparr>) r \<longleftrightarrow> current < now" for now
    using assms(3,4) row(1) by (simp add: lease_expired_def)
  have ext: "let ext = apply_extend_lease \<lparr>le_job_id = jr_job_id r, le_lease_token = tok, le_new_expiry_ms = current + 1\<rparr> now d
       in if now \<le> current then \<exists>y. ext = Inr y
          else ext = Inl (Lease_Conflict (Expired (jr_job_id r) current now))" for now
    using find row assms(3) put by (simp add: apply_extend_lease_def Let_def)
  have rec: "\<exists>c. recover_claim d (cl_transaction_id x) now = Inr (Recovered_Committed c) \<and>
        (if now \<le> current then (jr_job_id r, tok) \<in> (\<lambda>j. (cj_job_id j, cj_lease_token j)) ` set (cc_jobs c)
         else jr_job_id r \<in> set (cc_stale_jobs c))" for now
  proof -
    let ?cs = "receipts_of d (cl_transaction_id x)"
    have in_cs: "x \<in> set ?cs" using x(1) by (simp add: receipts_of_def)
    then have "?cs \<noteq> []" by auto
    then obtain c where c: "recover_claim d (cl_transaction_id x) now = Inr (Recovered_Committed c)"
      using recover_claim_eq [OF jobs, of "cl_transaction_id x" now] by simp
    note R = recovered_receipts [OF jobs c]
    have "lease_current d now x \<longleftrightarrow> now \<le> current"
      using lease_current_iff(1) [OF jobs x(1) assms(2) row(4) [symmetric]] assms(3) row by simp
    then show ?thesis
      using c in_cs row(3,4) by (intro exI [of _ c]) (auto simp: R(2,3) image_iff)
  qed
  show ?thesis
    using x(1) row expired ext rec by (intro exI [of _ x] exI [of _ current] exI [of _ tok]) blast
qed

theorem lease_expiry_boundary_witness:
  "(\<exists>y. apply_extend_lease \<lparr>le_job_id = id_from_u128 3, le_lease_token = sample_token, le_new_expiry_ms = 26\<rparr>
     25 sample_claimed_db = Inr y) \<and>
   apply_extend_lease \<lparr>le_job_id = id_from_u128 3, le_lease_token = sample_token, le_new_expiry_ms = 26\<rparr>
     26 sample_claimed_db = Inl (Lease_Conflict (Expired (id_from_u128 3) 25 26))"
proof -
  have fields: "jr_queue sample_leased = cr_queue sample_request" "jr_lease_token sample_leased = Some sample_token"
    "jr_lease_expires_at_ms sample_leased = Some 25" "jr_job_id sample_leased = id_from_u128 3"
    by (simp_all add: sample_leased_def leased_row_def sample_job_row new_job_row_def
        reconcilable_def job_base_def sample_request_def)
  from lease_expiry_boundary [OF sample_claimed_ok(1,2,3) fields(1)] show ?thesis
    unfolding fields(2-4) option.inject
    by (elim exE conjE) (auto simp: Let_def dest: spec [where x = 25] spec [where x = 26])
qed

end
