(* ===== verification/FacadeProperties.thy ===== *)
theory FacadeProperties
  imports Facade ClaimTheorems
begin

text \<open>
  What holds of open handles and of the file they share: the invariants of a handle and of the
  file, how connections are opened, and the contract of the three writing operations as the
  locale \<open>atomic_write\<close>, interpreted on the model of each.
\<close>

section \<open>The contract of a writing operation\<close>

text \<open>History only grows: transactions and events are appended, jobs follow the state machine.\<close>

definition grows :: "db \<Rightarrow> db \<Rightarrow> bool" where
  "grows d d' \<longleftrightarrow> jobs_evolve d d' \<and> prefix (db_transactions d) (db_transactions d') \<and>
     prefix (db_events d) (db_events d')"

lemma grows_refl [simp]: "grows d d"
  by (simp add: grows_def)

lemma grows_trans: "grows d d' \<Longrightarrow> grows d' d'' \<Longrightarrow> grows d d''"
  using jobs_evolve_trans by (auto simp: grows_def)

definition disk_ok :: "disk \<Rightarrow> bool" where
  "disk_ok w \<longleftrightarrow> (case w of None \<Rightarrow> True | Some f \<Rightarrow> file_ok f \<and> store_ok (df_store f))"

definition store_of :: "disk \<Rightarrow> db" where
  "store_of w = df_store (file_of w)"

text \<open>A file every migration of this build has been applied to.\<close>

definition migrated :: "disk \<Rightarrow> bool" where
  "migrated w \<longleftrightarrow> w \<noteq> None \<and> df_schema (file_of w) = 2"

lemma file_of_Some [simp]: "file_of (Some f) = f"
  by (simp add: file_of_def)

lemma disk_ok_file: "disk_ok w \<longleftrightarrow> file_ok (file_of w) \<and> store_ok (store_of w)"
proof -
  have "df_store new_file = empty_db" by (simp add: new_file_def)
  then show ?thesis
    by (cases w) (simp_all add: disk_ok_def store_of_def file_of_def new_file_ok empty_store_ok)
qed

text \<open>Creating the file that was missing changes nothing an operation sees.\<close>

lemma created: "disk_ok (Some (file_of w)) = disk_ok w" "store_of (Some (file_of w)) = store_of w"
  "migrated w \<Longrightarrow> Some (file_of w) = w"
  by (auto simp: disk_ok_file store_of_def migrated_def file_of_def)

lemma written_disk:
  assumes "disk_ok w" and "migrated w" and "store_ok d"
  shows "disk_ok (Some ((file_of w)\<lparr>df_store := d\<rparr>))" and "migrated (Some ((file_of w)\<lparr>df_store := d\<rparr>))"
  using assms
  by (simp_all add: disk_ok_file migrated_def store_of_def file_ok_def history_def migration_rows_def)

definition writer_pragmas :: "Durability \<Rightarrow> str list" where
  "writer_pragmas durability =
     [''PRAGMA journal_mode=WAL''] @ base_pragmas @ [''PRAGMA synchronous='' @ synchronous_pragma durability]"

definition reader_pragmas :: "str list" where
  "reader_pragmas = base_pragmas @ [''PRAGMA query_only=ON'']"

text \<open>
  A handle in good order: a writer that can write has every PRAGMA of the durability the store
  was built with, the pool holds no more readers than allowed and none that can write.
\<close>

definition handle_ok :: "Store \<Rightarrow> bool" where
  "handle_ok s \<longleftrightarrow>
     (\<forall>c. sv_writer s = Some c \<longrightarrow>
        c = \<lparr>cn_access = ReadWrite, cn_pragmas = writer_pragmas (sv_durability s)\<rparr> \<or>
        c = \<lparr>cn_access = ReadOnly, cn_pragmas = base_pragmas\<rparr>) \<and>
     (\<forall>c \<in> set (rp_idle (sv_readers s)). c = \<lparr>cn_access = ReadOnly, cn_pragmas = reader_pragmas\<rparr>) \<and>
     length (rp_idle (sv_readers s)) \<le> rp_max_idle (sv_readers s) \<and>
     validate_limits (sv_limits s) = Inr ()"

lemma run_pragma_Inr: "run_pragma en p c = Inr c' \<longleftrightarrow>
    en_statement en p = None \<and> c' = c\<lparr>cn_pragmas := cn_pragmas c @ [p]\<rparr>"
  by (auto simp: run_pragma_def split: option.splits)

lemma run_pragmas_Inr:
  "fold_res (run_pragma en) ps c = Inr c' \<Longrightarrow> c' = c\<lparr>cn_pragmas := cn_pragmas c @ ps\<rparr>"
proof (induction ps arbitrary: c)
  case (Cons p ps)
  then have "fold_res (run_pragma en) ps (c\<lparr>cn_pragmas := cn_pragmas c @ [p]\<rparr>) = Inr c'"
    by (auto simp: and_then_Inr_iff run_pragma_Inr)
  from Cons.IH [OF this] show ?case by simp
qed simp

lemma apply_pragmas_eq: "apply_pragmas en dur c = fold_res (run_pragma en) (writer_pragmas dur) c"
  unfolding apply_pragmas_def writer_pragmas_def ..

lemma connection_open_cases:
  assumes "connection_open en dur w = (res, w')"
  shows "(w' = w \<or> w' = Some (file_of w)) \<and>
    (\<forall>c. res = Inr c \<longrightarrow> w' = Some (file_of w) \<and>
       c = \<lparr>cn_access = ReadWrite, cn_pragmas = writer_pragmas dur\<rparr>)"
  using assms by (auto simp: connection_open_def apply_pragmas_eq
      split: option.splits dest!: run_pragmas_Inr)

lemma connection_open_existing_Inr:
  "connection_open_existing en path w = Inr c \<Longrightarrow>
     w \<noteq> None \<and> c = \<lparr>cn_access = ReadOnly, cn_pragmas = base_pragmas\<rparr>"
  by (auto simp: connection_open_existing_def split: if_splits option.splits dest!: run_pragmas_Inr)

lemma open_reader_Inr:
  "open_reader en path w = Inr c \<Longrightarrow> c = \<lparr>cn_access = ReadOnly, cn_pragmas = reader_pragmas\<rparr>"
  by (auto simp: open_reader_def and_then_Inr_iff run_pragma_Inr reader_pragmas_def
      dest!: connection_open_existing_Inr)

lemma store_connection_cases:
  assumes "migrated w" and "store_connection en s w = (res, s', w')"
  obtains (live) c where "sv_writer s = Some c" "res = Inr c" "s' = s" "w' = w"
  | (failed) e where "sv_writer s = None" "res = Inl e" "s' = s" "w' = w"
  | (reopened) c where "sv_writer s = None" "res = Inr c" "s' = s\<lparr>sv_writer := Some c\<rparr>" "w' = w"
      "c = \<lparr>cn_access = ReadWrite, cn_pragmas = writer_pragmas (sv_durability s)\<rparr>"
proof (cases "sv_writer s")
  case (Some c)
  then have "res = Inr c" "s' = s" "w' = w" using assms(2) by (simp_all add: store_connection_def)
  then show ?thesis using live Some by blast
next
  case None
  obtain r v where c: "connection_open en (sv_durability s) w = (r, v)" by fastforce
  have v: "v = w" using connection_open_cases [OF c] created(3) [OF assms(1)] by auto
  show ?thesis
  proof (cases r)
    case (Inl e)
    then have "res = Inl e" "s' = s" "w' = w" using assms(2) None c v by (simp_all add: store_connection_def)
    then show ?thesis using failed None by blast
  next
    case (Inr x)
    then have "res = Inr x" "s' = s\<lparr>sv_writer := Some x\<rparr>" "w' = w"
      using assms(2) None c v by (simp_all add: store_connection_def)
    then show ?thesis using reopened None connection_open_cases [OF c] Inr by blast
  qed
qed

locale atomic_write =
  fixes body :: "io \<Rightarrow> db \<Rightarrow> ('e + 'a) \<times> db" and unknown :: "'e \<Rightarrow> bool"
  assumes keeps: "store_ok d \<Longrightarrow> body io d = (res, d') \<Longrightarrow> store_ok d' \<and> grows d d'"
    and definite: "store_ok d \<Longrightarrow> body io d = (Inl e, d') \<Longrightarrow> \<not> unknown e \<Longrightarrow> d' = d"
    and refused: "store_ok d \<Longrightarrow> io_write io \<noteq> None \<Longrightarrow> body io d = (res, d') \<Longrightarrow>
      d' = d \<and> (\<forall>e. res = Inl e \<longrightarrow> \<not> unknown e)"
begin

text \<open>What one writing call does to the handle and to the file.\<close>

lemma on_writer_step:
  assumes ok: "disk_ok w" "migrated w" "handle_ok s"
    and call: "on_writer en to_error unknown body s w = (res, s', w')"
  shows "disk_ok w'" "migrated w'" "handle_ok s'" "grows (store_of w) (store_of w')"
proof -
  obtain r t v where c: "store_connection en s w = (r, t, v)" by (metis prod_cases3)
  have v: "v = w" "handle_ok t"
    using ok(2) c by (cases rule: store_connection_cases; use ok(3) in \<open>simp add: handle_ok_def\<close>)+
  have "disk_ok w' \<and> migrated w' \<and> handle_ok s' \<and> grows (store_of w) (store_of w')"
  proof (cases r)
    case (Inl e)
    then show ?thesis using call c v ok by (simp add: on_writer_def)
  next
    case (Inr conn)
    obtain out d where b: "body (transaction_io en conn) (store_of w) = (out, d)" by fastforce
    have "store_ok d" "grows (store_of w) d"
      using keeps [OF _ b] ok(1) by (simp_all add: disk_ok_file)
    moreover have "w' = Some ((file_of w)\<lparr>df_store := d\<rparr>)" "s' = t \<or> s' = t\<lparr>sv_writer := None\<rparr>"
      using call c Inr b v(1) by (auto simp: on_writer_def store_of_def split: sum.splits if_splits)
    ultimately show ?thesis
      using v(2) written_disk [OF ok(1,2), of d] by (auto simp: handle_ok_def store_of_def)
  qed
  then show "disk_ok w'" "migrated w'" "handle_ok s'" "grows (store_of w) (store_of w')"
    by simp_all
qed

text \<open>On a read-only writer nothing is written, and the writer is never dropped.\<close>

lemma on_writer_read_only:
  assumes "disk_ok w" and "w \<noteq> None" and "sv_writer s = Some c" and "cn_access c = ReadOnly"
    and call: "on_writer en to_error unknown body s w = (res, s', w')"
  shows "w' = w" "s' = s"
proof -
  obtain out d where b: "body (transaction_io en c) (store_of w) = (out, d)" by fastforce
  have io: "io_write (transaction_io en c) \<noteq> None"
    using assms(4) by (simp add: transaction_io_def)
  have "d = store_of w" "\<forall>e. out = Inl e \<longrightarrow> \<not> unknown e"
    using refused [OF _ io b] assms(1) by (simp_all add: disk_ok_file)
  then show "w' = w" "s' = s"
    using call b assms(2,3)
    by (auto simp: on_writer_def store_connection_def store_of_def file_of_def split: sum.splits if_splits option.splits)
qed

end

lemma prefix_appended: "xs = ys @ zs \<Longrightarrow> prefix ys xs"
  by simp

lemma commit_grows:
  assumes "store_ok d" and "commit l b io d = (res, d')"
  shows "store_ok d' \<and> grows d d'"
proof -
  have "store_ok new \<and> grows d new" if "write_batch b d = Inr (n, new)" for n new
    using write_batch_InrD [OF assms(1) that] by (auto simp: appends_def grows_def)
  then show ?thesis
    using assms by (cases rule: commit_outcomes [OF assms(2)]) auto
qed

lemma claim_grows:
  assumes "store_ok d" and "claim_jobs req ent io d = (res, d')"
  shows "store_ok d' \<and> grows d d'"
  by (cases rule: claim_outcomes [OF assms]) (use assms(1) in \<open>auto simp: claim_effect_def grows_def\<close>)

lemma extend_lease_grows:
  assumes "store_ok d" and "extend_lease i tok n now io d = (res, d')"
  shows "store_ok d' \<and> grows d d'"
  using assms(2)
proof (cases rule: extend_lease_cases)
  case (refused e)
  then show ?thesis using assms(1) by simp
next
  case (written rc new)
  note step = apply_extend_lease_step [OF store_okD(5) [OF assms(1)] written(1)]
  have "store_ok new" using store_ok_jobs_step [OF assms(1) step] .
  moreover have "grows d new"
    using jobs_stepD(3) [OF step] only_jobsD [OF jobs_stepD(2) [OF step]] by (simp add: grows_def)
  ultimately show ?thesis using written(2) assms(1) by auto
qed

lemma commit_unknown_iff: "commit_unknown e \<longleftrightarrow> (\<exists>i. e = Commit_Indeterminate i)"
  by (cases e) simp_all

lemma claim_unknown_iff: "claim_unknown e \<longleftrightarrow> (\<exists>i. e = Claim_Indeterminate i)"
  by (cases e) simp_all

lemma lease_unknown_iff: "lease_unknown e \<longleftrightarrow> (\<exists>i. e = Lease_Indeterminate i)"
  by (cases e) simp_all

text \<open>A connection that refuses to write gets a definite error, or an answer that writes nothing.\<close>

lemma commit_refused:
  assumes "io_write io \<noteq> None" and "commit l b io d = (res, d')"
  shows "d' = d \<and> (\<forall>e. res = Inl e \<longrightarrow> \<not> commit_unknown e)"
proof -
  have "attempt_batch io b d \<noteq> Inr x" for x using attempt_batch_Inr [of io b d x] assms(1) by auto
  then show ?thesis
    using assms(2) attempt_batch_definite [of io b d]
    by (auto simp: commit_def commit_unknown_iff split: sum.splits option.splits prod.splits if_splits)
qed

lemma claim_refused:
  assumes "io_write io \<noteq> None" and "claim_jobs req ent io d = (res, d')"
  shows "d' = d \<and> (\<forall>e. res = Inl e \<longrightarrow> \<not> claim_unknown e)"
proof -
  have att: "attempt_claim io req e t ms ls part d \<noteq> Inr x" for e t ms ls part x
    using attempt_claim_Inr [of io req e t ms ls part d x] assms(1) by auto
  have com: "v = d \<and> (\<forall>i. r \<noteq> Inl (Claim_Indeterminate i))"
    if "commit_claim io t d (attempt_claim io req x t ms ls part d) = (r, v)" for t x ms ls part r v
    using that att [of x t ms ls part] attempt_claim_definite [of io req x t ms ls part d]
    by (cases "attempt_claim io req x t ms ls part d") (auto simp: commit_claim_def)
  show ?thesis
    using assms(2) validate_claim_definite [of req] plan_claim_definite [of d req ent] error_to_claim_definite
    by (auto simp: claim_jobs_def claim_unknown_iff map_err_Inl_iff dest!: com
        split: sum.splits option.splits prod.splits if_splits)
qed

lemma extend_lease_refused:
  assumes "io_write io \<noteq> None" and "extend_lease i tok n now io d = (res, d')"
  shows "d' = d \<and> (\<forall>e. res = Inl e \<longrightarrow> \<not> lease_unknown e)"
  using assms(2)
proof (cases rule: extend_lease_cases)
  case (refused e)
  then show ?thesis by (simp add: lease_unknown_iff)
next
  case (written rc new)
  then show ?thesis
    using assms by (auto simp: extend_lease_def lease_unknown_iff split: option.splits)
qed

lemma commit_definite: "commit l b io d = (Inl e, d') \<Longrightarrow> \<not> commit_unknown e \<Longrightarrow> d' = d"
  by (erule commit_outcomes) (auto simp: commit_unknown_iff)

lemma claim_definite:
  assumes "store_ok d" and "claim_jobs req ent io d = (Inl e, d')" and "\<not> claim_unknown e"
  shows "d' = d"
  by (rule claim_outcomes [OF assms(1,2)]) (use assms(3) in \<open>auto simp: claim_unknown_iff\<close>)

lemma extend_lease_definite: "extend_lease i tok n now io d = (Inl e, d') \<Longrightarrow> \<not> lease_unknown e \<Longrightarrow> d' = d"
  by (erule extend_lease_cases) (auto simp: lease_unknown_iff)

interpretation commit_call: atomic_write "commit l b" commit_unknown for l b
  using commit_grows commit_definite commit_refused by unfold_locales blast+

interpretation claim_call: atomic_write "claim_jobs req ent" claim_unknown for req ent
  using claim_grows claim_definite claim_refused by unfold_locales blast+

interpretation lease_call: atomic_write "extend_lease i tok n now" lease_unknown for i tok n now
  using extend_lease_grows extend_lease_definite extend_lease_refused by unfold_locales blast+

end
