(* ===== verification/BackupCopy.thy ===== *)
theory BackupCopy
  imports Facade
begin

text \<open>
  \<open>ops::backup\<close> and its call from the store: the copy of the database to another path, made with
  the backup interface of the engine on the writer connection. What the operating system and the
  engine answer (removing the old file, opening the new one, what ends up in it, its integrity
  check) is a parameter.
\<close>

text \<open>What is at a path: a database, a text, or something that is neither, as a broken copy.\<close>

datatype content = Foreign | Text str | Database db_file

text \<open>
  \<open>bk_copy\<close> is \<open>run_to_completion\<close>: an error, or what the new file holds when the interface has
  reported that the copy is complete. The interface promises the content of the source.
\<close>

record copier =
  bk_remove :: "str option"
  bk_open :: "str option"
  bk_copy :: "db_file \<Rightarrow> str + db_file"
  bk_integrity :: "db_file \<Rightarrow> StorageError + str"

definition copies :: "copier \<Rightarrow> bool" where
  "copies bk \<longleftrightarrow> (\<forall>f g. bk_copy bk f = Inr g \<longrightarrow> g = f)"

definition backup ::
    "copier \<Rightarrow> str \<Rightarrow> bool \<Rightarrow> db_file \<Rightarrow> content option \<Rightarrow> (Error + unit) \<times> content option" where
  "backup bk path overwrite f dest =
     (if dest \<noteq> None \<and> \<not> overwrite
      then (Inl (Error_Validation (ValidationError (''backup destination '' @ path
             @ '' already exists (pass overwrite to replace it)''))), dest)
      else case (if dest = None then None else bk_remove bk) of
        Some e \<Rightarrow> (Inl (Error_Storage (Io (''remove '' @ path @ '': '' @ e))), dest)
      | None \<Rightarrow>
        (case bk_open bk of
           Some msg \<Rightarrow> (Inl (Error_Storage (Sqlite (SqliteText msg))), None)
         | None \<Rightarrow>
           (case bk_copy bk f of
              Inl msg \<Rightarrow> (Inl (Error_Storage (Sqlite (SqliteText msg))), Some Foreign)
            | Inr g \<Rightarrow>
              (case bk_integrity bk g of
                 Inl e \<Rightarrow> (Inl (Error_Storage e), Some (Database g))
               | Inr integrity \<Rightarrow>
                   if integrity \<noteq> ''ok''
                   then (Inl (Error_Storage (Io (''backup at '' @ path @ '' failed integrity check: ''
                          @ integrity))), Some (Database g))
                   else (Inr (), Some (Database g))))))"

definition store_backup ::
    "engine \<Rightarrow> copier \<Rightarrow> str \<Rightarrow> bool \<Rightarrow> Store \<Rightarrow> disk \<Rightarrow> content option
       \<Rightarrow> (Error + unit) \<times> Store \<times> disk \<times> content option" where
  "store_backup en bk path overwrite s w dest =
     (case store_connection en s w of
        (Inl e, s, w) \<Rightarrow> (Inl (Error_Storage e), s, w, dest)
      | (Inr conn, s, w) \<Rightarrow>
        (case backup bk path overwrite (file_of w) dest of (res, dest) \<Rightarrow> (res, s, w, dest)))"

end
