(* ===== verification/Systems.thy ===== *)
theory Systems
  imports FacadeProperties CommitGuarantees BackupCopy
begin

text \<open>
  Any number of handles, in any number of processes, over one file: every sequence of calls,
  openings and closings (a crash closes the handles of a process; what it does to a running
  \<open>COMMIT\<close> is an unknown outcome), with any answer of the engine to each.
\<close>

section \<open>One writing call in detail\<close>

context atomic_write begin

lemma on_writer_cases:
  assumes "migrated w" and "on_writer en to_error unknown body s w = (res, s', w')"
  obtains (unopened) e where "sv_writer s = None" "res = Inl (to_error e)" "s' = s" "w' = w"
  | (ran) c d where "body (transaction_io en c) (store_of w) = (res, d)" "store_of w' = d"
      "sv_writer s = None \<or> sv_writer s = Some c"
      "sv_writer s' = (if \<exists>e. res = Inl e \<and> unknown e then None else Some c)"
      "sv_durability s' = sv_durability s"
proof -
  obtain r t v where c: "store_connection en s w = (r, t, v)" by (metis prod_cases3)
  from assms(1) c show ?thesis
  proof (cases rule: store_connection_cases)
    case (failed e)
    then have "res = Inl (to_error e)" "s' = s" "w' = w"
      using assms(2) c by (simp_all add: on_writer_def)
    then show ?thesis by (rule unopened [OF failed(1)])
  next
    case (live conn)
    obtain out d where b: "body (transaction_io en conn) (store_of w) = (out, d)" by fastforce
    have "out = res" "store_of w' = d" "s' = (case res of Inl e \<Rightarrow> if unknown e then s\<lparr>sv_writer := None\<rparr> else s | Inr _ \<Rightarrow> s)"
      using assms(2) c live b by (auto simp: on_writer_def store_of_def)
    then show ?thesis
      using ran [of conn d] live b by (cases res) auto
  next
    case (reopened conn)
    obtain out d where b: "body (transaction_io en conn) (store_of w) = (out, d)" by fastforce
    have "out = res" "store_of w' = d" "s' = (case res of Inl e \<Rightarrow> if unknown e then t\<lparr>sv_writer := None\<rparr> else t | Inr _ \<Rightarrow> t)"
      using assms(2) c reopened b by (auto simp: on_writer_def store_of_def)
    then show ?thesis
      using ran [of conn d] reopened b by (cases res) auto
  qed
qed

end

lemma store_commit_Inr:
  assumes "migrated w" and "store_commit en b s w = (Inr r, s', w')"
  obtains io where "commit (sv_limits s) b io (store_of w) = (Inr r, store_of w')"
  by (rule commit_call.on_writer_cases [OF assms(1) assms(2) [unfolded store_commit_def]])
    (use that in auto)

section \<open>The calls of one handle\<close>

text \<open>Every read borrows a reader from the pool; what it computes does not matter here.\<close>

definition borrow_reader :: "engine \<Rightarrow> disk \<Rightarrow> Store \<Rightarrow> Store" where
  "borrow_reader en w s = snd (with_reader en (\<lambda>_. Inr ()) w s)"

lemma with_reader_borrows: "snd (with_reader en f w s) = borrow_reader en w s"
  by (auto simp: borrow_reader_def with_reader_def split: prod.split sum.split)

inductive call :: "Store \<Rightarrow> disk \<Rightarrow> Store \<Rightarrow> disk \<Rightarrow> bool" where
  commits: "store_commit en b s w = (res, s', w') \<Longrightarrow> call s w s' w'"
| recovers: "store_recover_transaction en i s w = (res, s', w') \<Longrightarrow> call s w s' w'"
| claims: "store_claim_jobs en req s w = (res, s', w') \<Longrightarrow> call s w s' w'"
| extends: "store_extend_lease en i tok n now s w = (res, s', w') \<Longrightarrow> call s w s' w'"
| recovers_claim: "store_recover_claim en i now s w = (res, s', w') \<Longrightarrow> call s w s' w'"
| backs_up: "store_backup en bk path overwrite s w dest = (res, s', w', dest') \<Longrightarrow> call s w s' w'"
| reads: "call s w (borrow_reader en w s) w"

lemma store_recover_transaction_cases:
  assumes "migrated w" and "store_recover_transaction en i s w = (res, s', w')"
  obtains r where "store_connection en s w = (r, s', w')" "w' = w"
    "res = (case r of Inl e \<Rightarrow> Inl (Recovery_Storage e) | Inr _ \<Rightarrow> map_err Recovery_Storage (recover_transaction (store_of w) i))"
proof -
  obtain r t v where c: "store_connection en s w = (r, t, v)" by (metis prod_cases3)
  have "v = w" using assms(1) c by (cases rule: store_connection_cases)
  then show ?thesis
    using that [of r] c assms(2) by (cases r) (auto simp: store_recover_transaction_def store_of_def)
qed

lemma store_recover_claim_cases:
  assumes "migrated w" and "store_recover_claim en i now s w = (res, s', w')"
  obtains r where "store_connection en s w = (r, s', w')" "w' = w"
proof -
  obtain r t v where c: "store_connection en s w = (r, t, v)" by (metis prod_cases3)
  have "v = w" using assms(1) c by (cases rule: store_connection_cases)
  then show ?thesis
    using that [of r] c assms(2) by (cases r) (simp_all add: store_recover_claim_def)
qed

lemma store_backup_cases:
  assumes "migrated w" and "store_backup en bk path overwrite s w dest = (res, s', w', dest')"
  obtains r where "store_connection en s w = (r, s', w')" "w' = w"
    "(res, dest') = (case r of Inl e \<Rightarrow> (Inl (Error_Storage e), dest) | Inr _ \<Rightarrow> backup bk path overwrite (file_of w) dest)"
proof -
  obtain r t v where c: "store_connection en s w = (r, t, v)" by (metis prod_cases3)
  have "v = w" using assms(1) c by (cases rule: store_connection_cases)
  then show ?thesis
    using that [of r] c assms(2) by (cases r) (auto simp: store_backup_def split: prod.splits)
qed

lemma connection_keeps_handle:
  assumes "migrated w" and "store_connection en s w = (r, s', w')" and "handle_ok s"
  shows "handle_ok s'"
  using assms(1,2) by (cases rule: store_connection_cases) (use assms(3) in \<open>simp_all add: handle_ok_def\<close>)

lemma borrow_reader_ok:
  assumes "handle_ok s"
  shows "handle_ok (borrow_reader en w s)" and "sv_writer (borrow_reader en w s) = sv_writer s"
proof -
  let ?p = "sv_readers s" and ?c = "\<lparr>cn_access = ReadOnly, cn_pragmas = reader_pragmas\<rparr>"
  obtain r q where t: "pool_take en w ?p = (r, q)" by fastforce
  have idle: "set (rp_idle ?p) \<subseteq> {?c}" "length (rp_idle ?p) \<le> rp_max_idle ?p"
    using assms by (auto simp: handle_ok_def)
  have butlast: "set (butlast (rp_idle ?p)) \<subseteq> {?c}" "rp_idle ?p \<noteq> [] \<Longrightarrow> last (rp_idle ?p) = ?c"
    using idle(1) in_set_butlastD last_in_set by fast+
  have q: "set (rp_idle q) \<subseteq> {?c}" "length (rp_idle q) \<le> rp_max_idle q" "r = Inr c \<Longrightarrow> c = ?c" for c
    using t idle butlast open_reader_Inr [of en "rp_path ?p" w c] by (auto simp: pool_take_def split: if_splits)
  show "handle_ok (borrow_reader en w s)"
  proof (cases r)
    case (Inl e)
    then show ?thesis using assms t q(1,2) by (auto simp: borrow_reader_def with_reader_def handle_ok_def)
  next
    case (Inr c)
    then show ?thesis
      using assms t q by (auto simp: borrow_reader_def with_reader_def handle_ok_def pool_put_def)
  qed
  show "sv_writer (borrow_reader en w s) = sv_writer s"
    using t by (auto simp: borrow_reader_def with_reader_def split: sum.split)
qed

text \<open>What every call keeps.\<close>

lemma call_step:
  assumes "call s w s' w'" and "disk_ok w" "migrated w" "handle_ok s"
  shows "disk_ok w' \<and> migrated w' \<and> handle_ok s' \<and> grows (store_of w) (store_of w')"
  using assms
proof (cases rule: call.cases)
  case (commits en b res)
  then show ?thesis
    using commit_call.on_writer_step [OF assms(2-4) commits [unfolded store_commit_def]] by simp
next
  case (recovers en i res)
  from assms(3) this show ?thesis
    by (elim store_recover_transaction_cases) (use assms connection_keeps_handle in auto)
next
  case (claims en req res)
  then show ?thesis
    using claim_call.on_writer_step [OF assms(2-4) claims [unfolded store_claim_jobs_def]] by simp
next
  case (extends en i tok n now res)
  then show ?thesis
    using lease_call.on_writer_step [OF assms(2-4) extends [unfolded store_extend_lease_def]] by simp
next
  case (recovers_claim en i now res)
  from assms(3) this show ?thesis
    by (elim store_recover_claim_cases) (use assms connection_keeps_handle in auto)
next
  case (backs_up en bk path overwrite dest res dest')
  from assms(3) this show ?thesis
    by (elim store_backup_cases) (use assms connection_keeps_handle in auto)
next
  case (reads en)
  then show ?thesis using assms borrow_reader_ok by simp
qed

section \<open>Systems\<close>

record system =
  sys_stores :: "Store list"
  sys_disk :: disk

definition start :: system where
  "start = \<lparr>sys_stores = [], sys_disk = None\<rparr>"

inductive step :: "system \<Rightarrow> system \<Rightarrow> bool" where
  calls: "i < length (sys_stores y) \<Longrightarrow> call (sys_stores y ! i) (sys_disk y) s' w' \<Longrightarrow>
    step y \<lparr>sys_stores = (sys_stores y)[i := s'], sys_disk = w'\<rparr>"
| opens: "builder_open en b (sys_disk y) = (Inr s, w') \<Longrightarrow>
    step y \<lparr>sys_stores = s # sys_stores y, sys_disk = w'\<rparr>"
| fails: "builder_open en b (sys_disk y) = (Inl e, w') \<Longrightarrow> step y (y\<lparr>sys_disk := w'\<rparr>)"
| inspects: "builder_open_existing en b (sys_disk y) = Inr s \<Longrightarrow>
    step y (y\<lparr>sys_stores := s # sys_stores y\<rparr>)"
| closes: "step y (y\<lparr>sys_stores := take i (sys_stores y) @ drop (Suc i) (sys_stores y)\<rparr>)"

inductive_cases stepE: "step y z"

definition system_ok :: "system \<Rightarrow> bool" where
  "system_ok y \<longleftrightarrow> disk_ok (sys_disk y) \<and>
     (\<forall>s \<in> set (sys_stores y). handle_ok s \<and> migrated (sys_disk y))"

lemma start_ok: "system_ok start"
  by (simp add: system_ok_def start_def disk_ok_def)

lemma built_store_ok:
  "validate_limits (sb_limits b) = Inr () \<Longrightarrow>
   c = \<lparr>cn_access = ReadWrite, cn_pragmas = writer_pragmas (sb_durability b)\<rparr> \<or>
   c = \<lparr>cn_access = ReadOnly, cn_pragmas = base_pragmas\<rparr> \<Longrightarrow> handle_ok (built_store b c)"
  by (auto simp: handle_ok_def built_store_def pool_new_def)

lemma builder_open_step:
  assumes "disk_ok w" and "builder_open en b w = (res, w')"
  shows "disk_ok w' \<and> store_of w' = store_of w \<and> (migrated w \<longrightarrow> migrated w') \<and>
    (\<forall>s. res = Inr s \<longrightarrow> handle_ok s \<and> migrated w')"
proof (cases "validate_limits (sb_limits b)")
  case (Inl v)
  then show ?thesis using assms by (auto simp: builder_open_def)
next
  case valid: (Inr u)
  obtain r v where c: "connection_open en (sb_durability b) w = (r, v)" by fastforce
  note C = connection_open_cases [OF c]
  have v: "disk_ok v" "store_of v = store_of w" "migrated w \<Longrightarrow> migrated v"
    using C assms(1) created [of w] by auto
  show ?thesis
  proof (cases r)
    case (Inl e)
    then show ?thesis using assms(2) valid c v by (auto simp: builder_open_def)
  next
    case (Inr conn)
    obtain m g where m: "migrate (en_migration en) (en_clock en) (file_of v) = (m, g)" by fastforce
    have g: "file_ok g" "df_store g = store_of v" "df_schema (file_of v) \<le> df_schema g"
      "m = Inr () \<Longrightarrow> df_schema g = 2"
      using migrate_file [OF _ m] v(1) by (simp_all add: disk_ok_file store_of_def)
    have w': "w' = Some g" "\<And>s. res = Inr s \<Longrightarrow> m = Inr () \<and> s = built_store b conn"
      using assms(2) valid c Inr m by (auto simp: builder_open_def split: sum.splits)
    have "df_schema g \<le> 2" using g(1) by (simp add: file_ok_def)
    moreover have "handle_ok (built_store b conn)"
      using C Inr valid by (auto intro!: built_store_ok)
    ultimately show ?thesis
      using g v w' by (auto simp: disk_ok_file store_of_def migrated_def)
  qed
qed

lemma builder_open_existing_step:
  assumes "disk_ok w" and "builder_open_existing en b w = Inr s"
  shows "handle_ok s" "migrated w" "\<exists>c. sv_writer s = Some c \<and> cn_access c = ReadOnly"
proof -
  obtain c where c: "validate_limits (sb_limits b) = Inr ()"
      "connection_open_existing en (sb_path b) w = Inr c" "require_current (file_of w) = Inr ()"
      "s = built_store b c"
    using assms(2) by (auto simp: builder_open_existing_def and_then_Inr_iff map_err_Inr_iff)
  note C = connection_open_existing_Inr [OF c(2)]
  show "handle_ok s" using c(1,4) C by (auto intro!: built_store_ok)
  show "migrated w"
    using C c(3) require_current_iff [of "file_of w"] assms(1) by (simp add: migrated_def disk_ok_file)
  show "\<exists>c. sv_writer s = Some c \<and> cn_access c = ReadOnly" using c(4) C by (simp add: built_store_def)
qed

lemma step_ok:
  assumes "step y z" and "system_ok y"
  shows "system_ok z \<and> grows (store_of (sys_disk y)) (store_of (sys_disk z))"
  using assms(1)
proof (cases rule: step.cases)
  case (calls i s' w')
  have "disk_ok w' \<and> migrated w' \<and> handle_ok s' \<and> grows (store_of (sys_disk y)) (store_of w')"
    by (rule call_step [OF calls(3)]) (use assms(2) calls(2) nth_mem in \<open>auto simp: system_ok_def\<close>)
  then show ?thesis
    using assms(2) set_update_subset_insert [of "sys_stores y" i s'] unfolding calls(1) system_ok_def by auto
next
  case (opens en b s w')
  then show ?thesis using builder_open_step [of "sys_disk y" en b] assms(2) by (auto simp: system_ok_def)
next
  case (fails en b e w')
  then show ?thesis using builder_open_step [of "sys_disk y" en b] assms(2) by (auto simp: system_ok_def)
next
  case (inspects en b s)
  then show ?thesis using builder_open_existing_step [of "sys_disk y" en b s] assms(2) by (auto simp: system_ok_def)
next
  case (closes i)
  then have "set (sys_stores z) \<subseteq> set (sys_stores y)" "sys_disk z = sys_disk y"
    using set_take_subset [of i "sys_stores y"] set_drop_subset [of "Suc i" "sys_stores y"] by auto
  then show ?thesis using assms(2) unfolding system_ok_def by auto
qed

lemma steps_ok:
  assumes "step\<^sup>*\<^sup>* y z" and "system_ok y"
  shows "system_ok z \<and> grows (store_of (sys_disk y)) (store_of (sys_disk z))"
  using assms(1)
proof (induction rule: rtranclp_induct)
  case (step z x)
  then show ?case using step_ok grows_trans by blast
qed (use assms(2) in simp)

end
