(* ===== verification/Witnesses.thy ===== *)
theory Witnesses
  imports ClaimTheorems JobProperties EventStore
begin

text \<open>
  The event and job properties at work on the concrete stores of the commit and claim theories:
  one event in stream s, one job that is pending, then leased, then acknowledged.
\<close>

section \<open>Events\<close>

lemma sample_events: "db_events sample_db = [sample_event_row]"
  by (simp add: sample_db_def)

lemma sample_events_ok: "events_ok sample_db" "events_ok empty_db"
  using sample_store_ok empty_store_ok by (simp_all add: store_okD(2))

theorem events_after_page_witness: "events_after sample_db 0 5 = Inr [persisted sample_event_row]"
  using events_after_page [OF sample_events_ok(1), of 0 5] by (simp add: sample_events i64_max_def)

theorem events_after_wraps_witness:
  "events_after sample_db (2 ^ 63) 5 = events_after sample_db 0 5"
  by (rule events_after_wraps [OF sample_events_ok(1)]) simp

theorem stream_events_page_witness:
  "stream_events sample_db ''s'' 1 5 = Inr [persisted sample_event_row]"
  using stream_events_page [OF sample_events_ok(1), of 1 5 "''s''"]
  by (simp add: sample_events i64_max_def in_stream_def sample_event_row_def)

theorem last_events_suffix_witness: "last_events sample_db 5 = Inr [persisted sample_event_row]"
  using last_events_suffix [OF sample_events_ok(1), of 5] by (simp add: sample_events i64_max_def)

lemma sample_insert_event:
  "\<exists>d'. insert_event (id_from_u128 1) (sample_event (id_from_u128 2) ''s'') 1 sample_start = Inr d'"
  if "sample_start = empty_db\<lparr>db_transactions := [batch_row sample_batch 1]\<rparr>"
  by (simp add: that insert_event_def insert_event_row_def empty_db_def sample_simps result_simps
      has_transaction_def batch_row_def u64_as_i64_def i64_max_def)

theorem insert_get_event_witness:
  "\<exists>d'. get_event d' (id_from_u128 2) =
     Inr (Some \<lparr>pe_transaction_id = id_from_u128 1, pe_global_sequence = 1, pe_stream_version = 1,
       pe_event = sample_event (id_from_u128 2) ''s''\<rparr>)"
proof -
  let ?d = "empty_db\<lparr>db_transactions := [batch_row sample_batch 1]\<rparr>"
  obtain d' where ins: "insert_event (id_from_u128 1) (sample_event (id_from_u128 2) ''s'') 1 ?d = Inr d'"
    using sample_insert_event by blast
  have "events_ok ?d"
    using sample_events_ok(2) by (simp add: events_ok_def stream_count_def empty_db_def i64_max_def)
  from insert_get_event [OF this ins] show ?thesis
    by (intro exI [of _ d']) (simp add: empty_db_def sample_event_def)
qed

section \<open>Jobs\<close>

lemma sample_claimed_jobs_ok: "jobs_ok sample_claimed_db"
  using sample_claimed_ok(1) by (rule store_okD)

lemma sample_claimed_job: "find (\<lambda>r. jr_job_id r = id_from_u128 3) (db_jobs sample_claimed_db) = Some sample_leased"
  by (simp add: sample_claimed_db_def sample_leased_def sample_job_row leased_row_def new_job_row_def
      reconcilable_def job_base_def)

lemma sample_leased_fields: "jr_state sample_leased = Leased" "jr_lease_token sample_leased = Some sample_token"
  "jr_lease_expires_at_ms sample_leased = Some 25" "jr_attempt sample_leased = 1"
  "jr_max_attempts sample_leased = 3" "jr_job_id sample_leased = id_from_u128 3"
  by (simp_all add: sample_leased_def sample_job_row leased_row_def new_job_row_def
      reconcilable_def job_base_def sample_request_def)

theorem extend_lease_outcome_witness:
  "apply_extend_lease \<lparr>le_job_id = id_from_u128 3, le_lease_token = sample_token, le_new_expiry_ms = 30\<rparr> 26 sample_claimed_db
     = Inl (Lease_Conflict (Expired (id_from_u128 3) 25 26))"
  using extend_lease_outcome [OF sample_claimed_jobs_ok,
      of "\<lparr>le_job_id = id_from_u128 3, le_lease_token = sample_token, le_new_expiry_ms = 30\<rparr>" 26]
    sample_claimed_job
  by (simp add: sample_leased_fields)

definition sample_ack :: JobAck where
  "sample_ack = \<lparr>ack_job_id = id_from_u128 3, ack_lease_token = sample_token, ack_result_digest = None\<rparr>"

definition sample_done :: JobRow where
  "sample_done = terminal_row Succeeded 20 (id_from_u128 1) None None sample_leased"

lemma sample_leased_ok: "job_row_ok sample_leased"
  using sample_claimed_jobs_ok sample_claimed_ok(2) by (auto simp: jobs_ok_def rows_ok_def)

theorem ack_needs_current_lease_witness:
  "(\<exists>d'. apply_ack (id_from_u128 1) 20 sample_ack sample_claimed_db = Inr d') \<and>
   (\<nexists>d'. apply_ack (id_from_u128 1) 20 (sample_ack\<lparr>ack_lease_token := id_from_u128 7\<rparr>) sample_claimed_db = Inr d')"
proof -
  have jobs: "db_jobs sample_claimed_db = [sample_leased]" by (simp add: sample_claimed_db_def)
  show ?thesis
    using ack_needs_current_lease [OF sample_claimed_jobs_ok, of "id_from_u128 1" 20]
    by (simp add: jobs sample_leased_fields sample_ack_def sample_token_def)
qed

theorem job_operations_refine_witness:
  "apply_ack (id_from_u128 1) 20 sample_ack sample_claimed_db
     = on_job (ack_row (id_from_u128 1) 20 sample_ack) (id_from_u128 3) sample_claimed_db"
  using job_operations_refine [OF sample_claimed_jobs_ok] by (simp add: sample_ack_def)

theorem fail_outcome_witness:
  "fail_row (id_from_u128 1) 20
     \<lparr>jf_job_id = id_from_u128 3, jf_lease_token = sample_token, jf_error_summary = ''e'', jf_retry_after_ms = None\<rparr>
     sample_leased
   = Inr ((nonterminal_row RetryWait (Some 30020) (id_from_u128 1) sample_leased)\<lparr>jr_error_summary := Some ''e''\<rparr>)"
  using fail_outcome [of sample_leased
      "\<lparr>jf_job_id = id_from_u128 3, jf_lease_token = sample_token, jf_error_summary = ''e'', jf_retry_after_ms = None\<rparr>"]
  by (simp add: sample_leased_fields is_i64_def i64_min_def i64_max_def word_le_nat_alt)

definition sample_done_db :: db where
  "sample_done_db = sample_claimed_db\<lparr>db_jobs := [sample_done], db_active_partitions := []\<rparr>"

lemma sample_done_ok: "jobs_ok sample_done_db"
proof -
  have seq: "jr_enqueue_sequence sample_leased = 1"
    using sample_claimed_jobs_ok by (simp add: jobs_ok_def rows_ok_def sample_claimed_db_def)
  have row: "job_row_ok sample_done"
    using sample_leased_ok by (simp add: job_row_ok_def job_checks_def sample_done_def terminal_row_def)
  show ?thesis
    using sample_claimed_jobs_ok row
    by (simp add: jobs_ok_def rows_ok_def active_ok_def receipts_ok_def receipt_of_def sample_done_db_def
        sample_claimed_db_def sample_done_def terminal_row_def seq has_transaction_def sample_leased_fields)
qed

theorem terminal_absorbs_witness:
  "\<exists>s. apply_ack (id_from_u128 1) 20 sample_ack sample_done_db
     = Inl (Error_Conflict (JobTransition (id_from_u128 3) Succeeded s))"
  using terminal_absorbs [OF sample_done_ok, of sample_done]
  by (simp add: sample_done_db_def sample_done_def terminal_row_def sample_leased_fields sample_ack_def)

end
