(* ===== verification/SystemGuarantees.thy ===== *)
theory SystemGuarantees
  imports Systems Witnesses
begin

text \<open>
  What holds of every system of handles that starts without a file, and the concrete run the
  witnesses use: a store is created, a batch is committed, and the store is inspected.
\<close>

section \<open>A concrete system\<close>

definition sample_engine :: engine where
  "sample_engine =
     \<lparr>en_open = None, en_statement = \<lambda>_. None, en_io = healthy, en_migration = \<lambda>_. undisturbed,
      en_clock = \<lambda>_. 5, en_entropy = sample_entropy,
      en_checks = \<lparr>ec_integrity = [''ok''], ec_foreign_keys = []\<rparr>, en_file_size = Inr 4096\<rparr>"

definition sample_store :: Store where
  "sample_store = built_store (builder_new ''db'') \<lparr>cn_access = ReadWrite, cn_pragmas = writer_pragmas Strict\<rparr>"

definition sample_file :: db_file where
  "sample_file = snd (migrate (\<lambda>_. undisturbed) (\<lambda>_. 5) new_file)"

lemma sample_file: "migrate (\<lambda>_. undisturbed) (\<lambda>_. 5) new_file = (Inr (), sample_file)"
  "file_ok sample_file" "df_schema sample_file = 2" "df_store sample_file = empty_db"
  using new_file_migrates by (auto simp: sample_file_def)

definition sample_system :: system where
  "sample_system = \<lparr>sys_stores = [sample_store], sys_disk = Some sample_file\<rparr>"

definition sample_committed :: disk where
  "sample_committed = Some (sample_file\<lparr>df_store := sample_db\<rparr>)"

lemma run_pragmas_healthy:
  "en_statement en = (\<lambda>_. None) \<Longrightarrow> fold_res (run_pragma en) ps c = Inr (c\<lparr>cn_pragmas := cn_pragmas c @ ps\<rparr>)"
  by (induction ps arbitrary: c) (simp_all add: run_pragma_def)

lemma sample_limits_ok: "validate_limits default_limits = Inr ()"
  by (simp add: validate_limits_def default_limits_def)

lemma sample_opens: "step start sample_system"
proof -
  have "builder_open sample_engine (builder_new ''db'') None = (Inr sample_store, Some sample_file)"
    by (simp add: sample_limits_ok builder_open_def builder_new_def connection_open_def apply_pragmas_eq
        run_pragmas_healthy sample_engine_def sample_file(1) sample_store_def file_of_def)
  then have "builder_open sample_engine (builder_new ''db'') (sys_disk start) = (Inr sample_store, Some sample_file)"
    by (simp add: start_def)
  from step.opens [OF this] show ?thesis by (simp add: start_def sample_system_def)
qed

lemma sample_store_simps: "sv_writer sample_store = Some \<lparr>cn_access = ReadWrite, cn_pragmas = writer_pragmas Strict\<rparr>"
  "sv_limits sample_store = default_limits"
  by (simp_all add: sample_store_def built_store_def builder_new_def)

lemma sample_commits:
  "store_commit sample_engine sample_batch sample_store (Some sample_file)
     = (Inr sample_receipt, sample_store, sample_committed)"
  using sample_commit
  by (simp add: store_commit_def on_writer_def store_connection_def sample_store_simps transaction_io_def
      sample_engine_def sample_file(4) sample_committed_def)

lemma sample_run: "step\<^sup>*\<^sup>* start sample_system"
  "step\<^sup>*\<^sup>* sample_system \<lparr>sys_stores = [sample_store], sys_disk = sample_committed\<rparr>"
proof -
  show "step\<^sup>*\<^sup>* start sample_system" using sample_opens by blast
  have "step sample_system \<lparr>sys_stores = (sys_stores sample_system)[0 := sample_store], sys_disk = sample_committed\<rparr>"
    by (rule step.calls) (simp_all add: sample_system_def call.commits [OF sample_commits])
  then show "step\<^sup>*\<^sup>* sample_system \<lparr>sys_stores = [sample_store], sys_disk = sample_committed\<rparr>"
    by (simp add: sample_system_def)
qed

section \<open>Guarantees\<close>

text \<open>
  C1: in every reachable system the file is a migrated one with a well-formed store, every open
  handle has only connections opened the way its kind requires (with the durability it was built
  with, readers that cannot write), no pool holds more readers than allowed, and a handle exists
  only for a file of the current schema.
\<close>

theorem reachable_ok:
  assumes "step\<^sup>*\<^sup>* start y"
  shows "disk_ok (sys_disk y) \<and> (\<forall>s \<in> set (sys_stores y). handle_ok s \<and> migrated (sys_disk y))"
  using steps_ok [OF assms start_ok] by (simp add: system_ok_def)

theorem reachable_ok_witness: "disk_ok (sys_disk sample_system) \<and> handle_ok sample_store"
  using reachable_ok [OF sample_run(1)] by (simp add: sample_system_def)

lemma sample_claims:
  "store_claim_jobs sample_engine sample_request sample_store sample_committed
     = (Inr (Committed \<lparr>cc_transaction_id = sample_claim_id, cc_jobs = [sample_claimed], cc_stale_jobs = []\<rparr>),
        sample_store, Some (sample_file\<lparr>df_store := sample_claimed_db\<rparr>))"
  using sample_claim
  by (simp add: store_claim_jobs_def on_writer_def store_connection_def sample_store_simps transaction_io_def
      sample_engine_def sample_committed_def)

lemma sample_claimed_run:
  "step\<^sup>*\<^sup>* start \<lparr>sys_stores = [sample_store], sys_disk = Some (sample_file\<lparr>df_store := sample_claimed_db\<rparr>)\<rparr>"
proof -
  let ?y = "\<lparr>sys_stores = [sample_store], sys_disk = sample_committed\<rparr>"
  have "step ?y \<lparr>sys_stores = (sys_stores ?y)[0 := sample_store],
      sys_disk = Some (sample_file\<lparr>df_store := sample_claimed_db\<rparr>)\<rparr>"
    by (rule step.calls) (simp_all add: call.claims [OF sample_claims])
  then show ?thesis using sample_run by simp
qed

text \<open>
  C18: whatever any number of workers do, claiming, completing, failing, cancelling, resolving and
  enqueueing through any handles in any order, no partition of a queue ever has two jobs that
  have been started, or are leased or uncertain, and are not finished: the jobs of a partition run one after the
  other.
\<close>

theorem one_started_per_partition:
  assumes "step\<^sup>*\<^sup>* start y"
    and "r \<in> set (db_jobs (store_of (sys_disk y)))" and "s \<in> set (db_jobs (store_of (sys_disk y)))"
    and "started r" and "started s" and "jr_queue r = jr_queue s" and "jr_partition_key r = jr_partition_key s"
  shows "r = s"
proof -
  have "store_ok (store_of (sys_disk y))"
    using steps_ok [OF assms(1) start_ok] by (simp add: system_ok_def disk_ok_file)
  from started_unique [OF this assms(2-5)] show ?thesis using assms(6,7) by (simp add: job_partition_def)
qed

theorem one_started_per_partition_witness:
  "\<exists>r \<in> set (db_jobs sample_claimed_db). jr_state r = Leased \<and>
     (\<forall>s \<in> set (db_jobs sample_claimed_db). started s \<and> jr_queue s = jr_queue r \<and>
        jr_partition_key s = jr_partition_key r \<longrightarrow> s = r)"
proof -
  have "started sample_leased" using sample_claimed_ok(3) by (simp add: started_def)
  moreover have "store_of (Some (sample_file\<lparr>df_store := sample_claimed_db\<rparr>)) = sample_claimed_db"
    by (simp add: store_of_def)
  ultimately show ?thesis
    using one_started_per_partition [OF sample_claimed_run, of _ sample_leased] sample_claimed_ok(2,3)
    by (intro bexI [of _ sample_leased]) auto
qed

text \<open>
  C11: no step of a system, whoever takes it and however it fails, ever rewrites or drops a
  committed transaction or event, or moves a job against its state machine.
\<close>

theorem history_only_grows:
  assumes "step\<^sup>*\<^sup>* start y" and "step\<^sup>*\<^sup>* y z"
  shows "prefix (db_transactions (store_of (sys_disk y))) (db_transactions (store_of (sys_disk z))) \<and>
    prefix (db_events (store_of (sys_disk y))) (db_events (store_of (sys_disk z))) \<and>
    jobs_evolve (store_of (sys_disk y)) (store_of (sys_disk z))"
  using steps_ok [OF assms(2) conjunct1 [OF steps_ok [OF assms(1) start_ok]]] by (simp add: grows_def)

theorem history_only_grows_witness: "prefix [] [sample_event_row]"
  using history_only_grows [OF sample_run]
  by (simp add: sample_system_def sample_committed_def store_of_def sample_file(4) sample_db_def)

text \<open>What a call on a reachable system starts from.\<close>

lemma reachable_handle:
  assumes "step\<^sup>*\<^sup>* start y" and "s \<in> set (sys_stores y)"
  shows "disk_ok (sys_disk y)" "store_ok (store_of (sys_disk y))" "migrated (sys_disk y)" "handle_ok s"
  using steps_ok [OF assms(1) start_ok] assms(2) by (auto simp: system_ok_def disk_ok_file)

text \<open>A call of the system is a step, and what follows it extends what it wrote.\<close>

lemma call_then:
  assumes "step\<^sup>*\<^sup>* start y" and "i < length (sys_stores y)" and "call (sys_stores y ! i) (sys_disk y) s' w'"
    and "step\<^sup>*\<^sup>* \<lparr>sys_stores = (sys_stores y)[i := s'], sys_disk = w'\<rparr> z"
  shows "step\<^sup>*\<^sup>* start z" "store_ok (store_of w')" "grows (store_of w') (store_of (sys_disk z))"
proof -
  let ?y' = "\<lparr>sys_stores = (sys_stores y)[i := s'], sys_disk = w'\<rparr>"
  have reach: "step\<^sup>*\<^sup>* start ?y'"
    using assms(1) step.calls [OF assms(2,3)] by (rule rtranclp.rtrancl_into_rtrancl)
  then show "step\<^sup>*\<^sup>* start z" using assms(4) by simp
  have ok: "system_ok ?y'" using steps_ok [OF reach start_ok] by blast
  then show "store_ok (store_of w')" by (simp add: system_ok_def disk_ok_file)
  show "grows (store_of w') (store_of (sys_disk z))" using steps_ok [OF assms(4) ok] by simp
qed

lemma store_recover_Inr:
  assumes "migrated w" and "store_recover_transaction en i s w = (Inr out, s', w')"
  shows "recover_transaction (store_of w) i = Inr out"
proof -
  obtain r :: "StorageError + connection" where "Inr out = (case r of Inl e \<Rightarrow> Inl (Recovery_Storage e)
      | Inr _ \<Rightarrow> map_err Recovery_Storage (recover_transaction (store_of w) i))"
    by (rule store_recover_transaction_cases [OF assms]) blast
  from this [symmetric] show ?thesis by (auto simp: map_err_Inr_iff split: sum.splits)
qed

text \<open>
  C2: an acknowledged commit is never lost: whatever happens afterwards, to this handle or by
  any other, every later recovery that can open the file finds exactly the receipt that was
  returned.
\<close>

theorem acknowledged_commit_survives:
  assumes "step\<^sup>*\<^sup>* start y" and "i < length (sys_stores y)"
    and "store_commit en b (sys_stores y ! i) (sys_disk y) = (Inr r, s', w')"
    and "step\<^sup>*\<^sup>* \<lparr>sys_stores = (sys_stores y)[i := s'], sys_disk = w'\<rparr> z"
    and "s \<in> set (sys_stores z)"
    and "store_recover_transaction en' (cb_transaction_id b) s (sys_disk z) = (Inr out, s'', w'')"
  shows "out = Tx_Committed r"
proof -
  note H = reachable_handle [OF assms(1) nth_mem [OF assms(2)]]
  note Z = call_then [OF assms(1,2) call.commits [OF assms(3)] assms(4)]
  obtain io where com: "commit (sv_limits (sys_stores y ! i)) b io (store_of (sys_disk y)) = (Inr r, store_of w')"
    using store_commit_Inr [OF H(3) assms(3)] .
  obtain ts where ts: "db_transactions (store_of (sys_disk z)) = db_transactions (store_of w') @ ts"
    using Z(3) by (auto simp: grows_def prefix_def)
  note L = lookup_after_commit [OF H(2) com]
  have "recover_transaction (store_of (sys_disk z)) (cb_transaction_id b) = Inr out"
    using store_recover_Inr [OF reachable_handle(3) [OF Z(1) assms(5)] assms(6)] .
  then show ?thesis
    using lookup_transaction_kept [OF L(1) ts] L(2) by (cases r) (simp add: recover_as_lookup)
qed

theorem acknowledged_commit_survives_witness:
  "fst (store_recover_transaction sample_engine (id_from_u128 1) sample_store sample_committed)
     = Inr (Tx_Committed sample_receipt)"
proof -
  have batch_id: "cb_transaction_id sample_batch = id_from_u128 1" by (simp add: sample_simps)
  obtain out where r: "store_recover_transaction sample_engine (id_from_u128 1) sample_store sample_committed
      = (Inr out, sample_store, sample_committed)"
    by (simp add: store_recover_transaction_def store_connection_def sample_store_simps recover_as_lookup)
  have "out = Tx_Committed sample_receipt"
    by (rule acknowledged_commit_survives [OF sample_run(1), of 0 sample_engine sample_batch _ _ _
          "\<lparr>sys_stores = [sample_store], sys_disk = sample_committed\<rparr>" sample_store])
      (use r sample_commits in \<open>auto simp: sample_system_def batch_id\<close>)
  then show ?thesis using r by simp
qed

text \<open>On a read-only writer no call writes.\<close>

lemma read_only_call:
  assumes "call s w s' w'" and "disk_ok w" "migrated w" "handle_ok s"
    and "sv_writer s = Some c" and "cn_access c = ReadOnly"
  shows "w' = w \<and> sv_writer s' = Some c \<and> handle_ok s'"
proof -
  have ne: "w \<noteq> None" using assms(3) by (simp add: migrated_def)
  have "w' = w \<and> sv_writer s' = Some c"
    using assms(1)
  proof (cases rule: call.cases)
    case (commits en b res)
    then show ?thesis
      using commit_call.on_writer_read_only [OF assms(2) ne assms(5,6) commits [unfolded store_commit_def]] assms(5) by simp
  next
    case (recovers en i res)
    then show ?thesis using assms(5) by (simp add: store_recover_transaction_def store_connection_def)
  next
    case (claims en req res)
    then show ?thesis
      using claim_call.on_writer_read_only [OF assms(2) ne assms(5,6) claims [unfolded store_claim_jobs_def]] assms(5) by simp
  next
    case (extends en i tok n now res)
    then show ?thesis
      using lease_call.on_writer_read_only [OF assms(2) ne assms(5,6) extends [unfolded store_extend_lease_def]] assms(5) by simp
  next
    case (recovers_claim en i now res)
    then show ?thesis using assms(5) by (simp add: store_recover_claim_def store_connection_def)
  next
    case (backs_up en bk path overwrite dest res dest')
    from assms(3) this show ?thesis
      by (elim store_backup_cases) (use assms(5) in \<open>auto simp: store_connection_def\<close>)
  next
    case (reads en)
    then show ?thesis using assms(5) borrow_reader_ok(2) [OF assms(4)] by simp
  qed
  then show ?thesis using call_step [OF assms(1-4)] by blast
qed

inductive calls_only :: "Store \<Rightarrow> disk \<Rightarrow> Store \<Rightarrow> disk \<Rightarrow> bool" where
  none: "calls_only s w s w"
| more_calls: "calls_only s w s' w' \<Longrightarrow> call s' w' s'' w'' \<Longrightarrow> calls_only s w s'' w''"



text \<open>What recovery tells after an unknown outcome, for one handle.\<close>

lemma unknown_recovered:
  assumes "disk_ok w" "store_ok (store_of w)" "migrated w" "handle_ok s"
    and "store_commit en b s w = (Inl (Commit_Indeterminate x), s', w')"
    and "en_open en' = None" and "en_statement en' = (\<lambda>_. None)"
  shows "sv_writer s' = None \<and> (\<exists>out s''. store_recover_transaction en' (cb_transaction_id b) s' w' = (Inr out, s'', w') \<and>
    sv_writer s'' = Some \<lparr>cn_access = ReadWrite, cn_pragmas = writer_pragmas (sv_durability s)\<rparr> \<and>
    (case out of
      Tx_Absent \<Rightarrow> store_of w' = store_of w
    | Tx_Committed rc \<Rightarrow> \<exists>n. write_batch b (store_of w) = Inr (n, store_of w') \<and>
        rc = \<lparr>rc_transaction_id = cb_transaction_id b, rc_transaction_sequence = i64_as_u64 n,
              rc_committed_at_ms = cb_committed_at_ms b\<rparr>))"
proof -
  note H = assms(1-4)
  have w': "migrated w'"
    using commit_call.on_writer_step(2) [OF H(1,3,4) assms(5) [unfolded store_commit_def]] .
  obtain io where com: "commit (sv_limits s) b io (store_of w) = (Inl (Commit_Indeterminate x), store_of w')"
    and wr: "sv_writer s' = None" "sv_durability s' = sv_durability s"
    by (rule commit_call.on_writer_cases [OF H(3) assms(5) [unfolded store_commit_def]]) auto
  let ?s'' = "s'\<lparr>sv_writer := Some \<lparr>cn_access = ReadWrite, cn_pragmas = writer_pragmas (sv_durability s)\<rparr>\<rparr>"
  let ?out = "case lookup_transaction (store_of w') (cb_transaction_id b) of None \<Rightarrow> Tx_Absent
    | Some (n, at, _) \<Rightarrow> Tx_Committed \<lparr>rc_transaction_id = cb_transaction_id b, rc_transaction_sequence = n, rc_committed_at_ms = at\<rparr>"
  have "connection_open en' (sv_durability s) w'
      = (Inr \<lparr>cn_access = ReadWrite, cn_pragmas = writer_pragmas (sv_durability s)\<rparr>, w')"
    using assms(6,7) created(3) [OF w'] by (simp add: connection_open_def apply_pragmas_eq run_pragmas_healthy)
  then have rec: "store_recover_transaction en' (cb_transaction_id b) s' w' = (Inr ?out, ?s'', w')"
    using wr by (simp add: store_recover_transaction_def store_connection_def recover_as_lookup store_of_def)
  from com obtain n new where new: "write_batch b (store_of w) = Inr (n, new)"
      "store_of w' = store_of w \<or> store_of w' = new"
      "lookup_transaction (store_of w) (cb_transaction_id b) = None"
    by (cases rule: commit_outcomes) auto
  then show ?thesis
    using wr rec lookup_after_write [OF H(2) new(1)] by (intro conjI exI [of _ ?out] exI [of _ ?s'']) auto
qed

definition faulty_engine :: engine where
  "faulty_engine = sample_engine\<lparr>en_io := healthy\<lparr>io_failpoint := True\<rparr>\<rparr>"

lemma sample_unknown: "\<exists>x s'. store_commit faulty_engine sample_batch sample_store (Some sample_file)
    = (Inl (Commit_Indeterminate x), s', sample_committed)"
  by (simp add: faulty_engine_def store_commit_def on_writer_def store_connection_def sample_store_simps transaction_io_def
      sample_engine_def sample_file(4) sample_committed_def commit_def attempt_batch_def sample_valid healthy_def
      sample_fresh sample_write commit_step_def)

text \<open>
  C5: after a COMMIT with an unknown outcome the handle has dropped its writer; as soon as the
  file can be opened, recovery on the same handle reopens it with the durability it was built with
  and tells exactly whether the batch was applied as a whole or not at all.
\<close>

theorem unknown_outcome_recovered:
  assumes "step\<^sup>*\<^sup>* start y" and "s \<in> set (sys_stores y)"
    and "store_commit en b s (sys_disk y) = (Inl (Commit_Indeterminate x), s', w')"
    and "en_open en' = None" and "en_statement en' = (\<lambda>_. None)"
  shows "sv_writer s' = None \<and> (\<exists>out s''. store_recover_transaction en' (cb_transaction_id b) s' w' = (Inr out, s'', w') \<and>
    sv_writer s'' = Some \<lparr>cn_access = ReadWrite, cn_pragmas = writer_pragmas (sv_durability s)\<rparr> \<and>
    (case out of
      Tx_Absent \<Rightarrow> store_of w' = store_of (sys_disk y)
    | Tx_Committed rc \<Rightarrow> \<exists>n. write_batch b (store_of (sys_disk y)) = Inr (n, store_of w') \<and>
        rc = \<lparr>rc_transaction_id = cb_transaction_id b, rc_transaction_sequence = i64_as_u64 n,
              rc_committed_at_ms = cb_committed_at_ms b\<rparr>))"
  by (rule unknown_recovered [OF reachable_handle [OF assms(1,2)] assms(3-5)])

theorem unknown_outcome_recovered_witness:
  "\<exists>x s' out s''. store_commit faulty_engine sample_batch sample_store (Some sample_file) = (Inl (Commit_Indeterminate x), s', sample_committed) \<and>
     store_recover_transaction sample_engine (cb_transaction_id sample_batch) s' sample_committed = (Inr out, s'', sample_committed)"
proof -
  obtain x s' where u: "store_commit faulty_engine sample_batch
      sample_store (sys_disk sample_system) = (Inl (Commit_Indeterminate x), s', sample_committed)"
    using sample_unknown by (auto simp: sample_system_def)
  have "sample_store \<in> set (sys_stores sample_system)" "en_open sample_engine = None"
    "en_statement sample_engine = (\<lambda>_. None)"
    by (simp_all add: sample_system_def sample_engine_def)
  from unknown_outcome_recovered [OF sample_run(1) this(1) u this(2,3)] show ?thesis
    using u by (auto simp: sample_system_def)
qed

text \<open>The version of a stream is the number of its events, which only grows.\<close>

lemma stream_version_count:
  assumes "store_ok d"
  shows "current_stream_version d s = of_nat (stream_count d s)" and "int (stream_count d s) \<le> i64_max"
  using store_okD(2,3) [OF assms] stream_count_bound [of d s] by (simp_all add: streams_ok_def)

lemma stream_count_mono: "prefix (db_events d) (db_events d') \<Longrightarrow> stream_count d s \<le> stream_count d' s"
  by (auto simp: stream_count_def in_stream_def prefix_def)

lemma fresh_commit:
  assumes "store_ok d" and "commit l b io d = (Inr r, d')" and "\<not> has_transaction d (cb_transaction_id b)"
  obtains n where "write_batch b d = Inr (n, d')"
  using assms(2) by (cases rule: commit_outcomes) (use assms(3) that in \<open>auto simp: lookup_transaction_None [symmetric]\<close>)

text \<open>
  C3: no update is lost: of two commits that both expect a version of the same stream, the first
  of which appends to it, the second succeeds only if it expects a later version, whatever handles
  they come through and whatever happens in between.
\<close>

theorem no_lost_update:
  assumes "step\<^sup>*\<^sup>* start y" and "i < length (sys_stores y)"
    and "store_commit en b (sys_stores y ! i) (sys_disk y) = (Inr r, s', w')"
    and "\<not> has_transaction (store_of (sys_disk y)) (cb_transaction_id b)"
    and "x \<in> set (cb_expected_stream_versions b)" and "es_stream_id x \<in> ev_stream_id ` set (batch_events b)"
    and "step\<^sup>*\<^sup>* \<lparr>sys_stores = (sys_stores y)[i := s'], sys_disk = w'\<rparr> z" and "t \<in> set (sys_stores z)"
    and "store_commit en2 b2 t (sys_disk z) = (Inr r2, t', z')"
    and "\<not> has_transaction (store_of (sys_disk z)) (cb_transaction_id b2)"
    and "x2 \<in> set (cb_expected_stream_versions b2)" and "es_stream_id x2 = es_stream_id x"
  shows "es_version x < es_version x2"
proof -
  let ?s = "es_stream_id x"
  note Y = reachable_handle [OF assms(1) nth_mem [OF assms(2)]]
  note C = call_then [OF assms(1,2) call.commits [OF assms(3)] assms(7)]
  note Z = reachable_handle [OF C(1) assms(8)]
  obtain io where "commit (sv_limits (sys_stores y ! i)) b io (store_of (sys_disk y)) = (Inr r, store_of w')"
    using store_commit_Inr [OF Y(3) assms(3)] .
  then obtain n where w1: "write_batch b (store_of (sys_disk y)) = Inr (n, store_of w')"
    using fresh_commit [OF Y(2) _ assms(4)] by blast
  obtain io2 where "commit (sv_limits t) b2 io2 (store_of (sys_disk z)) = (Inr r2, store_of z')"
    using store_commit_Inr [OF Z(3) assms(9)] .
  then obtain n2 where w2: "write_batch b2 (store_of (sys_disk z)) = Inr (n2, store_of z')"
    using fresh_commit [OF Z(2) _ assms(10)] by blast
  have "0 < length (filter (\<lambda>e. ev_stream_id e = ?s) (batch_events b))"
    using assms(6) by (auto simp: filter_empty_conv)
  then have "stream_count (store_of (sys_disk y)) ?s < stream_count (store_of w') ?s"
    using write_batch_stream(2) [OF Y(2) w1, of ?s] by linarith
  also have "\<dots> \<le> stream_count (store_of (sys_disk z)) ?s"
    using C(3) by (intro stream_count_mono) (simp add: grows_def)
  finally have less: "stream_count (store_of (sys_disk y)) ?s < stream_count (store_of (sys_disk z)) ?s" .
  have "es_version x = of_nat (stream_count (store_of (sys_disk y)) ?s)"
    "es_version x2 = of_nat (stream_count (store_of (sys_disk z)) ?s)"
    using write_batch_InrD(5) [OF Y(2) w1] write_batch_InrD(5) [OF Z(2) w2] assms(5,11,12)
      stream_version_count(1) [OF Y(2)] stream_version_count(1) [OF Z(2)] by metis+
  moreover have "unat (of_nat k :: u64) = k" if "int k \<le> i64_max" for k
    using that by (simp add: i64_max_def unsigned_of_nat take_bit_nat_eq_self)
  moreover note less stream_version_count(2) [OF Y(2), of ?s] stream_version_count(2) [OF Z(2), of ?s]
  ultimately show ?thesis by (simp only: word_less_nat_alt)
qed

text \<open>A second batch for the same stream, on top of the first.\<close>

definition sample_next_batch :: CommitBatch where
  "sample_next_batch =
     append_event (expect_stream_version (batch_new (id_from_u128 7) 20) ''s'' 1)
       (sample_event (id_from_u128 8) ''s'')"

lemma sample_next_commits:
  "\<exists>r d. commit default_limits sample_next_batch healthy sample_db = (Inr r, d)"
proof -
  have "validate_batch default_limits sample_next_batch = Inr ()"
    by (simp add: validate_batch_def sample_next_batch_def sample_simps default_limits_def result_simps)
  moreover have "lookup_transaction sample_db (MkId 7) = None"
    by (simp add: lookup_transaction_def sample_db_def batch_row_def sample_simps)
  moreover have "cb_expected_stream_versions sample_next_batch = [\<lparr>es_stream_id = ''s'', es_version = 1\<rparr>]"
    "cb_operations sample_next_batch = [AppendEvent (sample_event (MkId 8) ''s'')]"
    "cb_transaction_id sample_next_batch = MkId 7"
    by (simp_all add: sample_next_batch_def sample_simps)
  moreover from this have "\<exists>n d. write_batch sample_next_batch sample_db = Inr (n, d)"
    by (simp add: write_batch_def check_expected_def current_stream_version_def version_of_def
        i64_as_u64_def sample_db_def empty_db_def next_sequence_def i64_max_def insert_transaction_def
        has_transaction_def batch_row_def insert_event_def insert_event_row_def checked_add_u64_def
        sample_event_def sample_event_row_def u64_as_i64_def sample_simps)
  ultimately show ?thesis
    by (auto simp: commit_def attempt_batch_def healthy_def commit_step_def)
qed

theorem no_lost_update_witness: "es_version (hd (cb_expected_stream_versions sample_batch))
    < es_version (hd (cb_expected_stream_versions sample_next_batch))"
proof -
  let ?z = "\<lparr>sys_stores = [sample_store], sys_disk = sample_committed\<rparr>"
  obtain r d where com: "commit default_limits sample_next_batch healthy sample_db = (Inr r, d)"
    using sample_next_commits by blast
  have second: "store_commit sample_engine sample_next_batch sample_store (sys_disk ?z)
      = (Inr r, sample_store, Some (sample_file\<lparr>df_store := d\<rparr>))"
    using com by (simp add: store_commit_def on_writer_def store_connection_def sample_store_simps
        transaction_io_def sample_engine_def sample_committed_def)
  show ?thesis
    by (rule no_lost_update [OF sample_run(1), of 0 sample_engine sample_batch sample_receipt sample_store
          sample_committed _ ?z sample_store sample_engine sample_next_batch r sample_store])
      (use sample_commits second in \<open>auto simp: sample_system_def sample_file(4) store_of_def sample_committed_def
        has_transaction_def empty_db_def sample_db_def batch_row_def sample_next_batch_def sample_simps batch_events_def\<close>)
qed

text \<open>
  C4: what was committed can be read: an event of an acknowledged commit is found by its id, with
  every field and its transaction, through every handle and at any later time.
\<close>

theorem committed_events_readable:
  assumes "step\<^sup>*\<^sup>* start y" and "i < length (sys_stores y)"
    and "store_commit en b (sys_stores y ! i) (sys_disk y) = (Inr r, s', w')"
    and "\<not> has_transaction (store_of (sys_disk y)) (cb_transaction_id b)" and "e \<in> set (batch_events b)"
    and "step\<^sup>*\<^sup>* \<lparr>sys_stores = (sys_stores y)[i := s'], sys_disk = w'\<rparr> z" and "s \<in> set (sys_stores z)"
    and "store_get_event en2 (ev_event_id e) (sys_disk z) s = (Inr out, s'')"
  shows "\<exists>p. out = Some p \<and> pe_event p = e \<and> pe_transaction_id p = cb_transaction_id b"
proof -
  note Y = reachable_handle [OF assms(1) nth_mem [OF assms(2)]]
  note C = call_then [OF assms(1,2) call.commits [OF assms(3)] assms(6)]
  note Z = reachable_handle [OF C(1) assms(7)]
  obtain io where "commit (sv_limits (sys_stores y ! i)) b io (store_of (sys_disk y)) = (Inr r, store_of w')"
    using store_commit_Inr [OF Y(3) assms(3)] .
  then obtain n where w: "write_batch b (store_of (sys_disk y)) = Inr (n, store_of w')"
    using fresh_commit [OF Y(2) _ assms(4)] by blast
  obtain row where row: "row \<in> set (db_events (store_of w'))" "row_event row = e" "er_transaction_id row = cb_transaction_id b"
  proof -
    obtain rows where rows: "db_events (store_of w') = db_events (store_of (sys_disk y)) @ rows"
        "map row_event rows = batch_events b" "\<forall>r \<in> set rows. er_transaction_id r = cb_transaction_id b"
      using write_batch_InrD(6) [OF Y(2) w] by (auto simp: appends_def)
    have "e \<in> row_event ` set rows" using assms(5) rows(2) [symmetric] by simp
    then show thesis using that rows(1,3) by auto
  qed
  have "row \<in> set (db_events (store_of (sys_disk z)))"
    using C(3) row(1) by (auto simp: grows_def prefix_def)
  moreover have "er_event_id row = ev_event_id e" using row(2) by (auto simp: row_event_def persisted_def)
  ultimately have "find (\<lambda>r. er_event_id r = ev_event_id e) (db_events (store_of (sys_disk z))) = Some row"
    using find_key_iff [OF events_okD(3) [OF store_okD(2) [OF Z(2)]]] by simp
  then have get: "get_event (store_of (sys_disk z)) (ev_event_id e) = Inr (Some (persisted row))"
    by (simp add: get_event_def)
  have "out = Some (persisted row)"
    using assms(8) get by (auto simp: store_get_event_def with_reader_def store_of_def split: prod.splits sum.splits)
  then show ?thesis using row(2,3) by (simp add: row_event_def persisted_def)
qed

theorem committed_events_readable_witness:
  "\<exists>p s''. store_get_event sample_engine (id_from_u128 2) sample_committed sample_store = (Inr (Some p), s'') \<and>
     pe_event p = sample_event (id_from_u128 2) ''s''"
proof -
  let ?z = "\<lparr>sys_stores = [sample_store], sys_disk = sample_committed\<rparr>" and ?e = "sample_event (id_from_u128 2) ''s''"
  have id: "ev_event_id ?e = id_from_u128 2" by (simp add: sample_event_def)
  obtain out s'' where g: "store_get_event sample_engine (id_from_u128 2) sample_committed sample_store = (Inr out, s'')"
    by (simp add: store_get_event_def with_reader_def pool_take_def sample_store_def built_store_def pool_new_def
        open_reader_def connection_open_existing_def run_pragmas_healthy run_pragma_def sample_engine_def
        sample_committed_def get_event_def sample_events sample_event_row_def)
  have "\<exists>p. out = Some p \<and> pe_event p = ?e \<and> pe_transaction_id p = cb_transaction_id sample_batch"
    by (rule committed_events_readable [OF sample_run(1), of 0 sample_engine sample_batch sample_receipt sample_store
          sample_committed _ ?z sample_store sample_engine _ s''])
      (use sample_commits g id in \<open>auto simp: sample_system_def sample_file(4) store_of_def has_transaction_def
        empty_db_def sample_batch_def enqueue_job_def append_event_def expect_stream_version_def
        push_operation_def batch_new_def batch_events_def\<close>)
  then show ?thesis using g by blast
qed

end
