(* ===== verification/Backup.thy ===== *)
theory Backup
  imports SystemGuarantees
begin

text \<open>
  What a backup is good for: the store is left as it is, a destination is replaced only on
  demand, and the copy opens as a store of its own with all the data.
\<close>

lemma backup_Inr:
  assumes "backup bk path overwrite f dest = (Inr (), dest')"
  obtains g where "dest' = Some (Database g)" "bk_copy bk f = Inr g" "bk_integrity bk g = Inr ''ok''"
  using assms by (auto simp: backup_def split: if_splits option.splits sum.splits)

lemma backup_kept: "dest \<noteq> None \<Longrightarrow> \<not> overwrite \<Longrightarrow>
    backup bk path overwrite f dest = (Inl (Error_Validation (ValidationError (''backup destination '' @ path
      @ '' already exists (pass overwrite to replace it)''))), dest)"
  by (simp add: backup_def)

text \<open>An engine that opens files, runs PRAGMA statements and disturbs no migration.\<close>

definition opens_stores :: "engine \<Rightarrow> bool" where
  "opens_stores en \<longleftrightarrow>
     en_open en = None \<and> en_statement en = (\<lambda>_. None) \<and> (\<forall>v. en_migration en v = undisturbed)"

lemma migrated_store_opens:
  assumes "opens_stores en" and "validate_limits (sb_limits b) = Inr ()" and "disk_ok (Some f)" and "migrated (Some f)"
  shows "\<exists>t v. builder_open en b (Some f) = (Inr t, v)"
proof -
  have f: "file_ok f" "store_ok (df_store f)" using assms(3) by (simp_all add: disk_ok_def)
  then have "list_all job_checks (db_jobs (df_store f))"
    using store_okD(5) [of "df_store f"] rows_okD(3) by (auto simp: jobs_ok_def job_row_ok_def list_all_iff)
  from migrate_completed [OF f(1) this, of "en_migration en" "en_clock en"] obtain g
    where "migrate (en_migration en) (en_clock en) f = (Inr (), g)"
    using assms(1) by (auto simp: opens_stores_def)
  then show ?thesis
    using assms(1)
    by (simp add: assms(2) builder_open_def connection_open_def apply_pragmas_eq run_pragmas_healthy opens_stores_def)
qed


definition sample_copier :: copier where
  "sample_copier = \<lparr>bk_remove = None, bk_open = None, bk_copy = Inr, bk_integrity = (\<lambda>_. Inr ''ok'')\<rparr>"

lemma sample_copier: "copies sample_copier"
  by (simp add: copies_def sample_copier_def)

lemma sample_engine_opens: "opens_stores sample_engine"
  by (simp add: opens_stores_def sample_engine_def)


end
