(* ===== verification/DebugText.thy ===== *)
theory DebugText
  imports Ids
begin

text \<open>
  \<open>{:?}\<close> of strings and options. Strings are UTF-8 bytes; the bytes of characters
  outside ASCII are passed through, as the standard library does for printable characters.
\<close>

definition debug_char :: "char \<Rightarrow> str" where
  "debug_char c =
     (let n = of_char c :: nat in
      if c = CHR 0x22 then [CHR 0x5C, CHR 0x22]
      else if c = CHR 0x5C then [CHR 0x5C, CHR 0x5C]
      else if n = 0 then [CHR 0x5C, CHR ''0'']
      else if n = 9 then [CHR 0x5C, CHR ''t'']
      else if n = 10 then [CHR 0x5C, CHR ''n'']
      else if n = 13 then [CHR 0x5C, CHR ''r'']
      else if n < 16 then [CHR 0x5C] @ ''u{'' @ [HEX ! n] @ ''}''
      else if n < 32 \<or> n = 127 then [CHR 0x5C] @ ''u{'' @ [HEX ! (n div 16), HEX ! (n mod 16)] @ ''}''
      else [c])"

definition debug_str :: "str \<Rightarrow> str" where
  "debug_str s = [CHR 0x22] @ concat (map debug_char s) @ [CHR 0x22]"

definition debug_option :: "('a \<Rightarrow> str) \<Rightarrow> 'a option \<Rightarrow> str" where
  "debug_option f v = (case v of None \<Rightarrow> ''None'' | Some x \<Rightarrow> ''Some('' @ f x @ '')'')"

end
