(* ===== verification/Cli.thy ===== *)
theory Cli
  imports Backup DebugText
begin

text \<open>
  The command line tool (\<open>main.rs\<close>): argument parsing, the commands, what they print to standard
  output, and the class of error that decides the exit code. A run maps the arguments and the
  world, which is the content of every file, to a result, a text and the new world. Paths are
  arguments, and two of them may name the same file. The answers of the engine and of the operating
  system, and which file a path names, are in the environment.
\<close>

section \<open>Texts\<close>

definition newline :: str where
  "newline = [CHR 0x0A]"

definition println :: "str \<Rightarrow> str" where
  "println s = s @ newline"

definition USAGE :: str where
  "USAGE = concat (map println
     [''minisqlite '' @ [CHR 0xE2, CHR 0x80, CHR 0x94] @ '' atomic events, state, and jobs on SQLite'',
      '''',
      ''USAGE:'',
      ''    minisqlite [store] <command> --db <path> [options]'',
      '''',
      ''COMMANDS:'',
      ''    doctor                         open the store and run a quick health check'',
      ''    verify                         run full integrity and semantic checks'',
      ''    stats                          print store-wide statistics'',
      ''    events tail [--limit N]        print the most recent events'',
      ''    events stream <stream-id> [--from V] [--limit N]'',
      ''                                   print one stream's events from version V'',
      ''    projections list               list projections and versions'',
      ''    projections scan <projection> [--prefix HEX] [--limit N]'',
      ''                                   scan a projection's entries in key order'',
      ''    projections get <projection> <key-hex>'',
      ''                                   print one projection entry'',
      ''    jobs list [--queue Q] [--state S] [--after N]'',
      ''                                   list jobs, optionally filtered; --after'',
      ''                                   pages by the printed cursor'',
      ''    jobs show <job-id>             print one job's full status'',
      ''    jobs uncertain [--limit N]     list jobs with uncertain outcomes'',
      ''    jobs resolve <job-id> <retry|succeeded|dead>'',
      ''                                   resolve an uncertain job (opens read-write)'',
      ''    backup <dest> [--overwrite]    copy the database to <dest>'',
      ''    diagnostic-export [--out FILE] [--include-payloads]'',
      ''                                   write a redacted diagnostic export'',
      ''    migrations status              print migration versions and checksums'',
      '''',
      ''EXIT CODES:'',
      ''    0 success   1 operational error   2 usage error'',
      ''    3 verification findings          4 not found'',
      '''',
      ''Except for `jobs resolve`, the CLI never creates or migrates databases; it'',
      ''opens existing files read-only. To create or migrate a store, open it with'',
      ''the library (StoreBuilder::open).''])"

datatype CliError = Usage str | NotFound str | Findings nat | Op str

text \<open>The message on standard error and the exit code.\<close>

fun report :: "CliError \<Rightarrow> str \<times> nat" where
  "report (Usage m) = (println (''error: '' @ m), 2)"
| "report (NotFound m) = (println (''error: '' @ m), 4)"
| "report (Findings n) = (println (''error: verify reported '' @ show_nat n @ '' finding(s)''), 3)"
| "report (Op m) = (println (''error: '' @ m), 1)"

definition exit_code :: "CliError + unit \<Rightarrow> nat" where
  "exit_code r = (case r of Inl e \<Rightarrow> snd (report e) | Inr _ \<Rightarrow> 0)"

section \<open>Arguments\<close>

record Parsed =
  pa_db :: str
  pa_positional :: "str list"
  pa_limit :: "nat option"
  pa_from :: "u64 option"
  pa_after :: "u64 option"
  pa_prefix :: "str option"
  pa_queue :: "str option"
  pa_state :: "str option"
  pa_out :: "str option"
  pa_overwrite :: bool
  pa_include_payloads :: bool

text \<open>
  \<open>str::parse\<close> of an unsigned number of 64 bits, the width of both \<open>u64\<close> and \<open>usize\<close>: an
  optional plus sign, at least one digit, no overflow.
\<close>

definition digit_value :: "char \<Rightarrow> nat option" where
  "digit_value c = (let n = of_char c in if 48 \<le> n \<and> n \<le> 57 then Some (n - 48) else None)"

fun parse_digits :: "nat \<Rightarrow> str \<Rightarrow> nat option" where
  "parse_digits n [] = Some n"
| "parse_digits n (c # cs) =
     (case digit_value c of
        None \<Rightarrow> None
      | Some d \<Rightarrow> if 10 * n + d \<ge> 2 ^ 64 then None else parse_digits (10 * n + d) cs)"

definition parse_u64 :: "str \<Rightarrow> nat option" where
  "parse_u64 s =
     (let digits = (case s of c # cs \<Rightarrow> if c = CHR ''+'' then cs else s | [] \<Rightarrow> []) in
      if digits = [] then None else parse_digits 0 digits)"

definition starts_with :: "str \<Rightarrow> str \<Rightarrow> bool" where
  "starts_with p s \<longleftrightarrow> take (length p) s = p"

text \<open>The flags seen so far; the path of the database is checked at the end.\<close>

definition no_flags :: Parsed where
  "no_flags =
     \<lparr>pa_db = '''', pa_positional = [], pa_limit = None, pa_from = None, pa_after = None,
      pa_prefix = None, pa_queue = None, pa_state = None, pa_out = None, pa_overwrite = False,
      pa_include_payloads = False\<rparr>"

text \<open>\<open>flag_value\<close>: the value of a flag is the next argument, whatever it looks like.\<close>

definition flag_value :: "str \<Rightarrow> str list \<Rightarrow> CliError + str" where
  "flag_value flag rest =
     (case rest of [] \<Rightarrow> Inl (Usage (flag @ '' requires a value'')) | v # _ \<Rightarrow> Inr v)"

definition number_flag :: "str \<Rightarrow> str list \<Rightarrow> CliError + nat" where
  "number_flag flag rest =
     and_then (flag_value flag rest) (\<lambda>raw.
       ok_or (parse_u64 raw) (Usage (''invalid '' @ flag @ '': '' @ raw)))"

text \<open>One flag with a value.\<close>

definition set_flag :: "str \<Rightarrow> str list \<Rightarrow> str option \<times> Parsed \<Rightarrow> CliError + (str option \<times> Parsed)" where
  "set_flag flag rest s =
     (case s of (db, p) \<Rightarrow>
       if flag = ''--db'' then and_then (flag_value flag rest) (\<lambda>v. Inr (Some v, p))
       else if flag = ''--limit'' then and_then (number_flag flag rest) (\<lambda>n. Inr (db, p\<lparr>pa_limit := Some n\<rparr>))
       else if flag = ''--from'' then and_then (number_flag flag rest) (\<lambda>n. Inr (db, p\<lparr>pa_from := Some (of_nat n)\<rparr>))
       else if flag = ''--after'' then and_then (number_flag flag rest) (\<lambda>n. Inr (db, p\<lparr>pa_after := Some (of_nat n)\<rparr>))
       else if flag = ''--prefix'' then and_then (flag_value flag rest) (\<lambda>v. Inr (db, p\<lparr>pa_prefix := Some v\<rparr>))
       else if flag = ''--queue'' then and_then (flag_value flag rest) (\<lambda>v. Inr (db, p\<lparr>pa_queue := Some v\<rparr>))
       else if flag = ''--state'' then and_then (flag_value flag rest) (\<lambda>v. Inr (db, p\<lparr>pa_state := Some v\<rparr>))
       else if flag = ''--out'' then and_then (flag_value flag rest) (\<lambda>v. Inr (db, p\<lparr>pa_out := Some v\<rparr>))
       else Inl (Usage (''unknown flag: '' @ flag)))"

fun parse_loop :: "str list \<Rightarrow> str option \<times> Parsed \<Rightarrow> CliError + (str option \<times> Parsed)" where
  "parse_loop [] s = Inr s"
| "parse_loop [arg] (db, p) =
     (if arg = ''--overwrite'' then Inr (db, p\<lparr>pa_overwrite := True\<rparr>)
      else if arg = ''--include-payloads'' then Inr (db, p\<lparr>pa_include_payloads := True\<rparr>)
      else if starts_with ''--'' arg then set_flag arg [] (db, p)
      else Inr (db, p\<lparr>pa_positional := pa_positional p @ [arg]\<rparr>))"
| "parse_loop (arg # v # rest) (db, p) =
     (if arg = ''--overwrite'' then parse_loop (v # rest) (db, p\<lparr>pa_overwrite := True\<rparr>)
      else if arg = ''--include-payloads'' then parse_loop (v # rest) (db, p\<lparr>pa_include_payloads := True\<rparr>)
      else if starts_with ''--'' arg
      then and_then (set_flag arg (v # rest) (db, p)) (\<lambda>s. parse_loop rest s)
      else parse_loop (v # rest) (db, p\<lparr>pa_positional := pa_positional p @ [arg]\<rparr>))"

definition parse :: "str list \<Rightarrow> CliError + Parsed" where
  "parse args =
     and_then (parse_loop args (None, no_flags)) (\<lambda>(db, p).
     and_then (ok_or db (Usage ''missing required --db <path>'')) (\<lambda>db. Inr (p\<lparr>pa_db := db\<rparr>)))"

definition to_ascii_lowercase :: "str \<Rightarrow> str" where
  "to_ascii_lowercase s =
     map (\<lambda>c. let n = of_char c :: nat in if 65 \<le> n \<and> n \<le> 90 then char_of (n + 32) else c) s"

definition parse_state :: "str \<Rightarrow> CliError + JobState" where
  "parse_state raw =
     (let s = to_ascii_lowercase raw in
      if s = ''pending'' then Inr Pending
      else if s = ''leased'' then Inr Leased
      else if s = ''retry-wait'' \<or> s = ''retrywait'' then Inr RetryWait
      else if s = ''uncertain'' then Inr Uncertain
      else if s = ''succeeded'' then Inr Succeeded
      else if s = ''dead'' then Inr Dead
      else if s = ''cancelled'' then Inr Cancelled
      else Inl (Usage (''unknown job state: '' @ s)))"

definition parse_id :: "str \<Rightarrow> str \<Rightarrow> CliError + Id" where
  "parse_id raw what = map_err (\<lambda>_. Usage (''invalid '' @ what @ '': '' @ raw)) (from_hex raw)"

text \<open>\<open>char::to_digit(16)\<close>\<close>

definition to_digit16 :: "char \<Rightarrow> u8 option" where
  "to_digit16 c =
     (let n = of_char c :: nat in
      if 48 \<le> n \<and> n \<le> 57 then Some (of_nat (n - 48))
      else if 97 \<le> n \<and> n \<le> 102 then Some (of_nat (n - 87))
      else if 65 \<le> n \<and> n \<le> 70 then Some (of_nat (n - 55))
      else None)"

fun parse_hex_pairs :: "str \<Rightarrow> bytes option" where
  "parse_hex_pairs [] = Some []"
| "parse_hex_pairs [c] = None"
| "parse_hex_pairs (h # l # cs) =
     (case (to_digit16 h, to_digit16 l) of
        (Some hi, Some lo) \<Rightarrow> map_option (\<lambda>bs. (push_bit 4 hi OR lo) # bs) (parse_hex_pairs cs)
      | _ \<Rightarrow> None)"

definition parse_hex :: "str \<Rightarrow> str \<Rightarrow> CliError + bytes" where
  "parse_hex raw what = ok_or (parse_hex_pairs raw) (Usage (''invalid '' @ what @ '' hex: '' @ raw))"

definition cli_hex :: "bytes \<Rightarrow> str" where
  "cli_hex bs = concat (map (\<lambda>b. [HEX ! unat (drop_bit 4 b), HEX ! unat (b AND 0x0F)]) bs)"

section \<open>Debug output\<close>

fun effect_debug :: "EffectMode \<Rightarrow> str" where
  "effect_debug RequiresReconciliation = ''RequiresReconciliation''"
| "effect_debug ExplicitlyIdempotent = ''ExplicitlyIdempotent''"

fun separated :: "str \<Rightarrow> str list \<Rightarrow> str" where
  "separated sep [] = []"
| "separated sep [x] = x"
| "separated sep (x # y # xs) = x @ sep @ separated sep (y # xs)"

definition debug_counts :: "(str \<times> u64) list \<Rightarrow> str" where
  "debug_counts m =
     ''{'' @ separated '', '' (map (\<lambda>(k, n). debug_str k @ '': '' @ show_u64 n) m) @ ''}''"

text \<open>\<open>{:#?}\<close> of the statistics.\<close>

definition pretty_counts :: "(str \<times> u64) list \<Rightarrow> str" where
  "pretty_counts m =
     (if m = [] then ''{}''
      else println ''{'' @ concat (map (\<lambda>(k, n).
          println (''        '' @ debug_str k @ '': '' @ show_u64 n @ '','')) m) @ ''    }'')"

definition pretty_option :: "i64 option \<Rightarrow> str" where
  "pretty_option v =
     (case v of None \<Rightarrow> ''None''
      | Some x \<Rightarrow> println ''Some('' @ println (''        '' @ show_int x @ '','') @ ''    )'')"

definition pretty_stats :: "StoreStats \<Rightarrow> str" where
  "pretty_stats st =
     println ''StoreStats {''
     @ concat (map (\<lambda>(name, v). println (''    '' @ name @ '': '' @ v @ '',''))
         [(''transactions'', show_u64 (ss_transactions st)), (''events'', show_u64 (ss_events st)),
          (''streams'', show_u64 (ss_streams st)), (''projections'', show_u64 (ss_projections st)),
          (''projection_entries'', show_u64 (ss_projection_entries st)),
          (''jobs_by_state'', pretty_counts (ss_jobs_by_state st)),
          (''active_partitions'', show_u64 (ss_active_partitions st)),
          (''file_size_bytes'', show_u64 (ss_file_size_bytes st)),
          (''migration_version'', show_nat (unat (ss_migration_version st))),
          (''oldest_active_lease_ms'', pretty_option (ss_oldest_active_lease_ms st)),
          (''oldest_uncertain_job_ms'', pretty_option (ss_oldest_uncertain_job_ms st))])
     @ ''}''"

section \<open>Printing records\<close>

definition print_job :: "JobInfo \<Rightarrow> str" where
  "print_job job =
     (let spec = ji_spec job in
      concat (map println
       [''job_id: '' @ to_hex (ji_job_id job), ''queue: '' @ js_queue spec,
        ''partition_key: '' @ js_partition_key spec, ''state: '' @ state_debug (ji_state job),
        ''attempt: '' @ show_nat (unat (ji_attempt job)) @ '' / '' @ show_nat (unat (js_max_attempts spec)),
        ''effect_mode: '' @ effect_debug (js_effect_mode spec),
        ''payload_len: '' @ show_nat (length (js_payload spec)),
        ''not_before_ms: '' @ show_int (js_not_before_ms spec),
        ''worker_id: '' @ debug_option debug_str (ji_worker_id job),
        ''lease_expires_at_ms: '' @ debug_option show_int (ji_lease_expires_at_ms job),
        ''retry_after_ms: '' @ debug_option show_int (ji_retry_after_ms job),
        ''terminal_at_ms: '' @ debug_option show_int (ji_terminal_at_ms job),
        ''error_summary: '' @ debug_option debug_str (ji_error_summary job)]))"

definition print_event :: "PersistedEvent \<Rightarrow> str" where
  "print_event e =
     println (show_u64 (pe_global_sequence e) @ '' '' @ to_hex (ev_event_id (pe_event e)) @ '' ''
       @ ev_stream_id (pe_event e) @ ''@'' @ show_u64 (pe_stream_version e) @ '' ''
       @ ev_event_type (pe_event e))"

definition job_list_line :: "JobInfo \<Rightarrow> str" where
  "job_list_line job =
     println (to_hex (ji_job_id job) @ '' '' @ js_queue (ji_spec job) @ '' ''
       @ js_partition_key (ji_spec job) @ '' '' @ state_debug (ji_state job) @ '' attempt ''
       @ show_nat (unat (ji_attempt job)))"

definition uncertain_line :: "JobInfo \<Rightarrow> str" where
  "uncertain_line job =
     println (to_hex (ji_job_id job) @ '' '' @ js_queue (ji_spec job) @ '' ''
       @ js_partition_key (ji_spec job) @ '' attempt '' @ show_nat (unat (ji_attempt job)))"

definition status_line :: "MigrationStatus \<Rightarrow> str" where
  "status_line s =
     println (''v'' @ show_nat (unat (ms_version s)) @ '' applied_at_ms='' @ show_int (ms_applied_at_ms s)
       @ '' checksum='' @ (if ms_checksum_ok s then ''ok'' else ''MISMATCH''))"

section \<open>Environment and world\<close>

text \<open>
  \<open>ce_write\<close> is how writing the file of an export fails, and whether the file has been truncated by
  then; \<open>ce_not_database\<close> is the error SQLite reports on a file that is not a database, which it
  leaves alone.
\<close>

record cli_env =
  ce_engine :: engine
  ce_copier :: copier
  ce_texts :: driver_texts
  ce_now :: i64
  ce_file :: "str \<Rightarrow> str"
  ce_write :: "(str \<times> bool) option"
  ce_not_database :: str

record cli_world =
  cw_files :: "str \<Rightarrow> content option"

definition file_at :: "cli_env \<Rightarrow> str \<Rightarrow> cli_world \<Rightarrow> content option" where
  "file_at env path x = cw_files x (ce_file env path)"

definition put_file :: "cli_env \<Rightarrow> str \<Rightarrow> content option \<Rightarrow> cli_world \<Rightarrow> cli_world" where
  "put_file env path c x = x\<lparr>cw_files := (cw_files x)(ce_file env path := c)\<rparr>"

definition database :: "content option \<Rightarrow> disk" where
  "database c = (case c of Some (Database f) \<Rightarrow> Some f | _ \<Rightarrow> None)"

definition put_database :: "cli_env \<Rightarrow> str \<Rightarrow> disk \<Rightarrow> cli_world \<Rightarrow> cli_world" where
  "put_database env path w x = (case w of None \<Rightarrow> x | Some f \<Rightarrow> put_file env path (Some (Database f)) x)"

text \<open>What a command that only reads answers: its result and what it printed.\<close>

type_synonym reply = "(CliError + unit) \<times> str"

definition reply_err :: "CliError \<Rightarrow> reply" where
  "reply_err e = (Inl e, [])"

definition reply_ok :: "str \<Rightarrow> reply" where
  "reply_ok out = (Inr (), out)"

definition op_err :: "cli_env \<Rightarrow> Error \<Rightarrow> CliError" where
  "op_err env e = Op (show_error (ce_texts env) e)"

text \<open>\<open>store.read().map_err(op_err)?\<close>, passing the handle on.\<close>

definition ask :: "cli_env \<Rightarrow> (Error + 'a) \<times> Store \<Rightarrow> ('a \<Rightarrow> Store \<Rightarrow> reply) \<Rightarrow> reply" where
  "ask env answer k =
     (case answer of (Inl e, s) \<Rightarrow> reply_err (op_err env e) | (Inr x, s) \<Rightarrow> k x s)"

text \<open>A step that may fail before anything is printed.\<close>

definition require_arg :: "CliError + 'a \<Rightarrow> ('a \<Rightarrow> reply) \<Rightarrow> reply" where
  "require_arg v k = (case v of Inl e \<Rightarrow> reply_err e | Inr x \<Rightarrow> k x)"

definition prints :: "str \<Rightarrow> reply \<Rightarrow> reply" where
  "prints out r = (fst r, out @ snd r)"

definition positional :: "Parsed \<Rightarrow> nat \<Rightarrow> str \<Rightarrow> CliError + str" where
  "positional p i msg = (if i < length (pa_positional p) then Inr (pa_positional p ! i) else Inl (Usage msg))"

definition or_default :: "'a option \<Rightarrow> 'a \<Rightarrow> 'a" where
  "or_default v x = (case v of None \<Rightarrow> x | Some y \<Rightarrow> y)"

section \<open>Commands on a store opened for inspection\<close>

definition print_findings :: "VerifyReport \<Rightarrow> str" where
  "print_findings r = concat (map (\<lambda>f. println (vf_check f @ '': '' @ vf_detail f)) (vr_findings r))"

text \<open>The end of both \<open>doctor\<close> and \<open>verify\<close>.\<close>

definition cmd_verify :: "cli_env \<Rightarrow> str \<Rightarrow> disk \<Rightarrow> Store \<Rightarrow> reply" where
  "cmd_verify env ok w s =
     ask env (store_verify (ce_engine env) w s) (\<lambda>r s.
       if report_is_ok r then reply_ok (println ok)
       else (Inl (Findings (length (vr_findings r))), print_findings r))"

definition cmd_doctor :: "cli_env \<Rightarrow> str \<Rightarrow> disk \<Rightarrow> Store \<Rightarrow> reply" where
  "cmd_doctor env db w s =
     prints (println (''store opened: '' @ db))
       (ask env (store_stats (ce_engine env) w s) (\<lambda>st s.
          prints (println (''schema version: '' @ show_nat (unat (ss_migration_version st)))
              @ println (''transactions: '' @ show_u64 (ss_transactions st) @ '', events: ''
                  @ show_u64 (ss_events st) @ '', streams: '' @ show_u64 (ss_streams st))
              @ println (''jobs by state: '' @ debug_counts (ss_jobs_by_state st)
                  @ '', active partitions: '' @ show_u64 (ss_active_partitions st))
              @ println (''file size: '' @ show_u64 (ss_file_size_bytes st) @ '' bytes''))
            (cmd_verify env ''verify: ok'' w s)))"

definition cmd_stats :: "cli_env \<Rightarrow> disk \<Rightarrow> Store \<Rightarrow> reply" where
  "cmd_stats env w s =
     ask env (store_stats (ce_engine env) w s) (\<lambda>st s. reply_ok (println (pretty_stats st)))"

definition cmd_events_tail :: "cli_env \<Rightarrow> Parsed \<Rightarrow> disk \<Rightarrow> Store \<Rightarrow> reply" where
  "cmd_events_tail env p w s =
     ask env (store_last_events (ce_engine env) (or_default (pa_limit p) 10) w s) (\<lambda>events s.
       reply_ok (concat (map print_event events)))"

definition cmd_events_stream :: "cli_env \<Rightarrow> Parsed \<Rightarrow> disk \<Rightarrow> Store \<Rightarrow> reply" where
  "cmd_events_stream env p w s =
     require_arg (positional p 1 ''events stream requires a <stream-id>'') (\<lambda>stream_id.
     ask env (store_stream_events (ce_engine env) stream_id (or_default (pa_from p) 1)
         (or_default (pa_limit p) 100) w s) (\<lambda>events s.
       if events = []
       then ask env (store_stream_version (ce_engine env) stream_id w s) (\<lambda>v s.
              if v = 0 then reply_err (NotFound (''stream not found: '' @ stream_id)) else reply_ok [])
       else reply_ok (concat (map print_event events))))"

definition cmd_projections_list :: "cli_env \<Rightarrow> disk \<Rightarrow> Store \<Rightarrow> reply" where
  "cmd_projections_list env w s =
     ask env (store_projections_list (ce_engine env) w s) (\<lambda>ps s.
       reply_ok (concat (map (\<lambda>(projection, v). println (projection @ '' v'' @ show_u64 v)) ps)))"

definition entry_text :: "ProjectionEntry \<Rightarrow> str" where
  "entry_text e = println (cli_hex (pn_key e) @ '' '' @ cli_hex (pn_value e))"

definition cmd_projections_scan :: "cli_env \<Rightarrow> Parsed \<Rightarrow> disk \<Rightarrow> Store \<Rightarrow> reply" where
  "cmd_projections_scan env p w s =
     require_arg (positional p 1 ''projections scan requires a <projection>'') (\<lambda>projection.
     ask env (store_projection_version (ce_engine env) projection w s) (\<lambda>v s.
       if v = 0 then reply_err (NotFound (''projection not found: '' @ projection))
       else require_arg (case pa_prefix p of None \<Rightarrow> Inr [] | Some raw \<Rightarrow> parse_hex raw ''--prefix'') (\<lambda>pre.
         ask env (store_projection_scan_prefix (ce_engine env) projection pre (or_default (pa_limit p) 100) w s)
           (\<lambda>entries s. reply_ok (concat (map entry_text entries))))))"

definition cmd_projections_get :: "cli_env \<Rightarrow> Parsed \<Rightarrow> disk \<Rightarrow> Store \<Rightarrow> reply" where
  "cmd_projections_get env p w s =
     require_arg (positional p 1 ''projections get requires a <projection>'') (\<lambda>projection.
     require_arg (positional p 2 ''projections get requires a <key-hex>'') (\<lambda>key_raw.
     require_arg (parse_hex key_raw ''key'') (\<lambda>key.
     ask env (store_projection_get (ce_engine env) projection key w s) (\<lambda>v s.
       case v of
         Some v \<Rightarrow> reply_ok (println (cli_hex v))
       | None \<Rightarrow> reply_err (NotFound (''no entry for key '' @ key_raw @ '' in projection '' @ projection))))))"

definition cmd_jobs_list :: "cli_env \<Rightarrow> Parsed \<Rightarrow> disk \<Rightarrow> Store \<Rightarrow> reply" where
  "cmd_jobs_list env p w s =
     require_arg (case pa_state p of None \<Rightarrow> Inr None | Some raw \<Rightarrow> map_sum id Some (parse_state raw)) (\<lambda>state.
     let limit = or_default (pa_limit p) 100 in
     ask env (store_jobs_page (ce_engine env) (pa_queue p) state (or_default (pa_after p) 0) limit w s)
       (\<lambda>(jobs, cursor) s.
          reply_ok (concat (map job_list_line jobs)
            @ (if length jobs = limit then println (''next: --after '' @ show_u64 cursor) else []))))"

definition cmd_jobs_show :: "cli_env \<Rightarrow> Parsed \<Rightarrow> disk \<Rightarrow> Store \<Rightarrow> reply" where
  "cmd_jobs_show env p w s =
     require_arg (positional p 1 ''jobs show requires a <job-id>'') (\<lambda>raw.
     require_arg (parse_id raw ''job id'') (\<lambda>job_id.
     ask env (store_job (ce_engine env) job_id w s) (\<lambda>job s.
       case job of
         Some job \<Rightarrow> reply_ok (print_job job)
       | None \<Rightarrow> reply_err (NotFound (''job not found: '' @ raw)))))"

definition cmd_jobs_uncertain :: "cli_env \<Rightarrow> Parsed \<Rightarrow> disk \<Rightarrow> Store \<Rightarrow> reply" where
  "cmd_jobs_uncertain env p w s =
     ask env (store_jobs (ce_engine env) None (Some Uncertain) (or_default (pa_limit p) 100) w s) (\<lambda>jobs s.
       reply_ok (concat (map uncertain_line jobs)))"

definition cmd_migrations_status :: "cli_env \<Rightarrow> disk \<Rightarrow> Store \<Rightarrow> reply" where
  "cmd_migrations_status env w s =
     ask env (store_migrations_status (ce_engine env) w s) (\<lambda>ss s. reply_ok (concat (map status_line ss)))"

text \<open>The two commands that write a file of their own.\<close>

definition cmd_backup :: "cli_env \<Rightarrow> Parsed \<Rightarrow> str \<Rightarrow> Store \<Rightarrow> cli_world \<Rightarrow> (CliError + unit) \<times> str \<times> cli_world" where
  "cmd_backup env p dest s x =
     (case store_backup (ce_engine env) (ce_copier env) dest (pa_overwrite p) s
         (database (file_at env (pa_db p) x)) (file_at env dest x) of
        (res, s, w, d) \<Rightarrow>
          let y = put_file env dest d (put_database env (pa_db p) w x) in
          (case res of
             Inl e \<Rightarrow> (Inl (op_err env e), [], y)
           | Inr _ \<Rightarrow>
               (case ask env (store_migrations_status (ce_engine env) (database (file_at env (pa_db p) y)) s) (\<lambda>ss s.
                   reply_ok (println (''backup written to '' @ dest @ '' (schema version ''
                     @ show_nat (Max (set (0 # map (\<lambda>m. unat (ms_version m)) ss))) @ '')''))) of
                  (r, out) \<Rightarrow> (r, out, y))))"

definition cmd_diagnostic_export :: "cli_env \<Rightarrow> Parsed \<Rightarrow> Store \<Rightarrow> cli_world \<Rightarrow> (CliError + unit) \<times> str \<times> cli_world" where
  "cmd_diagnostic_export env p s x =
     (case fst (store_diagnostic_export_with (ce_engine env) (pa_include_payloads p)
         (database (file_at env (pa_db p) x)) s) of
        Inl e \<Rightarrow> (Inl (op_err env e), [], x)
      | Inr export \<Rightarrow>
        (case pa_out p of
           None \<Rightarrow> (Inr (), export, x)
         | Some path \<Rightarrow>
           (case ce_write env of
              Some (msg, truncated) \<Rightarrow> (Inl (Op msg), [], if truncated then put_file env path (Some Foreign) x else x)
            | None \<Rightarrow> (Inr (), println (''diagnostic export written to '' @ path), put_file env path (Some (Text export)) x))))"

section \<open>Resolving a job\<close>

text \<open>The only command that opens the store to write; it creates and migrates like the library.\<close>

definition parse_resolution :: "Parsed \<Rightarrow> CliError + Resolution" where
  "parse_resolution p =
     (if length (pa_positional p) \<le> 2 then Inl (Usage ''jobs resolve requires a resolution: retry | succeeded | dead'')
      else if pa_positional p ! 2 = ''retry'' then Inr Retry
      else if pa_positional p ! 2 = ''succeeded'' then Inr MarkSucceeded
      else if pa_positional p ! 2 = ''dead'' then Inr MarkDead
      else Inl (Usage ''jobs resolve requires a resolution: retry | succeeded | dead''))"

definition resolve_on ::
    "cli_env \<Rightarrow> str \<Rightarrow> Id \<Rightarrow> Resolution \<Rightarrow> Store \<Rightarrow> disk \<Rightarrow> (CliError + unit) \<times> str \<times> disk" where
  "resolve_on env raw_id job_id resolution s w =
     (case store_job (ce_engine env) job_id w s of
        (Inl e, s) \<Rightarrow> (Inl (op_err env e), [], w)
      | (Inr None, s) \<Rightarrow> (Inl (NotFound (''job not found: '' @ raw_id)), [], w)
      | (Inr (Some _), s) \<Rightarrow>
        (case id_new (en_entropy (ce_engine env) 0) of
           Inl e \<Rightarrow> (Inl (op_err env e), [], w)
         | Inr transaction_id \<Rightarrow>
           (case store_commit (ce_engine env)
               (resolve_uncertain_job (batch_new transaction_id (ce_now env)) job_id resolution) s w of
              (Inl e, s, w) \<Rightarrow> (Inl (Op (show_commit_error (ce_texts env) e)), [], w)
            | (Inr _, s, w) \<Rightarrow> (Inr (), println (''job '' @ raw_id @ '' resolved''), w))))"

definition jobs_resolve :: "cli_env \<Rightarrow> Parsed \<Rightarrow> cli_world \<Rightarrow> (CliError + unit) \<times> str \<times> cli_world" where
  "jobs_resolve env p x =
     (case and_then (positional p 1 ''jobs resolve requires a <job-id>'') (\<lambda>raw_id.
        and_then (parse_id raw_id ''job id'') (\<lambda>job_id.
        and_then (parse_resolution p) (\<lambda>resolution. Inr (raw_id, job_id, resolution)))) of
        Inl e \<Rightarrow> (Inl e, [], x)
      | Inr (raw_id, job_id, resolution) \<Rightarrow>
          (case file_at env (pa_db p) x of
             None \<Rightarrow> (Inl (NotFound (''database file '' @ pa_db p @ '' does not exist'')), [], x)
           | Some c \<Rightarrow>
             if database (Some c) = None then (Inl (Op (ce_not_database env)), [], x)
             else (case store_open (ce_engine env) (pa_db p) (database (Some c)) of
                     (Inl e, w) \<Rightarrow> (Inl (op_err env e), [], put_database env (pa_db p) w x)
                   | (Inr s, w) \<Rightarrow>
                       (case resolve_on env raw_id job_id resolution s w of
                          (r, out, w) \<Rightarrow> (r, out, put_database env (pa_db p) w x)))))"

section \<open>The program\<close>

definition known_command :: "str \<Rightarrow> str option \<Rightarrow> bool" where
  "known_command c sub \<longleftrightarrow>
     (c, sub) \<in> set [(''doctor'', None), (''verify'', None), (''stats'', None),
       (''events'', Some ''tail''), (''events'', Some ''stream''),
       (''projections'', Some ''list''), (''projections'', Some ''scan''), (''projections'', Some ''get''),
       (''jobs'', Some ''list''), (''jobs'', Some ''show''), (''jobs'', Some ''uncertain''),
       (''jobs'', Some ''resolve''), (''diagnostic-export'', None), (''migrations'', Some ''status'')]
     \<or> c = ''backup'' \<and> sub \<noteq> None"

definition unknown_command :: "str list \<Rightarrow> CliError" where
  "unknown_command args = Usage (''unknown command: '' @ separated '' '' args @ newline @ USAGE)"

definition dispatch ::
    "cli_env \<Rightarrow> str list \<Rightarrow> str \<Rightarrow> str option \<Rightarrow> Parsed \<Rightarrow> Store \<Rightarrow> cli_world \<Rightarrow> (CliError + unit) \<times> str \<times> cli_world" where
  "dispatch env args c sub p s x =
     (let w = database (file_at env (pa_db p) x); answer = (\<lambda>r. (fst r, snd r, x)) in
      if (c, sub) = (''doctor'', None) then answer (cmd_doctor env (pa_db p) w s)
      else if (c, sub) = (''verify'', None) then answer (cmd_verify env ''ok'' w s)
      else if (c, sub) = (''stats'', None) then answer (cmd_stats env w s)
      else if (c, sub) = (''events'', Some ''tail'') then answer (cmd_events_tail env p w s)
      else if (c, sub) = (''events'', Some ''stream'') then answer (cmd_events_stream env p w s)
      else if (c, sub) = (''projections'', Some ''list'') then answer (cmd_projections_list env w s)
      else if (c, sub) = (''projections'', Some ''scan'') then answer (cmd_projections_scan env p w s)
      else if (c, sub) = (''projections'', Some ''get'') then answer (cmd_projections_get env p w s)
      else if (c, sub) = (''jobs'', Some ''list'') then answer (cmd_jobs_list env p w s)
      else if (c, sub) = (''jobs'', Some ''show'') then answer (cmd_jobs_show env p w s)
      else if (c, sub) = (''jobs'', Some ''uncertain'') then answer (cmd_jobs_uncertain env p w s)
      else if (c, sub) = (''diagnostic-export'', None) then cmd_diagnostic_export env p s x
      else if (c, sub) = (''migrations'', Some ''status'') then answer (cmd_migrations_status env w s)
      else case sub of
        Some dest \<Rightarrow> if c = ''backup'' then cmd_backup env p dest s x else (Inl (unknown_command args), [], x)
      | None \<Rightarrow> (Inl (unknown_command args), [], x))"

text \<open>An optional leading \<open>store\<close> is accepted.\<close>

definition strip_store :: "str list \<Rightarrow> str list" where
  "strip_store args = (if hd args = ''store'' \<and> length args > 1 then tl args else args)"

definition run_command :: "cli_env \<Rightarrow> str list \<Rightarrow> cli_world \<Rightarrow> (CliError + unit) \<times> str \<times> cli_world" where
  "run_command env args x =
     (case parse (tl args) of
        Inl e \<Rightarrow> (Inl e, [], x)
      | Inr p \<Rightarrow>
          let c = hd args; sub = (case pa_positional p of [] \<Rightarrow> None | q # _ \<Rightarrow> Some q) in
          if \<not> known_command c sub then (Inl (unknown_command args), [], x)
          else if (c, sub) = (''jobs'', Some ''resolve'') then jobs_resolve env p x
          else (case file_at env (pa_db p) x of
                  None \<Rightarrow> (Inl (NotFound (''database file '' @ pa_db p @ '' does not exist'')), [], x)
                | Some f \<Rightarrow>
                  if database (Some f) = None then (Inl (Op (ce_not_database env)), [], x)
                  else (case store_open_existing (ce_engine env) (pa_db p) (database (Some f)) of
                          Inl e \<Rightarrow> (Inl (op_err env e), [], x)
                        | Inr s \<Rightarrow> dispatch env args c sub p s x)))"

definition run_cli :: "cli_env \<Rightarrow> str list \<Rightarrow> cli_world \<Rightarrow> (CliError + unit) \<times> str \<times> cli_world" where
  "run_cli env args x =
     (if args = [] \<or> hd args = ''--help'' \<or> hd args = ''help'' then (Inr (), USAGE, x)
      else run_command env (strip_store args) x)"

end
