(* ===== verification/JobQueries.thy ===== *)
theory JobQueries
  imports Witnesses ProjectionStore
begin

text \<open>
  Listing jobs page by page, and what resolving a job requires of it.
\<close>

section \<open>Pages\<close>

text \<open>The jobs a listing shows after a cursor, in enqueue order.\<close>

definition jobs_after :: "db \<Rightarrow> str option \<Rightarrow> JobState option \<Rightarrow> u64 \<Rightarrow> JobRow list" where
  "jobs_after d queue state after =
     filter (\<lambda>r. uint after < jr_enqueue_sequence r \<and> job_matches queue state r) (db_jobs d)"

lemma read_jobs_map: "read_jobs rows = Inr (map into_info rows)"
  by (simp add: read_jobs_def)

lemma jobs_sorted:
  assumes "jobs_ok d"
  shows "sorted_wrt (\<lambda>a b. jr_enqueue_sequence a < jr_enqueue_sequence b) (filter P (db_jobs d))"
proof -
  have "map jr_enqueue_sequence (db_jobs d) = [1..int (length (db_jobs d))]"
    using assms by (simp add: jobs_ok_def rows_okD(1))
  then have "sorted_wrt (<) (map jr_enqueue_sequence (db_jobs d))"
    by (simp add: strict_sorted_iff)
  then show ?thesis by (simp add: sorted_wrt_map sorted_wrt_filter)
qed

lemma jobs_after_sorted: "jobs_ok d \<Longrightarrow> sort_key jr_enqueue_sequence (jobs_after d q st after) = jobs_after d q st after"
  unfolding jobs_after_def
  by (intro sort_key_id_if_sorted, unfold sorted_map, rule sorted_wrt_mono_rel [OF _ jobs_sorted]) simp_all

lemma i64_as_u64_nonneg: "0 \<le> n \<Longrightarrow> n \<le> i64_max \<Longrightarrow> uint (i64_as_u64 n) = n"
  by (simp add: i64_as_u64_def i64_max_def unsigned_of_int take_bit_int_eq_self)

lemma list_jobs_page_eq:
  assumes "jobs_ok d" and "uint after \<le> i64_max" and "int limit \<le> i64_max"
  shows "list_jobs_page d q st after limit =
    (let page = take limit (jobs_after d q st after) in
     Inr (map into_info page, if page = [] then after else i64_as_u64 (jr_enqueue_sequence (last page))))"
  using assms jobs_after_sorted [OF assms(1), of q st after]
  by (simp add: list_jobs_page_def Let_def read_jobs_map sql_limit_take jobs_after_def not_less [symmetric])

text \<open>
  C32: the pages of a job listing tile it: a page is the next jobs after its cursor in enqueue
  order, as many as asked for, and the page at the returned cursor goes on exactly where it ended.
\<close>

theorem job_pages_tile:
  assumes "jobs_ok d" and "0 < limit" and "list_jobs_page d q st after limit = Inr (page, cursor)"
  shows "page = map into_info (take limit (jobs_after d q st after)) \<and>
    (\<exists>cursor'. list_jobs_page d q st cursor limit =
      Inr (map into_info (take limit (drop limit (jobs_after d q st after))), cursor'))"
proof -
  let ?all = "jobs_after d q st after" and ?rows = "take limit (jobs_after d q st after)"
  have range: "uint after \<le> i64_max" "int limit \<le> i64_max"
    using assms(3) by (simp_all add: list_jobs_page_def not_less split: if_splits)
  note page = list_jobs_page_eq [OF assms(1) range, of q st]
  have p: "page = map into_info ?rows"
    "cursor = (if ?rows = [] then after else i64_as_u64 (jr_enqueue_sequence (last ?rows)))"
    using assms(3) page by (simp_all add: Let_def)
  have "uint cursor \<le> i64_max \<and> jobs_after d q st cursor = drop limit ?all"
  proof (cases "?rows = []")
    case True
    then show ?thesis using p(2) range assms(2) by (auto simp: take_eq_Nil)
  next
    case False
    then have l: "last ?rows \<in> set ?all" using in_set_takeD last_in_set by fast
    then have l': "last ?rows \<in> set (db_jobs d)" "uint after < jr_enqueue_sequence (last ?rows)"
      by (auto simp: jobs_after_def)
    have "jr_enqueue_sequence (last ?rows) \<le> int (length (db_jobs d))" "int (length (db_jobs d)) \<le> i64_max"
      using assms(1) l'(1) sequence_bound [of "db_jobs d"] by (auto simp: jobs_ok_def rows_ok_def)
    moreover have "0 \<le> jr_enqueue_sequence (last ?rows)"
      using l'(2) uint_ge_0 [of after] by linarith
    ultimately have c: "uint cursor = jr_enqueue_sequence (last ?rows)" "uint cursor \<le> i64_max"
      using p(2) False i64_as_u64_nonneg [of "jr_enqueue_sequence (last ?rows)"] by simp_all
    have "jobs_after d q st cursor = filter (\<lambda>r. jr_enqueue_sequence (last ?rows) < jr_enqueue_sequence r) ?all"
      using l'(2) unfolding jobs_after_def c(1) by (auto intro: filter_cong)
    also have "\<dots> = drop limit ?all"
      by (rule after_last_of_page) (use assms(1,2) False jobs_sorted in \<open>auto simp: jobs_after_def\<close>)
    finally show ?thesis using c(2) by simp
  qed
  then show ?thesis
    using p(1) list_jobs_page_eq [OF assms(1) _ range(2), of cursor q st] by (auto simp: Let_def)
qed

theorem job_pages_tile_witness:
  "\<exists>cursor'. list_jobs_page sample_db None None 1 1 = Inr ([], cursor')"
proof -
  have jobs: "db_jobs sample_db = [new_job_row (id_from_u128 1) (reconcilable (id_from_u128 3) ''q'' ''p'' [9]) 1]"
    by (simp add: sample_db_def)
  have ok: "jobs_ok sample_db" using sample_store_ok by (rule store_okD)
  have after: "jobs_after sample_db None None 0 = db_jobs sample_db"
    unfolding jobs_after_def jobs by (simp add: job_matches_def)
  have "list_jobs_page sample_db None None 0 1 = Inr (map into_info (db_jobs sample_db), 1)"
    using list_jobs_page_eq [OF ok, of 0 1 None None] after jobs
    by (simp add: i64_max_def i64_as_u64_def Let_def)
  from job_pages_tile [OF ok _ this] show ?thesis using after jobs by simp
qed

section \<open>Resolving\<close>

text \<open>
  C36: the operation documented to resolve an uncertain job also takes a leased one: without any
  token, a retry resolution takes the job from its worker and makes it claimable again, while
  cancelling the same job fails without the current token.
\<close>

theorem resolve_ignores_lease:
  assumes "jobs_ok d" and "r \<in> set (db_jobs d)" and "jr_state r = Leased" and "jr_attempt r < jr_max_attempts r"
  shows "(\<exists>d' r'. apply_resolve t now \<lparr>jres_job_id = jr_job_id r, jres_resolution = Retry\<rparr> d = Inr d' \<and>
      r' \<in> set (db_jobs d') \<and> jr_job_id r' = jr_job_id r \<and> jr_state r' = Pending \<and> jr_lease_token r' = None) \<and>
    (\<exists>e. apply_cancel t now \<lparr>jc_job_id = jr_job_id r, jc_lease_token = None\<rparr> d = Inl e)"
proof -
  let ?r' = "nonterminal_row Pending None t r"
  have req: "require_job d (jr_job_id r) = Inr r"
    using assms(1,2) by (simp add: jobs_ok_def require_job_Inr)
  have "\<not> jr_max_attempts r \<le> jr_attempt r" using assms(4) by simp
  then have "apply_resolve t now \<lparr>jres_job_id = jr_job_id r, jres_resolution = Retry\<rparr> d = Inr (put_row ?r' d)"
    using apply_resolve_on_job [OF assms(1), of t now "\<lparr>jres_job_id = jr_job_id r, jres_resolution = Retry\<rparr>"] req assms(3)
    by (simp add: on_job_def resolve_row_def ensure_transition_def)
  moreover have "?r' \<in> set (db_jobs (put_row ?r' d))"
    using assms(2) by (force simp: put_row_jobs update_rows_def)
  moreover have "\<exists>e. apply_cancel t now \<lparr>jc_job_id = jr_job_id r, jc_lease_token = None\<rparr> d = Inl e"
    using req assms(3) by (simp add: apply_cancel_def ensure_transition_def)
  ultimately show ?thesis by (intro conjI exI [of _ "put_row ?r' d"] exI [of _ ?r']) (simp_all add: nonterminal_row_def)
qed

theorem resolve_ignores_lease_witness:
  "\<exists>d' r'. apply_resolve (id_from_u128 9) 20 \<lparr>jres_job_id = id_from_u128 3, jres_resolution = Retry\<rparr> sample_claimed_db
     = Inr d' \<and> r' \<in> set (db_jobs d') \<and> jr_state r' = Pending"
  using resolve_ignores_lease [OF sample_claimed_jobs_ok sample_claimed_ok(2,3), of "id_from_u128 9" 20]
  by (auto simp: sample_leased_fields word_less_nat_alt)

end
