(* ===== verification/CliProperties.thy ===== *)
theory CliProperties
  imports Cli JobQueries
begin

text \<open>What a user of the command line may rely on.\<close>

section \<open>Hexadecimal keys\<close>

lemma nibble_digit: "(n :: u8) < 16 \<Longrightarrow> to_digit16 (HEX ! unat n) = Some n"
  by (drule nibbles) (elim insertE emptyE; simp add: to_digit16_def HEX_def Let_def)

lemma parse_cli_hex: "parse_hex_pairs (cli_hex bs) = Some bs"
  by (induction bs) (simp_all add: cli_hex_def nibble_digit nibble_bounds nibbles_join)

lemma HEX_digits: "n < 16 \<Longrightarrow> HEX ! n \<in> set HEX"
  by (rule nth_mem) (simp add: HEX_def)

lemma cli_hex_no_flag: "\<not> starts_with ''--'' (cli_hex bs)"
proof (cases bs)
  case (Cons b bs)
  have "unat (drop_bit 4 b) < 16" using nibble_bounds(1) [of b] by (simp add: word_less_nat_alt)
  then have "HEX ! unat (drop_bit 4 b) \<noteq> CHR ''-''"
    using HEX_digits [of "unat (drop_bit 4 b)"] by (auto simp: HEX_def)
  then show ?thesis by (simp add: Cons cli_hex_def starts_with_def)
qed (simp add: cli_hex_def starts_with_def)

section \<open>The files of the world\<close>

lemma file_at_put: "file_at env path (put_file env path' c x) = (if ce_file env path = ce_file env path' then c else file_at env path x)"
  by (simp add: file_at_def put_file_def)

lemma put_file_same [simp]: "put_file env path (file_at env path x) x = x"
  by (simp add: put_file_def file_at_def)

lemma cw_files_put [simp]: "cw_files (put_file env path c x) = (cw_files x)(ce_file env path := c)"
  by (simp add: put_file_def)

lemma database_Some: "database c = Some f \<longleftrightarrow> c = Some (Database f)"
  by (auto simp: database_def split: option.splits content.splits)

lemma put_database_same [simp]: "put_database env path (database (file_at env path x)) x = x"
proof (cases "database (file_at env path x)")
  case (Some f)
  then have "file_at env path x = Some (Database f)" by (simp add: database_Some)
  then have "put_file env path (Some (Database f)) x = x" using put_file_same [of env path x] by simp
  then show ?thesis unfolding Some by (simp add: put_database_def)
qed (simp add: put_database_def)

lemma put_database_other: "k \<noteq> ce_file env path \<Longrightarrow> cw_files (put_database env path w x) k = cw_files x k"
  by (simp add: put_database_def split: option.split)

section \<open>Looking up an entry\<close>

lemma not_a_flag:
  assumes "\<not> starts_with ''--'' p"
  shows "p \<noteq> ''--overwrite''" "p \<noteq> ''--include-payloads''"
  using assms by (auto simp: starts_with_def)

lemma parse_get:
  assumes "\<not> starts_with ''--'' p" and "\<not> starts_with ''--'' k"
  shows "parse [''get'', p, k, ''--db'', path] = Inr (no_flags\<lparr>pa_positional := [''get'', p, k], pa_db := path\<rparr>)"
  using assms not_a_flag [OF assms(1)] not_a_flag [OF assms(2)]
  by (simp add: parse_def starts_with_def set_flag_def flag_value_def no_flags_def)

text \<open>An engine that answers every opening and every PRAGMA.\<close>

definition opens_files :: "engine \<Rightarrow> bool" where
  "opens_files en \<longleftrightarrow> en_open en = None \<and> en_statement en = (\<lambda>_. None)"

lemma store_opens_existing:
  assumes "opens_files en" and "disk_ok w" and "migrated w"
  shows "store_open_existing en path w
    = Inr (built_store (builder_new path) \<lparr>cn_access = ReadOnly, cn_pragmas = base_pragmas\<rparr>)"
  using assms require_current_iff [of "file_of w"]
  by (simp add: opens_files_def store_open_existing_def builder_open_existing_def builder_new_def
      sample_limits_ok connection_open_existing_def migrated_def disk_ok_file run_pragmas_healthy)

lemma first_read:
  assumes "opens_files en" and "migrated w"
  shows "\<exists>s. with_reader en f w (built_store (builder_new path) c) = (f (file_of w), s)"
  using assms
  by (cases w) (simp_all add: opens_files_def with_reader_def built_store_def builder_new_def pool_new_def pool_take_def
      open_reader_def connection_open_existing_def migrated_def run_pragmas_healthy run_pragma_def)

text \<open>
  What \<open>projections scan\<close> prints can be looked up: \<open>projections get\<close> with a printed key, on an
  existing database, prints the hexadecimal text of exactly the value stored under it and exits
  with 0; and that text reads back as the value.
\<close>

theorem cli_get_prints_value:
  assumes "file_at env path x = Some (Database f)" and "disk_ok (Some f)" and "migrated (Some f)"
    and "opens_files (ce_engine env)"
    and "\<not> starts_with ''--'' p" and "projection_map (df_store f) p k = Some v"
  shows "run_cli env [''projections'', ''get'', p, cli_hex k, ''--db'', path] x
      = (Inr (), println (cli_hex v), x) \<and> parse_hex (cli_hex v) what = Inr v"
proof -
  let ?s = "built_store (builder_new path) \<lparr>cn_access = ReadOnly, cn_pragmas = base_pragmas\<rparr>"
  have "projection_get (df_store f) p k = Inr (Some v)"
    using assms(6) by (simp add: projection_get_def projection_map_def)
  then obtain s where get: "store_projection_get (ce_engine env) p k (Some f) ?s = (Inr (Some v), s)"
    using first_read [OF assms(4,3), of "\<lambda>f. projection_get (df_store f) p k" path]
    by (auto simp: store_projection_get_def)
  have "cmd_projections_get env (no_flags\<lparr>pa_positional := [''get'', p, cli_hex k], pa_db := path\<rparr>) (Some f) ?s
      = (Inr (), println (cli_hex v))"
    using get by (simp add: cmd_projections_get_def positional_def require_arg_def parse_hex_def parse_cli_hex
        ask_def reply_ok_def)
  moreover have "database (file_at env path x) = Some f" using assms(1) by (simp add: database_def)
  ultimately show ?thesis
    using parse_get [OF assms(5) cli_hex_no_flag, of k path] store_opens_existing [OF assms(4,2,3), of path] assms(1)
    by (simp add: run_cli_def strip_store_def run_command_def known_command_def dispatch_def Let_def
        parse_hex_def parse_cli_hex)
qed

lemma projection_disk_ok:
  "disk_ok (Some (sample_file\<lparr>df_store := sample_projection\<rparr>))"
  "migrated (Some (sample_file\<lparr>df_store := sample_projection\<rparr>))"
proof -
  have "store_ok sample_projection"
    using empty_store_ok sample_projection_ok
    by (simp add: store_ok_def sample_projection_def transactions_ok_def events_ok_def streams_ok_def jobs_ok_def
        stream_count_def current_stream_version_def empty_db_def has_transaction_def)
  then show "disk_ok (Some (sample_file\<lparr>df_store := sample_projection\<rparr>))"
    "migrated (Some (sample_file\<lparr>df_store := sample_projection\<rparr>))"
    using written_disk [of "Some sample_file" sample_projection] sample_file empty_store_ok
    by (simp_all add: disk_ok_file migrated_def store_of_def)
qed

definition sample_env :: cli_env where
  "sample_env = \<lparr>ce_engine = sample_engine, ce_copier = sample_copier,
     ce_texts = (\<lambda>_. []), ce_now = 20, ce_file = (\<lambda>path. path), ce_write = None,
     ce_not_database = ''file is not a database''\<rparr>"

text \<open>A directory with one database.\<close>

definition sample_world :: cli_world where
  "sample_world = \<lparr>cw_files = [''db'' \<mapsto> Database (sample_file\<lparr>df_store := sample_projection\<rparr>)]\<rparr>"

lemma sample_env_opens: "opens_files (ce_engine sample_env)"
  by (simp add: opens_files_def sample_env_def sample_engine_def)

theorem cli_get_prints_value_witness:
  "fst (snd (run_cli sample_env [''projections'', ''get'', ''p'', cli_hex [1], ''--db'', ''db''] sample_world)) = println ''07''"
proof -
  let ?f = "sample_file\<lparr>df_store := sample_projection\<rparr>"
  have p: "\<not> starts_with ''--'' ''p''" by (simp add: starts_with_def)
  have v: "projection_map (df_store ?f) ''p'' [1] = Some [7]"
    by (simp add: projection_map_def sample_projection_def)
  have db: "file_at sample_env ''db'' sample_world = Some (Database ?f)"
    by (simp add: file_at_def sample_env_def sample_world_def)
  have hex: "cli_hex [7] = ''07''"
    by (simp add: cli_hex_def HEX_def drop_bit_eq_div)
  show ?thesis
    using cli_get_prints_value [OF db projection_disk_ok sample_env_opens p v] hex by simp
qed

section \<open>The files a command writes\<close>

lemma exit_2: "exit_code r = 2 \<longleftrightarrow> (\<exists>m. r = Inl (Usage m))"
proof (cases r)
  case (Inl e)
  then show ?thesis by (cases e) (simp_all add: exit_code_def)
qed (simp add: exit_code_def)

lemma backup_writes:
  assumes "sv_writer s = Some c" and "cmd_backup env p dest s x = (res, out, y)"
  shows "(\<exists>d. y = put_file env dest d x) \<and> (file_at env dest x \<noteq> None \<and> \<not> pa_overwrite p \<longrightarrow> y = x) \<and> exit_code res \<noteq> 2"
proof -
  let ?w = "database (file_at env (pa_db p) x)"
  obtain r d where b: "backup (ce_copier env) dest (pa_overwrite p) (file_of ?w) (file_at env dest x) = (r, d)"
    by fastforce
  then have sb: "store_backup (ce_engine env) (ce_copier env) dest (pa_overwrite p) s ?w (file_at env dest x) = (r, s, ?w, d)"
    using assms(1) by (simp add: store_backup_def store_connection_def)
  have y: "y = put_file env dest d x" "exit_code res \<noteq> 2"
    using assms(2) sb
    by (auto simp: cmd_backup_def Let_def op_err_def exit_2 ask_def reply_err_def reply_ok_def
        split: prod.splits sum.splits)
  moreover have "y = x" if kept: "file_at env dest x \<noteq> None \<and> \<not> pa_overwrite p"
  proof -
    have "d = file_at env dest x" using b kept by (auto simp: backup_def)
    then show ?thesis by (simp only: y(1) put_file_same)
  qed
  ultimately show ?thesis by blast
qed

lemma export_writes:
  "cmd_diagnostic_export env p s x = (res, out, y) \<Longrightarrow>
     (y = x \<or> (\<exists>path c. pa_out p = Some path \<and> y = put_file env path c x)) \<and> exit_code res \<noteq> 2"
  by (auto simp: cmd_diagnostic_export_def op_err_def exit_2 split: sum.splits option.splits if_splits)

lemma resolve_writes:
  "jobs_resolve env p x = (res, out, y) \<Longrightarrow>
     (\<forall>k. k \<noteq> ce_file env (pa_db p) \<longrightarrow> cw_files y k = cw_files x k) \<and>
     (file_at env (pa_db p) x = None \<longrightarrow> y = x) \<and> (exit_code res = 2 \<longrightarrow> y = x)"
  by (auto simp: jobs_resolve_def resolve_on_def op_err_def exit_2 put_database_other
      split: sum.splits if_splits prod.splits option.splits)

text \<open>
  The files a command line may change: those its arguments name for writing. A backup replaces an existing
  destination only with \<open>--overwrite\<close>, and none does anything when the database is missing.
\<close>

definition may_write :: "cli_env \<Rightarrow> str list \<Rightarrow> cli_world \<Rightarrow> str set" where
  "may_write env args x =
     (case parse (tl (strip_store args)) of
        Inl _ \<Rightarrow> {}
      | Inr p \<Rightarrow>
          let c = hd (strip_store args); ps = pa_positional p in
          if file_at env (pa_db p) x = None then {}
          else if c = ''jobs'' then (if take 1 ps = [''resolve''] then {ce_file env (pa_db p)} else {})
          else if c = ''backup'' then
            (if ps \<noteq> [] \<and> (file_at env (hd ps) x = None \<or> pa_overwrite p) then {ce_file env (hd ps)} else {})
          else if c = ''diagnostic-export'' then (case pa_out p of None \<Rightarrow> {} | Some path \<Rightarrow> {ce_file env path})
          else {})"

lemma dispatch_writes:
  assumes "sv_writer s = Some c" and "dispatch env args cmd sub p s x = (res, out, y)"
  shows "y = x \<and> (exit_code res = 2 \<longrightarrow> y = x) \<or>
    exit_code res \<noteq> 2 \<and>
      (cmd = ''backup'' \<and> (\<exists>dest d. sub = Some dest \<and> y = put_file env dest d x \<and>
         (file_at env dest x = None \<or> pa_overwrite p)) \<or>
       cmd = ''diagnostic-export'' \<and> (\<exists>path d. pa_out p = Some path \<and> y = put_file env path d x))"
  using assms(2) backup_writes [OF assms(1), of env p _ x res out y] export_writes [of env p s x res out y]
  by (auto simp: dispatch_def Let_def split: if_splits option.splits)

text \<open>
  C33: whatever its arguments and whatever the engine answers, a command changes no file but the
  one it is told to write: \<open>jobs resolve\<close> the database, \<open>backup\<close> its destination, an existing one only with
  \<open>--overwrite\<close>, and \<open>diagnostic-export\<close> the file of \<open>--out\<close>. So the database itself is left alone by every
  other command, unless the destination or the export names it. When the database is missing nothing is created, and a
  usage error touches no file.
\<close>

theorem cli_leaves_database:
  assumes "\<And>k f. cw_files x k = Some (Database f) \<Longrightarrow> disk_ok (Some f)" and "run_cli env args x = (res, out, y)"
  shows "(\<forall>k. k \<notin> may_write env args x \<longrightarrow> cw_files y k = cw_files x k) \<and> (exit_code res = 2 \<longrightarrow> y = x)"
proof (cases "args = [] \<or> hd args = ''--help'' \<or> hd args = ''help''")
  case True
  then show ?thesis using assms(2) by (auto simp: run_cli_def)
next
  case False
  then have run: "run_command env (strip_store args) x = (res, out, y)"
    using assms(2) by (auto simp: run_cli_def)
  show ?thesis
  proof (cases "parse (tl (strip_store args))")
    case (Inl e)
    then show ?thesis using run by (auto simp: run_command_def)
  next
    case (Inr p)
    let ?c = "hd (strip_store args)"
    let ?sub = "case pa_positional p of [] \<Rightarrow> None | q # _ \<Rightarrow> Some q"
    consider (missing) "file_at env (pa_db p) x = None" | (resolve) "(?c, ?sub) = (''jobs'', Some ''resolve'')" "file_at env (pa_db p) x \<noteq> None"
      | (inspect) f where "(?c, ?sub) \<noteq> (''jobs'', Some ''resolve'')" "file_at env (pa_db p) x = Some f"
      by blast
    then show ?thesis
    proof cases
      case missing
      then have "y = x"
        using run Inr resolve_writes [of env p x res out y] by (auto simp: run_command_def Let_def split: if_splits)
      then show ?thesis by simp
    next
      case resolve
      have "take 1 (pa_positional p) = [''resolve'']" using resolve(1) by (auto split: list.splits)
      then have "may_write env args x = {ce_file env (pa_db p)}"
        using Inr resolve by (auto simp: may_write_def Let_def)
      moreover have "jobs_resolve env p x = (res, out, y)"
        using run Inr resolve(1) by (auto simp: run_command_def Let_def known_command_def split: if_splits)
      ultimately show ?thesis using resolve_writes by simp
    next
      case inspect
      show ?thesis
      proof (cases "y = x")
        case False
        then obtain g s where s: "database (Some f) = Some g" "store_open_existing (ce_engine env) (pa_db p) (Some g) = Inr s"
          "dispatch env (strip_store args) ?c ?sub p s x = (res, out, y)"
          using run Inr inspect by (auto simp: run_command_def Let_def split: if_splits sum.splits)
        have "disk_ok (Some g)"
          using assms(1) [of "ce_file env (pa_db p)" g] s(1) inspect(2) by (simp add: file_at_def database_Some)
        then obtain c where "sv_writer s = Some c"
          using builder_open_existing_step(3) [OF _ s(2) [unfolded store_open_existing_def]] by blast
        from dispatch_writes [OF this s(3)] show ?thesis
          using False Inr inspect(2) by (auto simp: may_write_def Let_def neq_Nil_conv split: list.splits)
      qed simp
    qed
  qed
qed

lemma sample_world_ok: "cw_files sample_world k = Some (Database f) \<Longrightarrow> disk_ok (Some f)"
  using projection_disk_ok(1) by (simp add: sample_world_def split: if_splits)

theorem cli_leaves_database_witness:
  "let args = [''backup'', ''copy'', ''--db'', ''db'']; y = snd (snd (run_cli sample_env args sample_world))
   in may_write sample_env args sample_world = {''copy''} \<and> cw_files y ''db'' = cw_files sample_world ''db''"
proof -
  let ?args = "[''backup'', ''copy'', ''--db'', ''db'']"
  obtain res out y where run: "run_cli sample_env ?args sample_world = (res, out, y)" by (metis prod_cases3)
  have "may_write sample_env ?args sample_world = {''copy''}"
    by (simp add: may_write_def strip_store_def parse_def starts_with_def set_flag_def flag_value_def no_flags_def
        file_at_def sample_env_def sample_world_def Let_def)
  then show ?thesis
    using cli_leaves_database [OF sample_world_ok run] run by simp
qed

text \<open>
  \<open>backup --overwrite\<close> does not notice that its destination is the database itself: it removes the
  file before it opens the destination, so when the opening fails the database is gone.
\<close>

theorem cli_backup_onto_itself:
  assumes "file_at env path x = Some (Database f)" and "disk_ok (Some f)" and "migrated (Some f)"
    and "opens_files (ce_engine env)" and "\<not> starts_with ''--'' dest" and "ce_file env dest = ce_file env path"
    and "bk_remove (ce_copier env) = None" and "bk_open (ce_copier env) = Some msg"
  shows "run_cli env [''backup'', dest, ''--overwrite'', ''--db'', path] x
    = (Inl (op_err env (Error_Storage (Sqlite (SqliteText msg)))), [], put_file env path None x)"
proof -
  let ?s = "built_store (builder_new path) \<lparr>cn_access = ReadOnly, cn_pragmas = base_pragmas\<rparr>"
  let ?p = "no_flags\<lparr>pa_positional := [dest], pa_overwrite := True, pa_db := path\<rparr>"
  have parse: "parse [dest, ''--overwrite'', ''--db'', path] = Inr ?p"
    using assms(5) not_a_flag [OF assms(5)]
    by (simp add: parse_def starts_with_def set_flag_def flag_value_def no_flags_def)
  have same: "file_at env dest x = Some (Database f)" using assms(1,6) by (simp add: file_at_def)
  have db: "database (file_at env path x) = Some f" using assms(1) by (simp add: database_def)
  have "store_backup (ce_engine env) (ce_copier env) dest True ?s (Some f) (Some (Database f))
      = (Inl (Error_Storage (Sqlite (SqliteText msg))), ?s, Some f, None)"
    using assms(7,8) by (simp add: store_backup_def store_connection_def built_store_def backup_def)
  moreover have "put_database env path (Some f) x = x" using put_database_same [of env path x] db by simp
  moreover have "put_file env dest None x = put_file env path None x" by (simp add: put_file_def assms(6))
  ultimately have "cmd_backup env ?p dest ?s x
      = (Inl (op_err env (Error_Storage (Sqlite (SqliteText msg)))), [], put_file env path None x)"
    using db same by (simp add: cmd_backup_def no_flags_def)
  then show ?thesis
    using parse store_opens_existing [OF assms(4,2,3), of path] assms(1) db
    by (simp add: run_cli_def strip_store_def run_command_def known_command_def dispatch_def Let_def no_flags_def)
qed

end
