(* ===== verification/Node.thy ===== *)
theory Node
  imports Facade DebugText
begin

text \<open>
  The bindings for JavaScript (\<open>minisqlite-node/src/lib.rs\<close>): objects whose identifiers are
  hexadecimal texts, the batch built from one, a handle that can be closed, and errors as a code
  and a message. The generated conversions between JavaScript values and these records are not
  part of the repository; \<open>i64\<close> and \<open>u32\<close> fields arrive at their width.
\<close>

section \<open>Errors\<close>

record JsError =
  je_code :: str
  je_message :: str

definition js_err :: "str \<Rightarrow> str \<Rightarrow> JsError" where
  "js_err code message = \<lparr>je_code = code, je_message = message\<rparr>"

fun map_error :: "driver_texts \<Rightarrow> Error \<Rightarrow> JsError" where
  "map_error drv (Error_Storage s) = js_err ''Storage'' (show_storage_error drv s)"
| "map_error drv (Error_Validation v) = js_err ''Validation'' (show_validation_error v)"
| "map_error drv (Error_Conflict c) = js_err ''Conflict'' (show_conflict c)"

text \<open>The text of an unknown outcome carries the identifier to recover it by.\<close>

definition unknown_text :: "str \<Rightarrow> Id \<Rightarrow> str \<Rightarrow> str" where
  "unknown_text head i storage_error = head @ ''='' @ to_hex i @ '' ('' @ storage_error @ '')''"

fun map_commit_error :: "driver_texts \<Rightarrow> CommitError \<Rightarrow> JsError" where
  "map_commit_error drv (Commit_Conflict c) = js_err ''Conflict'' (show_conflict c)"
| "map_commit_error drv (Commit_Validation v) = js_err ''Validation'' (show_validation_error v)"
| "map_commit_error drv DuplicateIdWithDifferentContent =
     js_err ''DuplicateIdWithDifferentContent'' ''transaction id reused with different content''"
| "map_commit_error drv (Commit_Indeterminate i) =
     js_err ''CommitIndeterminate''
       (unknown_text ''commit outcome indeterminate; recoverTransaction to verify; transactionId''
          (ic_transaction_id i) (ic_storage_error i))"
| "map_commit_error drv (Commit_Storage s) = js_err ''Storage'' (show_storage_error drv s)"

fun map_claim_error :: "driver_texts \<Rightarrow> ClaimError \<Rightarrow> JsError" where
  "map_claim_error drv (Claim_Indeterminate i) =
     js_err ''ClaimIndeterminate''
       (unknown_text ''claim outcome indeterminate; recoverClaim to verify; transactionId''
          (ix_transaction_id i) (ix_storage_error i))"
| "map_claim_error drv (Claim_Validation v) = js_err ''Validation'' (show_validation_error v)"
| "map_claim_error drv (Claim_Conflict c) = js_err ''Conflict'' (show_conflict c)"
| "map_claim_error drv (Claim_Storage s) = js_err ''Storage'' (show_storage_error drv s)"

fun map_lease_error :: "driver_texts \<Rightarrow> LeaseError \<Rightarrow> JsError" where
  "map_lease_error drv (Lease_Conflict c) = js_err ''LeaseConflict'' (show_lease_conflict c)"
| "map_lease_error drv (Lease_Indeterminate i) =
     js_err ''LeaseIndeterminate''
       (unknown_text ''lease extension outcome indeterminate; read the job to verify; jobId''
          (il_job_id i) (il_storage_error i))"
| "map_lease_error drv (Lease_Storage s) = js_err ''Storage'' (show_storage_error drv s)"

fun map_recovery_error :: "driver_texts \<Rightarrow> RecoveryError \<Rightarrow> JsError" where
  "map_recovery_error drv (Recovery_Storage s) = js_err ''Storage'' (show_storage_error drv s)"

definition node_parse_id :: "str \<Rightarrow> str \<Rightarrow> JsError + Id" where
  "node_parse_id field raw =
     map_err (\<lambda>_. js_err ''InvalidId'' (field @ '': invalid id '' @ debug_str raw)) (from_hex raw)"

definition node_new_id :: "driver_texts \<Rightarrow> draw \<Rightarrow> JsError + str" where
  "node_new_id drv d = map_sum (map_error drv) to_hex (id_new d)"

section \<open>Inputs\<close>

record ExpectedStreamVersionInput =
  xi_stream_id :: str
  xi_version :: i64

record EventInput =
  ei_event_id :: "str option"
  ei_stream_id :: str
  ei_event_type :: str
  ei_occurred_at_ms :: i64
  ei_payload :: "bytes option"

record ProjectionPutInput =
  ui_key :: bytes
  ui_value :: bytes

record ProjectionPatchInput =
  qi_projection :: str
  qi_expected_version :: i64
  qi_puts :: "ProjectionPutInput list option"
  qi_deletes :: "bytes list option"

record JobSpecInput =
  si_job_id :: "str option"
  si_queue :: str
  si_partition_key :: str
  si_payload :: bytes
  si_effect_mode :: "str option"
  si_idempotency_key :: "str option"
  si_not_before_ms :: "i64 option"
  si_max_attempts :: "u32 option"

record JobAckInput =
  ki_job_id :: str
  ki_lease_token :: str
  ki_result_digest :: "bytes option"

record CommitBatchInput =
  bi_transaction_id :: "str option"
  bi_committed_at_ms :: i64
  bi_expected_stream_versions :: "ExpectedStreamVersionInput list option"
  bi_events :: "EventInput list option"
  bi_projection_patches :: "ProjectionPatchInput list option"
  bi_enqueue_jobs :: "JobSpecInput list option"
  bi_ack_jobs :: "JobAckInput list option"

record ClaimRequestInput =
  ri_queue :: str
  ri_worker_id :: str
  ri_now_ms :: i64
  ri_lease_ms :: i64
  ri_limit :: u32

text \<open>\<open>unwrap_or_default()\<close> of an optional list\<close>

definition listed :: "'a list option \<Rightarrow> 'a list" where
  "listed v = (case v of None \<Rightarrow> [] | Some xs \<Rightarrow> xs)"

section \<open>The batch of an input\<close>

text \<open>
  An omitted identifier is drawn from the generator. The second component of the state is the
  number of draws made so far.
\<close>

definition supplied_id ::
    "driver_texts \<Rightarrow> entropy \<Rightarrow> str \<Rightarrow> str option \<Rightarrow> nat \<Rightarrow> JsError + (Id \<times> nat)" where
  "supplied_id drv ent field given n =
     (case given of
        Some raw \<Rightarrow> and_then (node_parse_id field raw) (\<lambda>i. Inr (i, n))
      | None \<Rightarrow> and_then (map_err (map_error drv) (id_new (ent n))) (\<lambda>i. Inr (i, Suc n)))"

definition add_expected :: "ExpectedStreamVersionInput \<Rightarrow> CommitBatch \<Rightarrow> CommitBatch" where
  "add_expected x b = expect_stream_version b (xi_stream_id x) (i64_as_u64 (xi_version x))"

definition add_event ::
    "driver_texts \<Rightarrow> entropy \<Rightarrow> EventInput \<Rightarrow> CommitBatch \<times> nat \<Rightarrow> JsError + (CommitBatch \<times> nat)" where
  "add_event drv ent event = (\<lambda>(b, n).
     and_then (supplied_id drv ent ''eventId'' (ei_event_id event) n) (\<lambda>(event_id, n).
     Inr (append_event b (with_json_payload event_id (ei_stream_id event) (ei_event_type event)
       (ei_occurred_at_ms event) (listed (ei_payload event))), n)))"

definition patch_of_input :: "ProjectionPatchInput \<Rightarrow> ProjectionPatch" where
  "patch_of_input patch =
     (let p = patch_new (qi_projection patch) (i64_as_u64 (qi_expected_version patch));
          p = fold (\<lambda>put p. patch_put p (ui_key put) (ui_value put)) (listed (qi_puts patch)) p
      in fold (\<lambda>key p. patch_delete p key) (listed (qi_deletes patch)) p)"

definition spec_of_input :: "Id \<Rightarrow> JobSpecInput \<Rightarrow> JsError + JobSpec" where
  "spec_of_input job_id job =
     (let queue = si_queue job; partition = si_partition_key job; payload = si_payload job in
      and_then
        (case si_effect_mode job of
           None \<Rightarrow> Inr (reconcilable job_id queue partition payload)
         | Some mode \<Rightarrow>
             if mode = ''reconcilable'' then Inr (reconcilable job_id queue partition payload)
             else if mode = ''idempotent'' then
               Inr (case si_idempotency_key job of
                      Some key \<Rightarrow> idempotent job_id queue partition payload key
                    | None \<Rightarrow> intrinsically_idempotent job_id queue partition payload)
             else Inl (js_err ''Validation'' (''unknown effect mode '' @ debug_str mode)))
        (\<lambda>spec.
           let spec = (case si_not_before_ms job of None \<Rightarrow> spec | Some ms \<Rightarrow> with_not_before_ms spec ms)
           in Inr (case si_max_attempts job of None \<Rightarrow> spec | Some k \<Rightarrow> with_max_attempts spec k)))"

definition add_job ::
    "driver_texts \<Rightarrow> entropy \<Rightarrow> JobSpecInput \<Rightarrow> CommitBatch \<times> nat \<Rightarrow> JsError + (CommitBatch \<times> nat)" where
  "add_job drv ent job = (\<lambda>(b, n).
     and_then (supplied_id drv ent ''jobId'' (si_job_id job) n) (\<lambda>(job_id, n).
     and_then (spec_of_input job_id job) (\<lambda>spec. Inr (enqueue_job b spec, n))))"

definition add_ack :: "JobAckInput \<Rightarrow> CommitBatch \<Rightarrow> JsError + CommitBatch" where
  "add_ack ack b =
     and_then (node_parse_id ''jobId'' (ki_job_id ack)) (\<lambda>job_id.
     and_then (node_parse_id ''leaseToken'' (ki_lease_token ack)) (\<lambda>token.
     Inr (acknowledge_job b job_id token (ki_result_digest ack))))"

definition build_batch :: "driver_texts \<Rightarrow> entropy \<Rightarrow> CommitBatchInput \<Rightarrow> JsError + CommitBatch" where
  "build_batch drv ent input =
     and_then (supplied_id drv ent ''transactionId'' (bi_transaction_id input) 0) (\<lambda>(transaction_id, n).
     let b = fold add_expected (listed (bi_expected_stream_versions input))
               (batch_new transaction_id (bi_committed_at_ms input)) in
     and_then (fold_res (add_event drv ent) (listed (bi_events input)) (b, n)) (\<lambda>(b, n).
     let b = fold (\<lambda>patch b. apply_projection_patch b (patch_of_input patch))
               (listed (bi_projection_patches input)) b in
     and_then (fold_res (add_job drv ent) (listed (bi_enqueue_jobs input)) (b, n)) (\<lambda>(b, n).
     fold_res add_ack (listed (bi_ack_jobs input)) b)))"

section \<open>Outputs\<close>

record CommitReceiptOutput =
  cro_transaction_id :: str
  cro_transaction_sequence :: i64
  cro_committed_at_ms :: i64

definition receipt_output :: "CommitReceipt \<Rightarrow> CommitReceiptOutput" where
  "receipt_output r =
     \<lparr>cro_transaction_id = to_hex (rc_transaction_id r),
      cro_transaction_sequence = u64_as_i64 (rc_transaction_sequence r),
      cro_committed_at_ms = rc_committed_at_ms r\<rparr>"

record ClaimedJobOutput =
  cjo_job_id :: str
  cjo_queue :: str
  cjo_partition_key :: str
  cjo_payload :: bytes
  cjo_worker_id :: str
  cjo_lease_token :: str
  cjo_attempt :: u32
  cjo_lease_expires_at_ms :: i64
  cjo_idempotency_key :: "str option"

definition claimed_job_output :: "ClaimedJob \<Rightarrow> ClaimedJobOutput" where
  "claimed_job_output job =
     \<lparr>cjo_job_id = to_hex (cj_job_id job), cjo_queue = cj_queue job,
      cjo_partition_key = cj_partition_key job, cjo_payload = cj_payload job,
      cjo_worker_id = cj_worker_id job, cjo_lease_token = to_hex (cj_lease_token job),
      cjo_attempt = cj_attempt job, cjo_lease_expires_at_ms = cj_lease_expires_at_ms job,
      cjo_idempotency_key = cj_idempotency_key job\<rparr>"

record ClaimOutcomeOutput =
  coo_kind :: str
  coo_transaction_id :: "str option"
  coo_jobs :: "ClaimedJobOutput list"
  coo_stale_jobs :: "str list"

definition outcome_bare :: "str \<Rightarrow> ClaimOutcomeOutput" where
  "outcome_bare kind =
     \<lparr>coo_kind = kind, coo_transaction_id = None, coo_jobs = [], coo_stale_jobs = []\<rparr>"

definition outcome_maintenance :: "MaintenanceReceipt \<Rightarrow> ClaimOutcomeOutput" where
  "outcome_maintenance receipt =
     (outcome_bare ''maintenanceCommitted'')\<lparr>coo_transaction_id := Some (to_hex (mr_transaction_id receipt))\<rparr>"

definition outcome_committed :: "CommittedClaims \<Rightarrow> ClaimOutcomeOutput" where
  "outcome_committed claims =
     \<lparr>coo_kind = ''committed'', coo_transaction_id = Some (to_hex (cc_transaction_id claims)),
      coo_jobs = map claimed_job_output (cc_jobs claims),
      coo_stale_jobs = map to_hex (cc_stale_jobs claims)\<rparr>"

record LeaseExtensionReceiptOutput =
  leo_job_id :: str
  leo_attempt :: u32
  leo_lease_expires_at_ms :: i64

record TransactionRecoveryOutput =
  tro_kind :: str
  tro_receipt :: "CommitReceiptOutput option"

record JobInfoOutput =
  jio_job_id :: str
  jio_queue :: str
  jio_partition_key :: str
  jio_state :: str
  jio_attempt :: u32
  jio_lease_expires_at_ms :: "i64 option"
  jio_worker_id :: "str option"
  jio_error_summary :: "str option"

fun node_state_name :: "JobState \<Rightarrow> str" where
  "node_state_name Pending = ''pending''"
| "node_state_name Leased = ''leased''"
| "node_state_name RetryWait = ''retryWait''"
| "node_state_name Uncertain = ''uncertain''"
| "node_state_name Succeeded = ''succeeded''"
| "node_state_name Dead = ''dead''"
| "node_state_name Cancelled = ''cancelled''"

definition parse_job_state :: "str \<Rightarrow> JsError + JobState" where
  "parse_job_state state =
     (if state = ''pending'' then Inr Pending
      else if state = ''leased'' then Inr Leased
      else if state = ''retryWait'' then Inr RetryWait
      else if state = ''uncertain'' then Inr Uncertain
      else if state = ''succeeded'' then Inr Succeeded
      else if state = ''dead'' then Inr Dead
      else if state = ''cancelled'' then Inr Cancelled
      else Inl (js_err ''Validation'' (''unknown job state '' @ debug_str state)))"

definition job_info_output :: "JobInfo \<Rightarrow> JobInfoOutput" where
  "job_info_output info =
     \<lparr>jio_job_id = to_hex (ji_job_id info), jio_queue = js_queue (ji_spec info),
      jio_partition_key = js_partition_key (ji_spec info), jio_state = node_state_name (ji_state info),
      jio_attempt = ji_attempt info, jio_lease_expires_at_ms = ji_lease_expires_at_ms info,
      jio_worker_id = ji_worker_id info, jio_error_summary = ji_error_summary info\<rparr>"

record PersistedEventOutput =
  peo_transaction_id :: str
  peo_global_sequence :: i64
  peo_stream_version :: i64
  peo_event_id :: str
  peo_stream_id :: str
  peo_event_type :: str
  peo_occurred_at_ms :: i64
  peo_payload :: bytes

definition persisted_event_output :: "PersistedEvent \<Rightarrow> PersistedEventOutput" where
  "persisted_event_output e =
     \<lparr>peo_transaction_id = to_hex (pe_transaction_id e),
      peo_global_sequence = u64_as_i64 (pe_global_sequence e),
      peo_stream_version = u64_as_i64 (pe_stream_version e),
      peo_event_id = to_hex (ev_event_id (pe_event e)), peo_stream_id = ev_stream_id (pe_event e),
      peo_event_type = ev_event_type (pe_event e), peo_occurred_at_ms = ev_occurred_at_ms (pe_event e),
      peo_payload = ev_payload (pe_event e)\<rparr>"

section \<open>The handle\<close>

record NodeStore =
  ns_inner :: "Store option"

definition node_closed :: JsError where
  "node_closed = js_err ''Closed'' ''store is closed''"

definition node_open :: "engine \<Rightarrow> driver_texts \<Rightarrow> str \<Rightarrow> str option \<Rightarrow> disk \<Rightarrow> (JsError + NodeStore) \<times> disk" where
  "node_open en drv path durability w =
     (case (case durability of
          None \<Rightarrow> Inr Strict
        | Some d \<Rightarrow>
            if d = ''strict'' then Inr Strict
            else if d = ''relaxed'' then Inr Relaxed
            else Inl (js_err ''Validation'' (''unknown durability '' @ debug_str d))) of
        Inl e \<Rightarrow> (Inl e, w)
      | Inr durability \<Rightarrow>
        (case builder_open en (with_durability durability (builder_new path)) w of
           (r, w) \<Rightarrow> (map_sum (map_error drv) (\<lambda>s. \<lparr>ns_inner = Some s\<rparr>) r, w)))"

definition node_close :: "NodeStore \<Rightarrow> NodeStore" where
  "node_close ns = ns\<lparr>ns_inner := None\<rparr>"

text \<open>\<open>self.store()?\<close>, then a call that reads, or one that may write.\<close>

definition ask_store ::
    "NodeStore \<Rightarrow> (Store \<Rightarrow> (JsError + 'a) \<times> Store) \<Rightarrow> (JsError + 'a) \<times> NodeStore" where
  "ask_store ns f =
     (case ns_inner ns of
        None \<Rightarrow> (Inl node_closed, ns)
      | Some s \<Rightarrow> (case f s of (r, s) \<Rightarrow> (r, ns\<lparr>ns_inner := Some s\<rparr>)))"

definition call_store ::
    "NodeStore \<Rightarrow> disk \<Rightarrow> (Store \<Rightarrow> disk \<Rightarrow> (JsError + 'a) \<times> Store \<times> disk) \<Rightarrow> (JsError + 'a) \<times> NodeStore \<times> disk" where
  "call_store ns w f =
     (case ns_inner ns of
        None \<Rightarrow> (Inl node_closed, ns, w)
      | Some s \<Rightarrow> (case f s w of (r, s, w) \<Rightarrow> (r, ns\<lparr>ns_inner := Some s\<rparr>, w)))"

definition answered :: "('e \<Rightarrow> JsError) \<Rightarrow> ('a \<Rightarrow> 'b) \<Rightarrow> ('e + 'a) \<times> 's \<Rightarrow> (JsError + 'b) \<times> 's" where
  "answered on_error on_result = apfst (map_sum on_error on_result)"

definition node_commit ::
    "engine \<Rightarrow> driver_texts \<Rightarrow> CommitBatchInput \<Rightarrow> NodeStore \<Rightarrow> disk
       \<Rightarrow> (JsError + CommitReceiptOutput) \<times> NodeStore \<times> disk" where
  "node_commit en drv input ns w =
     (case build_batch drv (en_entropy en) input of
        Inl e \<Rightarrow> (Inl e, ns, w)
      | Inr batch \<Rightarrow>
          call_store ns w (\<lambda>s w. answered (map_commit_error drv) receipt_output (store_commit en batch s w)))"

fun claim_outcome_output :: "ClaimOutcome \<Rightarrow> ClaimOutcomeOutput" where
  "claim_outcome_output Noop = outcome_bare ''noop''"
| "claim_outcome_output (MaintenanceCommitted receipt) = outcome_maintenance receipt"
| "claim_outcome_output (Committed claims) = outcome_committed claims"

definition node_claim_jobs ::
    "engine \<Rightarrow> driver_texts \<Rightarrow> ClaimRequestInput \<Rightarrow> NodeStore \<Rightarrow> disk
       \<Rightarrow> (JsError + ClaimOutcomeOutput) \<times> NodeStore \<times> disk" where
  "node_claim_jobs en drv request ns w =
     call_store ns w (\<lambda>s w. answered (map_claim_error drv) claim_outcome_output
       (store_claim_jobs en
          \<lparr>cr_queue = ri_queue request, cr_worker_id = ri_worker_id request, cr_now_ms = ri_now_ms request,
           cr_lease_ms = ri_lease_ms request, cr_limit = unat (ri_limit request)\<rparr> s w))"

definition extension_output :: "LeaseExtensionReceipt \<Rightarrow> LeaseExtensionReceiptOutput" where
  "extension_output receipt =
     \<lparr>leo_job_id = to_hex (ler_job_id receipt), leo_attempt = ler_attempt receipt,
      leo_lease_expires_at_ms = ler_lease_expires_at_ms receipt\<rparr>"

definition node_extend_lease ::
    "engine \<Rightarrow> driver_texts \<Rightarrow> str \<Rightarrow> str \<Rightarrow> i64 \<Rightarrow> i64 \<Rightarrow> NodeStore \<Rightarrow> disk
       \<Rightarrow> (JsError + LeaseExtensionReceiptOutput) \<times> NodeStore \<times> disk" where
  "node_extend_lease en drv job_id lease_token new_expiry_ms now_ms ns w =
     call_store ns w (\<lambda>s w.
       case and_then (node_parse_id ''jobId'' job_id) (\<lambda>i.
            and_then (node_parse_id ''leaseToken'' lease_token) (\<lambda>token. Inr (i, token))) of
         Inl e \<Rightarrow> (Inl e, s, w)
       | Inr (i, token) \<Rightarrow>
           answered (map_lease_error drv) extension_output (store_extend_lease en i token new_expiry_ms now_ms s w))"

fun claim_recovery_output :: "ClaimRecovery \<Rightarrow> ClaimOutcomeOutput" where
  "claim_recovery_output (Recovered_Committed claims) = outcome_committed claims"
| "claim_recovery_output (Recovered_MaintenanceCommitted receipt) = outcome_maintenance receipt"
| "claim_recovery_output Recovered_Absent = outcome_bare ''absent''"

definition node_recover_claim ::
    "engine \<Rightarrow> driver_texts \<Rightarrow> str \<Rightarrow> i64 \<Rightarrow> NodeStore \<Rightarrow> disk
       \<Rightarrow> (JsError + ClaimOutcomeOutput) \<times> NodeStore \<times> disk" where
  "node_recover_claim en drv transaction_id now_ms ns w =
     call_store ns w (\<lambda>s w.
       case node_parse_id ''transactionId'' transaction_id of
         Inl e \<Rightarrow> (Inl e, s, w)
       | Inr i \<Rightarrow> answered (map_recovery_error drv) claim_recovery_output (store_recover_claim en i now_ms s w))"

fun recovery_output :: "TransactionRecovery \<Rightarrow> TransactionRecoveryOutput" where
  "recovery_output (Tx_Committed receipt) =
     \<lparr>tro_kind = ''committed'', tro_receipt = Some (receipt_output receipt)\<rparr>"
| "recovery_output Tx_Absent = \<lparr>tro_kind = ''absent'', tro_receipt = None\<rparr>"

definition node_recover_transaction ::
    "engine \<Rightarrow> driver_texts \<Rightarrow> str \<Rightarrow> NodeStore \<Rightarrow> disk
       \<Rightarrow> (JsError + TransactionRecoveryOutput) \<times> NodeStore \<times> disk" where
  "node_recover_transaction en drv transaction_id ns w =
     call_store ns w (\<lambda>s w.
       case node_parse_id ''transactionId'' transaction_id of
         Inl e \<Rightarrow> (Inl e, s, w)
       | Inr i \<Rightarrow> answered (map_recovery_error drv) recovery_output (store_recover_transaction en i s w))"

text \<open>The reads; \<open>jobs\<close> looks at its state before it looks at the handle.\<close>

definition node_jobs ::
    "engine \<Rightarrow> driver_texts \<Rightarrow> str option \<Rightarrow> str option \<Rightarrow> u32 \<Rightarrow> NodeStore \<Rightarrow> disk
       \<Rightarrow> (JsError + JobInfoOutput list) \<times> NodeStore" where
  "node_jobs en drv queue state limit ns w =
     (case (case state of None \<Rightarrow> Inr None | Some raw \<Rightarrow> map_sum id Some (parse_job_state raw)) of
        Inl e \<Rightarrow> (Inl e, ns)
      | Inr state \<Rightarrow>
          ask_store ns (\<lambda>s. answered (map_error drv) (map job_info_output)
            (store_jobs en queue state (unat limit) w s)))"

definition node_projection_get ::
    "engine \<Rightarrow> driver_texts \<Rightarrow> str \<Rightarrow> bytes \<Rightarrow> NodeStore \<Rightarrow> disk \<Rightarrow> (JsError + bytes option) \<times> NodeStore" where
  "node_projection_get en drv projection key ns w =
     ask_store ns (\<lambda>s. answered (map_error drv) id (store_projection_get en projection key w s))"

definition node_projection_version ::
    "engine \<Rightarrow> driver_texts \<Rightarrow> str \<Rightarrow> NodeStore \<Rightarrow> disk \<Rightarrow> (JsError + i64) \<times> NodeStore" where
  "node_projection_version en drv projection ns w =
     ask_store ns (\<lambda>s. answered (map_error drv) u64_as_i64 (store_projection_version en projection w s))"

definition node_stream_version ::
    "engine \<Rightarrow> driver_texts \<Rightarrow> str \<Rightarrow> NodeStore \<Rightarrow> disk \<Rightarrow> (JsError + i64) \<times> NodeStore" where
  "node_stream_version en drv stream_id ns w =
     ask_store ns (\<lambda>s. answered (map_error drv) u64_as_i64 (store_stream_version en stream_id w s))"

definition node_events_after ::
    "engine \<Rightarrow> driver_texts \<Rightarrow> i64 \<Rightarrow> u32 \<Rightarrow> NodeStore \<Rightarrow> disk
       \<Rightarrow> (JsError + PersistedEventOutput list) \<times> NodeStore" where
  "node_events_after en drv after limit ns w =
     ask_store ns (\<lambda>s. answered (map_error drv) (map persisted_event_output)
       (store_events_after en (i64_as_u64 after) (unat limit) w s))"

end
