(* ===== verification/NodeProperties.thy ===== *)
theory NodeProperties
  imports Node SystemGuarantees
begin

text \<open>
  What a JavaScript client gets: the batch that is built from an object, recovery by the
  identifier in the text of an unknown outcome, and the events it committed read back.
\<close>

section \<open>The batch of an input\<close>

lemma fold_res_Inl: "fold_res f xs s = Inl e \<Longrightarrow> \<exists>x s'. f x s' = Inl e"
  by (induction xs arbitrary: s) (auto simp: and_then_Inl_iff)

lemma fold_res_cong: "(\<And>x s. x \<in> set xs \<Longrightarrow> f x s = g x s) \<Longrightarrow> fold_res f xs s = fold_res g xs s"
proof (induction xs arbitrary: s)
  case (Cons x xs)
  then show ?case by (simp add: and_then_def split: sum.split)
qed simp

text \<open>The errors of building a batch.\<close>

lemma map_error_code: "je_code (map_error drv e) \<noteq> ''CommitIndeterminate''"
  by (cases e) (simp_all add: js_err_def)

lemma node_parse_id_code: "node_parse_id field raw = Inl e \<Longrightarrow> je_code e \<noteq> ''CommitIndeterminate''"
  by (auto simp: node_parse_id_def js_err_def map_err_Inl_iff)

lemma supplied_id_code: "supplied_id drv ent field given n = Inl e \<Longrightarrow> je_code e \<noteq> ''CommitIndeterminate''"
  using map_error_code node_parse_id_code
  by (auto simp: supplied_id_def and_then_Inl_iff map_err_Inl_iff split: option.splits)

lemma spec_of_input_code: "spec_of_input i job = Inl e \<Longrightarrow> je_code e \<noteq> ''CommitIndeterminate''"
  by (auto simp: spec_of_input_def Let_def and_then_Inl_iff js_err_def split: option.splits if_splits)

lemma build_batch_code: "build_batch drv ent input = Inl e \<Longrightarrow> je_code e \<noteq> ''CommitIndeterminate''"
  by (auto simp: build_batch_def Let_def and_then_Inl_iff add_event_def add_job_def add_ack_def
      dest!: fold_res_Inl dest: supplied_id_code spec_of_input_code node_parse_id_code)

text \<open>The event of an input, up to the identifier when it is omitted.\<close>

definition event_of_input :: "EventInput \<Rightarrow> Event \<Rightarrow> bool" where
  "event_of_input x e \<longleftrightarrow>
     e = with_json_payload (ev_event_id e) (ei_stream_id x) (ei_event_type x) (ei_occurred_at_ms x)
           (listed (ei_payload x)) \<and>
     (\<forall>raw. ei_event_id x = Some raw \<longrightarrow> from_hex raw = Inr (ev_event_id e))"

lemma supplied_id_Some: "supplied_id drv ent field (Some raw) n = Inr (i, n') \<longleftrightarrow> from_hex raw = Inr i \<and> n' = n"
  by (auto simp: supplied_id_def node_parse_id_def and_then_Inr_iff)

lemma add_event_Inr: "add_event drv ent x (b, n) = Inr (b', n') \<longleftrightarrow>
   (\<exists>i. supplied_id drv ent ''eventId'' (ei_event_id x) n = Inr (i, n') \<and>
      b' = append_event b (with_json_payload i (ei_stream_id x) (ei_event_type x) (ei_occurred_at_ms x)
        (listed (ei_payload x))))"
  by (auto simp: add_event_def and_then_Inr_iff)

lemma add_job_Inr: "add_job drv ent x (b, n) = Inr (b', n') \<longleftrightarrow>
   (\<exists>i spec. supplied_id drv ent ''jobId'' (si_job_id x) n = Inr (i, n') \<and> spec_of_input i x = Inr spec \<and>
      b' = enqueue_job b spec)"
  by (auto simp: add_job_def and_then_Inr_iff)

lemma add_ack_Inr: "add_ack x b = Inr b' \<longleftrightarrow>
   (\<exists>i t. node_parse_id ''jobId'' (ki_job_id x) = Inr i \<and> node_parse_id ''leaseToken'' (ki_lease_token x) = Inr t \<and>
      b' = acknowledge_job b i t (ki_result_digest x))"
  by (auto simp: add_ack_def and_then_Inr_iff)

lemma add_events:
  "fold_res (add_event drv ent) xs (b, n) = Inr (b', n') \<Longrightarrow>
   \<exists>es. b' = b\<lparr>cb_operations := cb_operations b @ map AppendEvent es\<rparr> \<and> list_all2 event_of_input xs es"
proof (induction xs arbitrary: b n)
  case (Cons x xs)
  then obtain i m where i: "supplied_id drv ent ''eventId'' (ei_event_id x) n = Inr (i, m)"
    and rest: "fold_res (add_event drv ent) xs (append_event b (with_json_payload i (ei_stream_id x) (ei_event_type x)
      (ei_occurred_at_ms x) (listed (ei_payload x))), m) = Inr (b', n')"
    by (auto simp: add_event_Inr and_then_Inr_iff)
  let ?e = "with_json_payload i (ei_stream_id x) (ei_event_type x) (ei_occurred_at_ms x) (listed (ei_payload x))"
  have "event_of_input x ?e"
    using i by (auto simp: event_of_input_def with_json_payload_def event_new_def supplied_id_Some)
  moreover obtain es where "b' = append_event b ?e\<lparr>cb_operations := cb_operations (append_event b ?e) @ map AppendEvent es\<rparr>"
    "list_all2 event_of_input xs es"
    using Cons.IH [OF rest] by blast
  ultimately show ?case
    by (intro exI [of _ "?e # es"]) (simp add: append_event_def push_operation_def)
qed simp

lemma add_jobs:
  "fold_res (add_job drv ent) xs (b, n) = Inr (b', n') \<Longrightarrow>
   \<exists>specs. b' = b\<lparr>cb_operations := cb_operations b @ map EnqueueJob specs\<rparr>"
proof (induction xs arbitrary: b n)
  case Nil
  then show ?case by (auto intro: exI [of _ "[]"])
next
  case (Cons x xs)
  then obtain spec m where "fold_res (add_job drv ent) xs (enqueue_job b spec, m) = Inr (b', n')"
    by (auto simp: add_job_Inr and_then_Inr_iff)
  from Cons.IH [OF this] obtain specs where
    "b' = enqueue_job b spec\<lparr>cb_operations := cb_operations (enqueue_job b spec) @ map EnqueueJob specs\<rparr>" by blast
  then show ?case
    by (intro exI [of _ "spec # specs"]) (simp add: enqueue_job_def push_operation_def)
qed

lemma add_acks:
  "fold_res add_ack xs b = Inr b' \<Longrightarrow> \<exists>acks. b' = b\<lparr>cb_operations := cb_operations b @ map AckJob acks\<rparr>"
proof (induction xs arbitrary: b)
  case Nil
  then show ?case by (auto intro: exI [of _ "[]"])
next
  case (Cons x xs)
  then obtain i t where "fold_res add_ack xs (acknowledge_job b i t (ki_result_digest x)) = Inr b'"
    by (auto simp: add_ack_Inr and_then_Inr_iff)
  from Cons.IH [OF this] obtain acks where
    "b' = acknowledge_job b i t (ki_result_digest x)
       \<lparr>cb_operations := cb_operations (acknowledge_job b i t (ki_result_digest x)) @ map AckJob acks\<rparr>" by blast
  then show ?case
    by (simp add: acknowledge_job_def push_operation_def) (metis list.simps(9))
qed

lemma add_patches:
  "fold (\<lambda>p b. apply_projection_patch b (f p)) ps b
     = b\<lparr>cb_operations := cb_operations b @ map (\<lambda>p. ProjectionPatch (f p)) ps\<rparr>"
  by (induction ps arbitrary: b) (simp_all add: apply_projection_patch_def push_operation_def)

lemma add_expecteds:
  "fold add_expected xs b
     = b\<lparr>cb_expected_stream_versions := cb_expected_stream_versions b @
         map (\<lambda>x. \<lparr>es_stream_id = xi_stream_id x, es_version = i64_as_u64 (xi_version x)\<rparr>) xs\<rparr>"
  by (induction xs arbitrary: b) (simp_all add: add_expected_def expect_stream_version_def)

lemma build_batch_Inr:
  assumes "build_batch drv ent input = Inr b"
  obtains es where "list_all2 event_of_input (listed (bi_events input)) es" "batch_events b = es"
    "cb_committed_at_ms b = bi_committed_at_ms input"
    "\<And>raw. bi_transaction_id input = Some raw \<Longrightarrow> from_hex raw = Inr (cb_transaction_id b)"
proof -
  obtain i n b1 m b2 k where
    i: "supplied_id drv ent ''transactionId'' (bi_transaction_id input) 0 = Inr (i, n)"
    and 1: "fold_res (add_event drv ent) (listed (bi_events input))
      (fold add_expected (listed (bi_expected_stream_versions input)) (batch_new i (bi_committed_at_ms input)), n) = Inr (b1, m)"
    and 2: "fold_res (add_job drv ent) (listed (bi_enqueue_jobs input))
      (fold (\<lambda>patch b. apply_projection_patch b (patch_of_input patch)) (listed (bi_projection_patches input)) b1, m) = Inr (b2, k)"
    and 3: "fold_res add_ack (listed (bi_ack_jobs input)) b2 = Inr b"
    using assms by (auto simp: build_batch_def Let_def and_then_Inr_iff)
  obtain es where es: "list_all2 event_of_input (listed (bi_events input)) es"
    "b1 = (fold add_expected (listed (bi_expected_stream_versions input)) (batch_new i (bi_committed_at_ms input)))
       \<lparr>cb_operations := map AppendEvent es\<rparr>"
    using add_events [OF 1] by (auto simp: add_expecteds batch_new_def)
  obtain specs acks where b: "cb_operations b = map AppendEvent es
      @ map (\<lambda>p. ProjectionPatch (patch_of_input p)) (listed (bi_projection_patches input)) @ map EnqueueJob specs @ map AckJob acks"
    "cb_committed_at_ms b = bi_committed_at_ms input" "cb_transaction_id b = i"
    using add_jobs [OF 2] add_acks [OF 3] es(2) by (auto simp: add_patches add_expecteds batch_new_def)
  have "concat (map operation_events (map AppendEvent es)) = es" by (induction es) simp_all
  moreover have "concat (map operation_events (map EnqueueJob specs)) = []" "concat (map operation_events (map AckJob acks)) = []"
    "concat (map operation_events (map (\<lambda>p. ProjectionPatch (patch_of_input p)) ps)) = []" for ps
    by (simp_all add: concat_eq_Nil_conv)
  ultimately have "batch_events b = es" by (simp add: batch_events_def b(1))
  then show ?thesis
    by (rule that [OF es(1) _ b(2)]) (use i b(3) in \<open>auto simp: supplied_id_Some\<close>)
qed

section \<open>Committing and recovering\<close>

lemma node_commit_cases:
  assumes "node_commit en drv input \<lparr>ns_inner = Some s\<rparr> w = (r, ns', w')"
  obtains (refused) e where "build_batch drv (en_entropy en) input = Inl e" "r = Inl e" "ns' = \<lparr>ns_inner = Some s\<rparr>" "w' = w"
  | (called) b out s' where "build_batch drv (en_entropy en) input = Inr b" "store_commit en b s w = (out, s', w')"
      "r = map_sum (map_commit_error drv) receipt_output out" "ns' = \<lparr>ns_inner = Some s'\<rparr>"
proof (cases "build_batch drv (en_entropy en) input")
  case (Inl e)
  then show ?thesis using refused assms by (simp add: node_commit_def)
next
  case (Inr b)
  obtain out s' v where "store_commit en b s w = (out, s', v)" by (metis prod_cases3)
  then show ?thesis
    using called [OF Inr] Inr assms by (simp add: node_commit_def call_store_def answered_def apfst_def)
qed

lemma map_commit_error_unknown:
  "je_code (map_commit_error drv e) = ''CommitIndeterminate'' \<longleftrightarrow> (\<exists>i. e = Commit_Indeterminate i)"
  by (cases e) (simp_all add: js_err_def)

lemma commit_names_transaction:
  assumes "migrated w" and "store_commit en b s w = (Inl (Commit_Indeterminate x), s', w')"
  shows "ic_transaction_id x = cb_transaction_id b"
proof -
  obtain io d' where "commit (sv_limits s) b io (store_of w) = (Inl (Commit_Indeterminate x), d')"
    by (rule commit_call.on_writer_cases [OF assms(1) assms(2) [unfolded store_commit_def]]) auto
  then show ?thesis by (cases rule: commit_outcomes) auto
qed

text \<open>
  C9: an unknown outcome can be recovered from the thrown error alone: the text contains an
  identifier, drawn or supplied, and \<open>recoverTransaction\<close> with it, as soon as the file can be
  opened, answers \<open>committed\<close> with the receipt exactly when the whole batch was applied, and
  \<open>absent\<close> exactly when nothing was.
\<close>

theorem node_unknown_recovered:
  assumes "disk_ok w" and "migrated w" and "handle_ok s"
    and "node_commit en drv input \<lparr>ns_inner = Some s\<rparr> w = (Inl e, ns', w')" and "je_code e = ''CommitIndeterminate''"
    and "en_open en' = None" and "en_statement en' = (\<lambda>_. None)"
  shows "\<exists>i reason out ns''.
    je_message e = ''commit outcome indeterminate; recoverTransaction to verify; transactionId='' @ to_hex i
      @ '' ('' @ reason @ '')'' \<and>
    node_recover_transaction en' drv' (to_hex i) ns' w' = (Inr out, ns'', w') \<and>
    (out = \<lparr>tro_kind = ''absent'', tro_receipt = None\<rparr> \<and> store_of w' = store_of w \<or>
     (\<exists>b n. build_batch drv (en_entropy en) input = Inr b \<and> write_batch b (store_of w) = Inr (n, store_of w') \<and>
        out = \<lparr>tro_kind = ''committed'', tro_receipt = Some \<lparr>cro_transaction_id = to_hex i,
          cro_transaction_sequence = n, cro_committed_at_ms = bi_committed_at_ms input\<rparr>\<rparr>))"
  using assms(4)
proof (cases rule: node_commit_cases)
  case (refused f)
  then show ?thesis using assms(5) build_batch_code [OF refused(1)] by simp
next
  case (called b out s')
  have store: "store_ok (store_of w)" using assms(1) by (simp add: disk_ok_file)
  obtain x where x: "out = Inl (Commit_Indeterminate x)" "e = map_commit_error drv (Commit_Indeterminate x)"
    using called(3) assms(5) map_commit_error_unknown by (cases out) auto
  note id = commit_names_transaction [OF assms(2) called(2) [unfolded x(1)]]
  obtain rec s'' where rec: "store_recover_transaction en' (cb_transaction_id b) s' w' = (Inr rec, s'', w')"
    and what: "case rec of Tx_Absent \<Rightarrow> store_of w' = store_of w
      | Tx_Committed rc \<Rightarrow> \<exists>n. write_batch b (store_of w) = Inr (n, store_of w') \<and>
          rc = \<lparr>rc_transaction_id = cb_transaction_id b, rc_transaction_sequence = i64_as_u64 n,
                rc_committed_at_ms = cb_committed_at_ms b\<rparr>"
    using unknown_recovered [OF assms(1) store assms(2,3) called(2) [unfolded x(1)] assms(6,7)] by blast
  have answer: "node_recover_transaction en' drv' (to_hex (cb_transaction_id b)) ns' w'
      = (Inr (recovery_output rec), \<lparr>ns_inner = Some s''\<rparr>, w')"
    using rec called(4) by (simp add: node_recover_transaction_def call_store_def node_parse_id_def from_hex_to_hex answered_def)
  have "recovery_output rec = \<lparr>tro_kind = ''absent'', tro_receipt = None\<rparr> \<and> store_of w' = store_of w \<or>
     (\<exists>n. write_batch b (store_of w) = Inr (n, store_of w') \<and>
        recovery_output rec = \<lparr>tro_kind = ''committed'', tro_receipt = Some \<lparr>cro_transaction_id = to_hex (cb_transaction_id b),
          cro_transaction_sequence = n, cro_committed_at_ms = bi_committed_at_ms input\<rparr>\<rparr>)"
  proof (cases rec)
    case Tx_Absent
    then show ?thesis using what by simp
  next
    case (Tx_Committed rc)
    then obtain n where n: "write_batch b (store_of w) = Inr (n, store_of w')"
      "rc = \<lparr>rc_transaction_id = cb_transaction_id b, rc_transaction_sequence = i64_as_u64 n,
             rc_committed_at_ms = cb_committed_at_ms b\<rparr>"
      using what by auto
    have "is_i64 n"
      using write_batch_InrD(2,9) [OF store n(1)] by (simp add: is_i64_def i64_min_def)
    moreover have "cb_committed_at_ms b = bi_committed_at_ms input"
      by (rule build_batch_Inr [OF called(1)])
    ultimately show ?thesis
      using n Tx_Committed by (simp add: receipt_output_def u64_as_i64_of_i64)
  qed
  with answer x id called(1) show ?thesis
    by (intro exI [of _ "cb_transaction_id b"] exI [of _ "ic_storage_error x"] exI [of _ "recovery_output rec"]
        exI [of _ "\<lparr>ns_inner = Some s''\<rparr>"]) (auto simp: js_err_def unknown_text_def)
qed

section \<open>Submitting again\<close>

text \<open>An input that leaves no identifier to the generator describes one batch.\<close>

definition ids_supplied :: "CommitBatchInput \<Rightarrow> bool" where
  "ids_supplied input \<longleftrightarrow> bi_transaction_id input \<noteq> None \<and>
     (\<forall>x \<in> set (listed (bi_events input)). ei_event_id x \<noteq> None) \<and>
     (\<forall>x \<in> set (listed (bi_enqueue_jobs input)). si_job_id x \<noteq> None)"

lemma supplied_id_given: "given \<noteq> None \<Longrightarrow> supplied_id drv ent field given = supplied_id drv' ent' field given"
  by (auto simp: supplied_id_def)

lemma build_batch_ids:
  assumes "ids_supplied input"
  shows "build_batch drv ent input = build_batch drv' ent' input"
proof -
  have "fold_res (add_event drv ent) (listed (bi_events input)) s
      = fold_res (add_event drv' ent') (listed (bi_events input)) s" for s
    by (rule fold_res_cong)
      (use assms supplied_id_given [of _ drv ent _ drv' ent'] in \<open>auto simp: ids_supplied_def add_event_def\<close>)
  moreover have "fold_res (add_job drv ent) (listed (bi_enqueue_jobs input)) s
      = fold_res (add_job drv' ent') (listed (bi_enqueue_jobs input)) s" for s
    by (rule fold_res_cong)
      (use assms supplied_id_given [of _ drv ent _ drv' ent'] in \<open>auto simp: ids_supplied_def add_job_def\<close>)
  moreover have "supplied_id drv ent field (bi_transaction_id input) = supplied_id drv' ent' field (bi_transaction_id input)" for field
    using assms by (intro supplied_id_given) (simp add: ids_supplied_def)
  ultimately show ?thesis by (simp add: build_batch_def)
qed

lemma connection_opens:
  assumes "migrated w" and "en_open en = None" and "en_statement en = (\<lambda>_. None)"
  obtains c s' where "store_connection en s w = (Inr c, s', w)" "sv_limits s' = sv_limits s"
proof (cases "sv_writer s")
  case None
  then show ?thesis
    using that assms created(3) [OF assms(1)]
    by (simp add: store_connection_def connection_open_def apply_pragmas_eq run_pragmas_healthy)
qed (use that in \<open>simp add: store_connection_def\<close>)

lemma store_commit_again:
  assumes "store_ok d" and "commit l b io d = (Inr r, d')" and "grows d' (store_of w)" and "migrated w"
    and "sv_limits t = l" and "en_open en = None" and "en_statement en = (\<lambda>_. None)" and "io_begin (en_io en) = None"
  shows "\<exists>t'. store_commit en b t w = (Inr r, t', w)"
proof -
  obtain c t' where c: "store_connection en t w = (Inr c, t', w)" "sv_limits t' = l"
    using connection_opens [OF assms(4,6,7), of t] assms(5) by metis
  obtain rest where later: "db_transactions (store_of w) = db_transactions d' @ rest"
    using assms(3) by (auto simp: grows_def prefix_def)
  have valid: "validate_batch l b = Inr ()"
    using assms(2) by (auto simp: commit_def split: sum.splits)
  have started: "io_begin (transaction_io en c) = None"
    using assms(8) by (simp add: transaction_io_def split: Access.split)
  have "commit l b (transaction_io en c) (store_of w) = (Inr r, store_of w)"
    using commit_again [OF assms(1,2) later refl valid started] by simp
  moreover have "Some ((file_of w)\<lparr>df_store := store_of w\<rparr>) = w"
    using created(3) [OF assms(4)] by (simp add: store_of_def)
  ultimately show ?thesis
    using c assms(5) by (simp add: store_commit_def on_writer_def store_of_def)
qed

text \<open>
  When every identifier is supplied, submitting the same object again is safe for as long as
  the store lives: through any handle with the same limits, after whatever was written since, it
  answers with the first receipt and writes nothing.
\<close>

theorem node_commit_once:
  assumes "disk_ok w" and "migrated w"
    and "node_commit en drv input \<lparr>ns_inner = Some s\<rparr> w = (Inr out, ns', w')" and "ids_supplied input"
    and "migrated w2" and "grows (store_of w') (store_of w2)" and "sv_limits t = sv_limits s"
    and "en_open en2 = None" and "en_statement en2 = (\<lambda>_. None)" and "io_begin (en_io en2) = None"
  shows "\<exists>t'. node_commit en2 drv2 input \<lparr>ns_inner = Some t\<rparr> w2 = (Inr out, \<lparr>ns_inner = Some t'\<rparr>, w2)"
  using assms(3)
proof (cases rule: node_commit_cases)
  case (called b res s')
  then obtain r where r: "res = Inr r" "out = receipt_output r" by (cases res) auto
  obtain io where "commit (sv_limits s) b io (store_of w) = (Inr r, store_of w')"
    using store_commit_Inr [OF assms(2) called(2) [unfolded r(1)]] .
  moreover have "store_ok (store_of w)" using assms(1) by (simp add: disk_ok_file)
  ultimately obtain t' where "store_commit en2 b t w2 = (Inr r, t', w2)"
    using store_commit_again [OF _ _ assms(6,5,7-10)] by blast
  then show ?thesis
    using called(1) build_batch_ids [OF assms(4), of drv2 "en_entropy en2" drv "en_entropy en"] r(2)
    by (simp add: node_commit_def call_store_def answered_def)
qed simp

section \<open>Reading what was committed\<close>

lemma list_all2_take: "list_all2 P xs ys \<Longrightarrow> list_all2 P (take k xs) (take k ys)"
  by (simp add: list_all2_conv_all_nth)

text \<open>What a client sees of an event it sent.\<close>

definition event_returned :: "EventInput \<Rightarrow> PersistedEventOutput \<Rightarrow> bool" where
  "event_returned x e \<longleftrightarrow>
     peo_stream_id e = ei_stream_id x \<and> peo_event_type e = ei_event_type x \<and>
     peo_occurred_at_ms e = ei_occurred_at_ms x \<and> peo_payload e = listed (ei_payload x) \<and>
     (\<forall>raw. ei_event_id x = Some raw \<longrightarrow> from_hex raw = from_hex (peo_event_id e))"

lemma event_row_returned:
  "event_of_input x (row_event r) \<Longrightarrow> event_returned x (persisted_event_output (persisted r))"
  by (auto simp: event_of_input_def event_returned_def persisted_event_output_def row_event_def with_json_payload_def
      event_new_def from_hex_to_hex persisted_def)

lemma node_events_after_Inr:
  assumes "store_ok (store_of w)" and "node_events_after en drv (int n) limit ns w = (Inr events, ns'')"
    and "int n \<le> i64_max"
  shows "events = map (persisted_event_output \<circ> persisted) (take (unat limit) (drop n (db_events (store_of w))))"
proof -
  have cursor: "uint (i64_as_u64 (int n)) < 2 ^ 63" "unat (i64_as_u64 (int n)) = n"
    using assms(3) by (simp_all add: i64_as_u64_def i64_max_def unsigned_of_nat take_bit_nat_eq_self)
  have "int (unat limit) \<le> i64_max"
    using uint_lt2p [of limit] by (simp add: i64_max_def)
  then have "events_after (store_of w) (i64_as_u64 (int n)) (unat limit)
      = Inr (map persisted (take (unat limit) (drop n (db_events (store_of w)))))"
    using events_after_page [OF store_okD(2) [OF assms(1)] cursor(1)] cursor(2) by simp
  then show ?thesis
    using assms(2) by (auto simp: node_events_after_def ask_store_def answered_def store_events_after_def with_reader_def
        store_of_def apfst_def split: option.splits prod.splits sum.splits)
qed

text \<open>
  C10: what a client commits is what it reads: after a new commit, \<open>eventsAfter\<close> from where the log
  ended returns the events of the object, in order and as many as asked for, with the contents and
  identifiers that were sent, consecutive sequence numbers, and the transaction of the receipt.
\<close>

theorem node_events_roundtrip:
  assumes "disk_ok w" and "migrated w"
    and "node_commit en drv input \<lparr>ns_inner = Some s\<rparr> w = (Inr out, ns', w')"
    and "cro_transaction_id out = to_hex i" and "\<not> has_transaction (store_of w) i"
    and "node_events_after en2 drv2 (int (length (db_events (store_of w)))) limit ns' w' = (Inr events, ns'')"
  shows "list_all2 event_returned (take (unat limit) (listed (bi_events input))) events \<and>
    map peo_global_sequence events
      = map (\<lambda>k. int (length (db_events (store_of w)) + k) + 1) [0..<length events] \<and>
    set (map peo_transaction_id events) \<subseteq> {cro_transaction_id out}"
  using assms(3)
proof (cases rule: node_commit_cases)
  case (called b res s')
  let ?n = "length (db_events (store_of w))"
  have store: "store_ok (store_of w)" using assms(1) by (simp add: disk_ok_file)
  obtain r where r: "res = Inr r" "out = receipt_output r" using called(3) by (cases res) auto
  obtain io where com: "commit (sv_limits s) b io (store_of w) = (Inr r, store_of w')"
    using store_commit_Inr [OF assms(2) called(2) [unfolded r(1)]] .
  have "rc_transaction_id r = cb_transaction_id b"
    using lookup_after_commit(2) [OF store com] by simp
  then have i: "cb_transaction_id b = i"
    using assms(4) r(2) from_hex_to_hex by (metis receipt_output_def CommitReceiptOutput.select_convs(1) sum.inject(2))
  obtain n where wb: "write_batch b (store_of w) = Inr (n, store_of w')"
    using fresh_commit [OF store com] assms(5) i by blast
  note W = write_batch_InrD(1,6) [OF store wb]
  obtain rows where rows: "db_events (store_of w') = db_events (store_of w) @ rows" "map row_event rows = batch_events b"
    "\<forall>r \<in> set rows. er_transaction_id r = i"
    using W(2) i by (auto simp: appends_def)
  have events: "events = map (persisted_event_output \<circ> persisted) (take (unat limit) rows)"
    using node_events_after_Inr [OF W(1) assms(6) events_okD(2) [OF store_okD(2) [OF store]]] rows(1) by simp
  have "list_all2 event_of_input (listed (bi_events input)) (map row_event rows)"
    by (rule build_batch_Inr [OF called(1)]) (simp add: rows(2))
  then have "list_all2 (\<lambda>x r. event_returned x (persisted_event_output (persisted r))) (listed (bi_events input)) rows"
    unfolding list_all2_map2 by (rule list_all2_mono) (rule event_row_returned)
  then have "list_all2 event_returned (take (unat limit) (listed (bi_events input))) events"
    using list_all2_take by (auto simp: events list_all2_map2)
  moreover have "map peo_global_sequence events = map (\<lambda>k. int (?n + k) + 1) [0..<length events]"
  proof (rule nth_equalityI)
    fix k
    assume "k < length (map peo_global_sequence events)"
    then have k: "k < length rows" "events ! k = persisted_event_output (persisted (rows ! k))" "k < length events"
      by (auto simp: events)
    note E = events_okD(1,2) [OF store_okD(2) [OF W(1)]]
    have "er_global_sequence (db_events (store_of w') ! (?n + k)) = int (?n + k) + 1"
      using k(1) rows(1) numbered_nth [OF E(1), of "?n + k"] by simp
    then have "er_global_sequence (rows ! k) = int (?n + k) + 1" using rows(1) by simp
    moreover have "is_i64 (int (?n + k) + 1)" using E(2) rows(1) k(1) by (simp add: is_i64_def i64_min_def)
    ultimately show "map peo_global_sequence events ! k = map (\<lambda>k. int (?n + k) + 1) [0..<length events] ! k"
      using k by (simp add: persisted_event_output_def persisted_def u64_as_i64_of_i64)
  qed simp
  moreover have "set (map peo_transaction_id events) \<subseteq> {cro_transaction_id out}"
    using rows(3) assms(4) by (auto simp: events persisted_event_output_def persisted_def dest!: in_set_takeD)
  ultimately show ?thesis by simp
qed simp

section \<open>A concrete client\<close>

definition sample_input :: CommitBatchInput where
  "sample_input =
     \<lparr>bi_transaction_id = Some (to_hex (id_from_u128 1)), bi_committed_at_ms = 10,
      bi_expected_stream_versions = Some [\<lparr>xi_stream_id = ''s'', xi_version = 0\<rparr>],
      bi_events = Some [\<lparr>ei_event_id = Some (to_hex (id_from_u128 2)), ei_stream_id = ''s'',
        ei_event_type = ''created'', ei_occurred_at_ms = 5, ei_payload = Some [1]\<rparr>],
      bi_projection_patches = None,
      bi_enqueue_jobs = Some [\<lparr>si_job_id = Some (to_hex (id_from_u128 3)), si_queue = ''q'',
        si_partition_key = ''p'', si_payload = [9], si_effect_mode = None, si_idempotency_key = None,
        si_not_before_ms = None, si_max_attempts = None\<rparr>],
      bi_ack_jobs = None\<rparr>"

lemma sample_input: "build_batch drv ent sample_input = Inr sample_batch" "ids_supplied sample_input"
  by (simp_all add: sample_input_def build_batch_def listed_def supplied_id_def node_parse_id_def from_hex_to_hex
      add_expected_def i64_as_u64_def add_event_def with_json_payload_def event_new_def add_job_def spec_of_input_def
      ids_supplied_def sample_simps)

lemma sample_handle: "disk_ok (Some sample_file)" "migrated (Some sample_file)" "handle_ok sample_store"
  using reachable_handle [OF sample_run(1), of sample_store] by (simp_all add: sample_system_def)

lemma sample_node_commits:
  "node_commit sample_engine drv sample_input \<lparr>ns_inner = Some sample_store\<rparr> (Some sample_file)
     = (Inr (receipt_output sample_receipt), \<lparr>ns_inner = Some sample_store\<rparr>, sample_committed)"
  by (simp add: node_commit_def sample_input call_store_def sample_commits answered_def)

lemma sample_stores: "store_of (Some sample_file) = empty_db" "store_of sample_committed = sample_db"
  by (simp_all add: store_of_def sample_file(4) sample_committed_def)

theorem node_unknown_recovered_witness:
  "\<exists>e ns' i out ns''.
     node_commit faulty_engine (\<lambda>_. []) sample_input \<lparr>ns_inner = Some sample_store\<rparr> (Some sample_file)
       = (Inl e, ns', sample_committed) \<and>
     node_recover_transaction sample_engine (\<lambda>_. []) (to_hex i) ns' sample_committed = (Inr out, ns'', sample_committed) \<and>
     tro_kind out = ''committed''"
proof -
  obtain x s' where "store_commit faulty_engine sample_batch sample_store (Some sample_file)
      = (Inl (Commit_Indeterminate x), s', sample_committed)"
    using sample_unknown by blast
  then have u: "node_commit faulty_engine (\<lambda>_. []) sample_input \<lparr>ns_inner = Some sample_store\<rparr> (Some sample_file)
      = (Inl (map_commit_error (\<lambda>_. []) (Commit_Indeterminate x)), \<lparr>ns_inner = Some s'\<rparr>, sample_committed)"
    by (simp add: node_commit_def sample_input call_store_def answered_def)
  have en: "en_open sample_engine = None" "en_statement sample_engine = (\<lambda>_. None)"
    "je_code (map_commit_error (\<lambda>_. []) (Commit_Indeterminate x)) = ''CommitIndeterminate''"
    by (simp_all add: sample_engine_def js_err_def)
  have "store_of sample_committed \<noteq> store_of (Some sample_file)"
    by (simp add: sample_stores sample_db_def empty_db_def)
  then obtain i out ns'' where "node_recover_transaction sample_engine (\<lambda>_. []) (to_hex i) \<lparr>ns_inner = Some s'\<rparr> sample_committed
      = (Inr out, ns'', sample_committed)" "tro_kind out = ''committed''"
    using node_unknown_recovered [OF sample_handle u en(3,1,2), of "\<lambda>_. []"] by fastforce
  then show ?thesis using u by blast
qed

theorem node_commit_once_witness:
  "\<exists>t'. node_commit (sample_engine\<lparr>en_entropy := (\<lambda>_. NoEntropy [])\<rparr>) (\<lambda>_. []) sample_input \<lparr>ns_inner = Some sample_store\<rparr>
     sample_committed = (Inr (receipt_output sample_receipt), \<lparr>ns_inner = Some t'\<rparr>, sample_committed)"
proof -
  have "migrated sample_committed"
    using sample_handle(2) by (simp add: migrated_def sample_committed_def file_of_def)
  then show ?thesis
    using node_commit_once [OF sample_handle(1,2) sample_node_commits sample_input(2), of sample_committed sample_store
        "sample_engine\<lparr>en_entropy := (\<lambda>_. NoEntropy [])\<rparr>"]
    by (simp add: sample_engine_def healthy_def)
qed

theorem node_events_roundtrip_witness:
  "\<exists>e. fst (node_events_after sample_engine (\<lambda>_. []) 0 10 \<lparr>ns_inner = Some sample_store\<rparr> sample_committed) = Inr [e] \<and>
     peo_event_type e = ''created'' \<and> peo_global_sequence e = 1"
proof -
  obtain events s'' where g: "node_events_after sample_engine (\<lambda>_. []) 0 10 \<lparr>ns_inner = Some sample_store\<rparr> sample_committed
      = (Inr events, s'')"
    by (simp add: node_events_after_def ask_store_def answered_def store_events_after_def with_reader_def pool_take_def
        sample_store_def built_store_def pool_new_def open_reader_def connection_open_existing_def run_pragmas_healthy
        run_pragma_def sample_engine_def sample_committed_def builder_new_def events_after_def read_events_map)
  have c: "cro_transaction_id (receipt_output sample_receipt) = to_hex (id_from_u128 1)"
    by (simp add: receipt_output_def sample_receipt_def)
  have g': "node_events_after sample_engine (\<lambda>_. []) (int (length (db_events (store_of (Some sample_file))))) 10
      \<lparr>ns_inner = Some sample_store\<rparr> sample_committed = (Inr events, s'')"
    using g by (simp add: sample_stores empty_db_def)
  have "\<not> has_transaction (store_of (Some sample_file)) (id_from_u128 1)"
    by (simp add: sample_stores has_transaction_def empty_db_def)
  from node_events_roundtrip [OF sample_handle(1,2) sample_node_commits c this g'] show ?thesis
    using g by (auto simp: sample_stores sample_input_def listed_def list_all2_Cons1 event_returned_def empty_db_def)
qed

end
