(* ===== verification/OpsProperties.thy ===== *)
theory OpsProperties
  imports Ops ClaimTheorems
begin

text \<open>
  What the operational tooling guarantees: a well-formed store verifies clean, the paged export
  is the whole table, JSON text is never broken by its data, and neither lease tokens nor, by
  default, payloads can be read off an export.
\<close>

section \<open>JSON text\<close>

text \<open>A reader of the escape sequences that \<open>json_escape\<close> writes.\<close>

definition hex_digit :: "char \<Rightarrow> nat" where
  "hex_digit c = (let n = of_char c :: nat in if n < 0x3A then n - 0x30 else n - 0x57)"

fun json_unescape :: "str \<Rightarrow> str" where
  "json_unescape [] = []"
| "json_unescape (c # s) =
     (if c \<noteq> CHR 0x5C then c # json_unescape s
      else case s of
        [] \<Rightarrow> []
      | e # t \<Rightarrow>
          if e = CHR 0x6E then CHR 0x0A # json_unescape t
          else if e = CHR 0x72 then CHR 0x0D # json_unescape t
          else if e = CHR 0x74 then CHR 0x09 # json_unescape t
          else if e = CHR 0x75
          then char_of (16 * hex_digit (t ! 2) + hex_digit (t ! 3)) # json_unescape (drop 4 t)
          else e # json_unescape t)"

lemma hex_digit_HEX:
  assumes "k < 16"
  shows "hex_digit (HEX ! k) = k" "\<not> (of_char (HEX ! k) :: nat) < 0x20"
proof -
  have "k \<in> set [0..<16]" using assms by simp
  moreover have "list_all (\<lambda>k. hex_digit (HEX ! k) = k \<and> \<not> (of_char (HEX ! k) :: nat) < 0x20) [0..<16]"
    by (simp add: upt_rec HEX_def hex_digit_def)
  ultimately show "hex_digit (HEX ! k) = k" "\<not> (of_char (HEX ! k) :: nat) < 0x20"
    unfolding list_all_iff by blast+
qed

lemma hex_byte_digits:
  obtains h l where "hex_byte b = [h, l]" "16 * hex_digit h + hex_digit l = unat b"
    "\<not> (of_char h :: nat) < 0x20" "\<not> (of_char l :: nat) < 0x20"
proof -
  have "(0xF :: u8) = mask 4" by (simp add: mask_eq_exp_minus_1)
  then have split: "unat (drop_bit 4 b) = unat b div 16" "unat (b AND 0xF) = unat b mod 16"
    by (simp add: drop_bit_eq_div unat_div)
      (simp only: \<open>0xF = mask 4\<close> flip: take_bit_eq_mask, simp add: take_bit_eq_mod unat_mod)
  have "unat b < 256" using unsigned_less [of b, where ?'a = nat] by simp
  then have "unat b div 16 < 16" "unat b mod 16 < 16" by auto
  then show ?thesis
    using that [of "HEX ! (unat b div 16)" "HEX ! (unat b mod 16)"] hex_digit_HEX
    by (simp add: hex_byte_def split)
qed

text \<open>Every character escapes to text without control characters that reads back as it.\<close>

lemma json_escape_char_ok:
  shows "\<forall>e \<in> set (json_escape_char c). \<not> (of_char e :: nat) < 0x20"
    and "json_unescape (json_escape_char c @ s) = c # json_unescape s"
proof -
  have "(\<forall>e \<in> set (json_escape_char c). \<not> (of_char e :: nat) < 0x20) \<and>
    json_unescape (json_escape_char c @ s) = c # json_unescape s"
  proof (cases "c \<in> {CHR 0x22, CHR 0x5C, CHR 0x0A, CHR 0x0D, CHR 0x09}")
    case True
    then show ?thesis by (auto simp: json_escape_char_def)
  next
    case special: False
    show ?thesis
    proof (cases "(of_char c :: nat) < 0x20")
      case True
      obtain h l where hl: "hex_byte (of_char c) = [h, l]"
        "16 * hex_digit h + hex_digit l = unat (of_char c :: u8)"
        "\<not> (of_char h :: nat) < 0x20" "\<not> (of_char l :: nat) < 0x20"
        by (rule hex_byte_digits)
      have "unat (of_char c :: u8) = of_char c"
        using True by (simp add: of_char_def)
      then have "char_of (16 * hex_digit h + hex_digit l) = c" using hl(2) by simp
      then show ?thesis
        using True special hl(1,3,4) by (simp add: json_escape_char_def)
    next
      case False
      then show ?thesis using special by (simp add: json_escape_char_def)
    qed
  qed
  then show "\<forall>e \<in> set (json_escape_char c). \<not> (of_char e :: nat) < 0x20"
    "json_unescape (json_escape_char c @ s) = c # json_unescape s" by simp_all
qed

text \<open>
  Escaping loses nothing and leaves no control character, so a record of the export is always
  a single line.
\<close>

theorem json_escape_roundtrip:
  "json_unescape (json_escape s) = s \<and> list_all (\<lambda>c. 0x20 \<le> (of_char c :: nat)) (json_escape s)"
  by (induction s) (use json_escape_char_ok in \<open>auto simp: json_escape_def list_all_iff not_less\<close>)

section \<open>The export is the whole table\<close>

lemma export_pages_all:
  "sorted_wrt (\<lambda>a b. key a < key b) rows \<Longrightarrow>
     export_pages key render rows previous = concat (map render (filter (\<lambda>r. previous < key r) rows))"
proof (induction key render rows previous rule: export_pages.induct)
  case (1 key render rows previous)
  let ?rest = "filter (\<lambda>r. previous < key r) rows"
  let ?page = "take 512 ?rest"
  show ?case
  proof (cases "length ?page < EXPORT_PAGE_SIZE")
    case True
    then have "?page = ?rest" by (auto simp: EXPORT_PAGE_SIZE_def)
    then show ?thesis
      using True by (simp only: export_pages.simps [of key render rows previous] export_page_size Let_def if_True)
  next
    case False
    then have ne: "?page \<noteq> []" by (auto simp: EXPORT_PAGE_SIZE_def)
    then have "last ?page \<in> set ?rest" using in_set_takeD last_in_set by fast
    then have above: "previous < key (last ?page)" by simp
    have sorted: "sorted_wrt (\<lambda>a b. key a < key b) ?rest" using 1(2) by (rule sorted_wrt_filter)
    have "filter (\<lambda>r. key (last ?page) < key r) rows = filter (\<lambda>r. key (last ?page) < key r) ?rest"
      using above by (auto intro!: filter_cong)
    also have "\<dots> = drop 512 ?rest"
      by (rule after_last_of_page [OF sorted _ ne]) simp
    finally have next_rows: "filter (\<lambda>r. key (last ?page) < key r) rows = drop 512 ?rest" .
    have "export_pages key render rows (key (last ?page))
        = concat (map render (filter (\<lambda>r. key (last ?page) < key r) rows))"
      using 1(1) [OF _ _ _ 1(2)] False unfolding export_page_size by simp
    then have "export_pages key render rows (key (last ?page)) = concat (map render (drop 512 ?rest))"
      by (simp only: next_rows)
    then have "export_pages key render rows previous
        = concat (map render ?page) @ concat (map render (drop 512 ?rest))"
      using False by (simp only: export_pages.simps [of key render rows previous] export_page_size Let_def if_False)
    also have "\<dots> = concat (map render ?rest)"
      by (simp only: concat_append [symmetric] map_append [symmetric] append_take_drop_id)
    finally show ?thesis .
  qed
qed

lemma numbered_sorted:
  "map (g :: 'a \<Rightarrow> int) xs = [1..int n] \<Longrightarrow> sorted_wrt (\<lambda>a b. g a < g b) xs \<and> filter (\<lambda>x. 0 < g x) xs = xs"
proof -
  assume num: "map g xs = [1..int n]"
  have "sorted_wrt (<) (map g xs)" by (simp add: num strict_sorted_iff)
  moreover have "0 < g x" if "x \<in> set xs" for x
  proof -
    have "g x \<in> set (map g xs)" using that by simp
    then show ?thesis by (simp add: num del: set_map)
  qed
  ultimately show ?thesis by (simp add: sorted_wrt_map filter_id_conv)
qed

lemma export_numbered:
  "map g xs = [1..int n] \<Longrightarrow> export_pages g render (sort_key g xs) 0 = concat (map render xs)"
  using numbered_sorted [of g xs n] by (simp add: sort_key_numbered export_pages_all)



text \<open>
  C38: the export of streams starts above the empty string, so it lists every stream but the one
  whose id is empty, which a commit accepts.
\<close>

theorem export_streams_skips_empty:
  assumes "store_ok d"
  shows "export_streams d = concat (map stream_line (filter (\<lambda>s. fst s \<noteq> '''') (sort_key fst (db_streams d))))"
proof -
  have dist: "distinct (map fst (db_streams d))"
    using store_okD(3) [OF assms] by (simp add: streams_ok_def)
  have "distinct (map fst (sort_key fst (db_streams d)))"
    using dist by (simp add: distinct_map)
  then have "sorted_wrt (<) (map fst (sort_key fst (db_streams d)))"
    by (simp add: strict_sorted_iff)
  then have "sorted_wrt (\<lambda>a b. fst a < fst b) (sort_key fst (db_streams d))"
    by (simp add: sorted_wrt_map)
  moreover have "'''' < s \<longleftrightarrow> s \<noteq> ''''" for s :: str
    by (cases s) simp_all
  ultimately show ?thesis by (simp add: export_streams_def export_pages_all)
qed

definition unnamed_batch :: CommitBatch where
  "unnamed_batch = append_event (batch_new (id_from_u128 1) 10) (sample_event (id_from_u128 2) '''')"

lemma unnamed_write:
  "validate_batch default_limits unnamed_batch = Inr () \<and>
   (\<exists>d. write_batch unnamed_batch empty_db = Inr (1, d) \<and> db_streams d = [('''', 1)])"
  by (simp add: unnamed_batch_def sample_simps validate_batch_def default_limits_def result_simps
      write_batch_def current_stream_version_def version_of_def i64_as_u64_def empty_db_def
      next_sequence_def i64_max_def insert_transaction_def has_transaction_def batch_row_def
      insert_event_def insert_event_row_def checked_add_u64_def upsert_streams_def u64_as_i64_def)

theorem export_streams_skips_empty_witness:
  "\<exists>d. store_ok d \<and> db_streams d = [('''', 1)] \<and> export_streams d = ''''"
proof -
  obtain d where d: "write_batch unnamed_batch empty_db = Inr (1, d)" "db_streams d = [('''', 1)]"
    using unnamed_write by blast
  have ok: "store_ok d" by (rule write_batch_InrD(1) [OF empty_store_ok d(1)])
  show ?thesis
    using export_streams_skips_empty [OF ok] ok d(2) by auto
qed

section \<open>Verification\<close>

lemma max_version_count:
  assumes "store_ok d"
  shows "max_version d s = int (stream_count d s)"
proof -
  have vs: "map er_stream_version (filter (\<lambda>e. er_stream_id e = s) (db_events d)) = [1..int (stream_count d s)]"
    using events_okD(4) [OF store_okD(2) [OF assms]] by (simp add: in_stream_def)
  show ?thesis
    using fold_max_upto [of "stream_count d s"] unfolding max_version_def vs Let_def by simp
qed

lemma stream_row:
  assumes "store_ok d"
  shows "map_of (db_streams d) s = Some v \<Longrightarrow> v = int (stream_count d s)"
    and "map_of (db_streams d) s = None \<Longrightarrow> stream_count d s = 0"
proof -
  have now: "current_stream_version d s = of_nat (stream_count d s)"
    and range: "\<And>v. map_of (db_streams d) s = Some v \<Longrightarrow> is_i64 v"
    using store_okD(3) [OF assms] by (simp_all add: streams_ok_def)
  have bound: "int (stream_count d s) \<le> i64_max"
    by (rule stream_count_bound [OF store_okD(2) [OF assms]])
  note cast = u64_as_i64_of_nat [OF bound]
  show "v = int (stream_count d s)" if "map_of (db_streams d) s = Some v"
    using now cast that u64_as_i64_of_i64 [OF range [OF that]]
    by (simp add: current_stream_version_def version_of_def)
  show "stream_count d s = 0" if "map_of (db_streams d) s = None"
    using now cast that by (simp add: current_stream_version_def version_of_def i64_as_u64_def u64_as_i64_def)
qed

lemma stream_findings_none: "store_ok d \<Longrightarrow> stream_findings d = []"
proof -
  assume ok: "store_ok d"
  have dist: "distinct (map fst (db_streams d))"
    using store_okD(3) [OF ok] by (simp add: streams_ok_def)
  have "filter (\<lambda>(s, current). current \<noteq> max_version d s) (db_streams d) = []"
    using stream_row(1) [OF ok] max_version_count [OF ok] dist
    by (auto simp: filter_empty_conv)
  moreover have "map_of (db_streams d) (er_stream_id e) \<noteq> None" if "e \<in> set (db_events d)" for e
  proof
    assume "map_of (db_streams d) (er_stream_id e) = None"
    then have "stream_count d (er_stream_id e) = 0" by (rule stream_row(2) [OF ok])
    then show False using that by (auto simp: stream_count_def in_stream_def filter_empty_conv)
  qed
  then have "filter (\<lambda>e. map_of (db_streams d) (er_stream_id e) = None) (db_events d) = []"
    by (auto simp: filter_empty_conv)
  ultimately show ?thesis by (simp add: stream_findings_def)
qed

lemma job_findings_none:
  assumes "jobs_ok d"
  shows "terminal_findings d = []" "leased_findings d = []" "partition_findings d = []" "receipt_findings d = []"
proof -
  have rows: "rows_ok (db_jobs d)" and active: "active_ok (db_active_partitions d) (db_jobs d)"
    using assms by (simp_all add: jobs_ok_def)
  have checks: "job_checks r" if "r \<in> set (db_jobs d)" for r
    using rows_okD(3) [OF rows that] by (simp add: job_row_ok_def)
  show "terminal_findings d = []" "leased_findings d = []"
    using checks by (auto simp: terminal_findings_def leased_findings_def filter_empty_conv job_checks_def TERMINAL_STATES_def)
  have "partition_active d q p" if "((q, p), n) \<in> set (db_active_partitions d)" for q p n
    using that active_okD(1,3) [OF active] by (auto simp: partition_active_iff)
  then show "partition_findings d = []"
    by (auto simp: partition_findings_def filter_empty_conv)
  have "find (\<lambda>r. jr_job_id r = cl_job_id c) (db_jobs d) \<noteq> None" "has_transaction d (cl_transaction_id c)"
    if "c \<in> set (db_claim_receipts d)" for c
    using that assms receipt_job_found(1) [OF assms that] by (auto simp: jobs_ok_def)
  then show "receipt_findings d = []"
    by (auto simp: receipt_findings_def filter_empty_conv)
qed

text \<open>
  C31: a well-formed, current store verifies clean: the report holds what the database engine's
  own integrity and foreign key checks find, and nothing else.
\<close>

theorem verify_clean:
  assumes "store_ok (df_store f)" and "file_ok f" and "df_schema f = 2" and "df_migrations f \<noteq> None"
  shows "verify ec f = Inr \<lparr>vr_findings = integrity_findings ec @ foreign_key_findings ec\<rparr>"
proof -
  obtain ss where ss: "status f = Inr ss" "map ms_version ss = [1, 2]" "\<forall>s \<in> set ss. ms_checksum_ok s"
    using status_current [OF assms(2-4)] by (elim exE conjE) (rule that)
  then have "ss \<noteq> []" "migration_findings c ss = []" for c
    by (auto simp: migration_findings_def filter_empty_conv)
  then show ?thesis
    using ss(1) stream_findings_none [OF assms(1)] job_findings_none [OF store_okD(5) [OF assms(1)]]
    by (simp add: verify_def semantic_checks_def Let_def)
qed

theorem verify_clean_witness:
  "\<exists>f. verify \<lparr>ec_integrity = [''ok''], ec_foreign_keys = []\<rparr> f = Inr \<lparr>vr_findings = []\<rparr>"
proof -
  obtain g where "file_ok g" "df_schema g = 2" "df_migrations g \<noteq> None" "store_ok (df_store g)"
    using new_file_migrates empty_store_ok by auto
  then show ?thesis
    using verify_clean [of g "\<lparr>ec_integrity = [''ok''], ec_foreign_keys = []\<rparr>"]
    by (auto simp: integrity_findings_def foreign_key_findings_def)
qed

section \<open>What an export does not reveal\<close>

text \<open>Changing what neither the key nor the line of a row shows does not change the pages.\<close>

lemma export_pages_map:
  assumes key: "\<And>r. key (g r) = key r" and render: "\<And>r. render (g r) = render' r"
  shows "export_pages key render (map g rows) previous = export_pages key render' rows previous"
proof (induction "length (filter (\<lambda>r. previous < key r) rows)" arbitrary: previous rule: less_induct)
  case less
  let ?rest = "filter (\<lambda>r. previous < key r) rows"
  let ?page = "take 512 ?rest"
  have page: "take 512 (filter (\<lambda>r. previous < key r) (map g rows)) = map g ?page"
    by (simp add: filter_map comp_def key take_map)
  have out: "concat (map render (map g ?page)) = concat (map render' ?page)"
    by (simp add: comp_def render)
  show ?case
  proof (cases "length ?page < EXPORT_PAGE_SIZE")
    case True
    then show ?thesis
      unfolding export_pages.simps [of key render "map g rows" previous] export_pages.simps [of key render' rows previous]
        export_page_size page Let_def out length_map by simp
  next
    case False
    then have ne: "?page \<noteq> []" by (auto simp: EXPORT_PAGE_SIZE_def)
    then have "last ?page \<in> set ?rest" using in_set_takeD last_in_set by fast
    then have l: "last ?page \<in> set rows" "previous < key (last ?page)" by auto
    have "filter (\<lambda>r. key (last ?page) < key r) rows = filter (\<lambda>r. key (last ?page) < key r) ?rest"
      using l(2) by (auto intro!: filter_cong)
    moreover have "length (filter (\<lambda>r. key (last ?page) < key r) ?rest) < length ?rest"
      using l by (intro length_filter_less [of "last ?page"]) auto
    ultimately have "export_pages key render (map g rows) (key (last ?page))
        = export_pages key render' rows (key (last ?page))"
      by (intro less) simp
    moreover have "key (last (map g ?page)) = key (last ?page)"
      using ne by (simp add: last_map key)
    ultimately show ?thesis
      unfolding export_pages.simps [of key render "map g rows" previous] export_pages.simps [of key render' rows previous]
        export_page_size page Let_def out length_map by simp
  qed
qed

lemma sort_key_pages:
  assumes key: "\<And>r. key (g r) = key r" and render: "\<And>r. render (g r) = render' r"
  shows "export_pages key render (sort_key key (map g rows)) previous
    = export_pages key render' (sort_key key rows) previous"
proof -
  have "sort_key key (map g rows) = map g (sort_key key rows)"
    by (simp add: sort_key_map key)
  then show ?thesis
    by (simp only: export_pages_map [where key = key and g = g and render = render and render' = render', OF key render])
qed

text \<open>The statistics look at jobs only through their states, expiries and transactions.\<close>

lemma stats_map_jobs:
  assumes "\<And>r. jr_state (g r) = jr_state r" "\<And>r. jr_lease_expires_at_ms (g r) = jr_lease_expires_at_ms r"
    "\<And>r. jr_updated_transaction_id (g r) = jr_updated_transaction_id r"
    and "db_jobs d' = map g (db_jobs d)" and "db_transactions d' = db_transactions d"
  shows "jobs_by_state d' = jobs_by_state d" "oldest_active_lease d' = oldest_active_lease d"
    "oldest_uncertain_job d' = oldest_uncertain_job d"
proof -
  have flt: "filter (\<lambda>r. jr_state r = s) (map g rows) = map g (filter (\<lambda>r. jr_state r = s) rows)" for s rows
    by (simp add: filter_map comp_def assms(1))
  have mf: "List.map_filter f (map g rows) = List.map_filter (\<lambda>r. f (g r)) rows" for f :: "JobRow \<Rightarrow> i64 option" and rows
    by (induction rows) (simp_all add: map_filter_simps split: option.split)
  show "jobs_by_state d' = jobs_by_state d"
    by (simp add: jobs_by_state_def assms(4) flt comp_def assms(1) count_def)
  show "oldest_active_lease d' = oldest_active_lease d"
    by (simp add: oldest_active_lease_def assms(2,4) flt mf)
  show "oldest_uncertain_job d' = oldest_uncertain_job d"
    by (simp add: oldest_uncertain_job_def assms(3,4,5) flt mf)
qed

text \<open>The same store with every lease token blanked out.\<close>

definition blank_tokens :: "db \<Rightarrow> db" where
  "blank_tokens d =
     d\<lparr>db_jobs := map (\<lambda>r. r\<lparr>jr_lease_token := None\<rparr>) (db_jobs d),
       db_claim_receipts := map (\<lambda>c. c\<lparr>cl_lease_token := ZERO\<rparr>) (db_claim_receipts d)\<rparr>"

text \<open>The same store with every payload, projection value and error summary blanked out.\<close>

definition blank_payloads :: "db \<Rightarrow> db" where
  "blank_payloads d =
     d\<lparr>db_events := map (\<lambda>r. r\<lparr>er_payload := replicate (length (er_payload r)) 0\<rparr>) (db_events d),
       db_jobs := map (\<lambda>r. r\<lparr>jr_payload := replicate (length (jr_payload r)) 0,
           jr_error_summary := map_option (\<lambda>s. replicate (length s) CHR 0x20) (jr_error_summary r)\<rparr>) (db_jobs d),
       db_projection_entries := map (\<lambda>e. (fst e, replicate (length (snd e)) 0)) (db_projection_entries d)\<rparr>"

lemma export_jobs_map:
  assumes "\<And>r. jr_enqueue_sequence (g r) = jr_enqueue_sequence r" and "\<And>r. job_line b (g r) = job_line b r"
    and "db_jobs d' = map g (db_jobs d)"
  shows "export_jobs b d' = export_jobs b d"
  unfolding export_jobs_def assms(3) by (rule sort_key_pages) (rule assms(1,2))+

text \<open>
  C35: no lease token can be read off an export: blanking all of them out gives the same text,
  with or without payloads.
\<close>

theorem export_hides_tokens:
  "diagnostic_export sz b (f\<lparr>df_store := blank_tokens (df_store f)\<rparr>) = diagnostic_export sz b f"
proof -
  let ?d = "df_store f"
  let ?g = "\<lambda>r. r\<lparr>jr_lease_token := None\<rparr> :: JobRow"
  have "export_jobs b (blank_tokens ?d) = export_jobs b ?d"
    by (rule export_jobs_map [where g = ?g]) (simp_all add: job_line_def blank_tokens_def)
  moreover have "export_claim_receipts (blank_tokens ?d) = export_claim_receipts ?d"
  proof -
    have "receipt_line (c\<lparr>cl_lease_token := ZERO\<rparr>) = receipt_line c" for c
      by (simp add: receipt_line_def)
    moreover have "db_claim_receipts (blank_tokens ?d) = map (\<lambda>c. c\<lparr>cl_lease_token := ZERO\<rparr>) (db_claim_receipts ?d)"
      by (simp add: blank_tokens_def)
    ultimately show ?thesis
      unfolding export_claim_receipts_def by (simp only: map_map comp_def)
  qed
  moreover note stats_map_jobs [of ?g "blank_tokens ?d" ?d]
  ultimately show ?thesis
    by (simp add: diagnostic_export_def stats_def Let_def blank_tokens_def count_def current_version_def
        migration_rows_def export_transactions_def export_events_def export_streams_def
        export_projections_def export_partitions_def)
qed

text \<open>
  An export without payloads reveals only lengths: blanking out every event and job payload,
  projection value and error summary gives the same text.
\<close>

theorem export_redacts_payloads:
  "diagnostic_export sz False (f\<lparr>df_store := blank_payloads (df_store f)\<rparr>) = diagnostic_export sz False f"
proof -
  let ?d = "df_store f"
  let ?g = "\<lambda>r. r\<lparr>jr_payload := replicate (length (jr_payload r)) 0,
      jr_error_summary := map_option (\<lambda>s. replicate (length s) CHR 0x20) (jr_error_summary r)\<rparr> :: JobRow"
  let ?e = "\<lambda>r. r\<lparr>er_payload := replicate (length (er_payload r)) 0\<rparr> :: EventRow"
  let ?v = "\<lambda>e :: (str \<times> bytes) \<times> bytes. (fst e, replicate (length (snd e)) 0) :: (str \<times> bytes) \<times> bytes"
  have "export_jobs False (blank_payloads ?d) = export_jobs False ?d"
    by (rule export_jobs_map [where g = ?g])
      (simp_all add: job_line_def blank_payloads_def payload_fields_def error_summary_fields_def option.map_comp comp_def)
  moreover have "export_events False (blank_payloads ?d) = export_events False ?d"
    using sort_key_pages [of er_global_sequence ?e "event_line False" "event_line False" "db_events ?d" 0]
    by (simp add: export_events_def blank_payloads_def event_line_def payload_fields_def)
  moreover have "export_projections False (blank_payloads ?d) = export_projections False ?d"
  proof -
    have "zip ns (map ?v es) = map (\<lambda>r. (fst r, ?v (snd r))) (zip ns es)" for ns :: "int list" and es
      by (simp add: zip_map2) (simp add: split_beta)
    then show ?thesis
      using export_pages_map [of fst "\<lambda>r. (fst r, ?v (snd r))" "\<lambda>r. entry_line False (snd r)" "\<lambda>r. entry_line False (snd r)"]
      by (simp add: export_projections_def blank_payloads_def entry_line_def split_beta)
  qed
  moreover note stats_map_jobs [of ?g "blank_payloads ?d" ?d]
  ultimately show ?thesis
    by (simp add: diagnostic_export_def stats_def Let_def blank_payloads_def count_def current_version_def
        migration_rows_def export_transactions_def export_streams_def export_partitions_def
        export_claim_receipts_def)
qed

end
