(* ===== verification/Worker.thy ===== *)
theory Worker
  imports Facade
begin

text \<open>
  The example client (\<open>examples/synara_provider_turn.rs\<close>): requesting a turn, claiming its job,
  keeping the lease alive, and completing the turn so that it happens exactly once. A client has a
  handle, the file it is on, and a count of the answers it has taken from its environment: engines,
  clock readings and random draws, one for each use. The program that strings the functions together
  is in \<open>Drill\<close>.
\<close>

section \<open>Actions of a client\<close>

record client_env =
  we_engine :: "nat \<Rightarrow> engine"
  we_clock :: "nat \<Rightarrow> int"
  we_ids :: "nat \<Rightarrow> draw"

record client =
  cl_store :: Store
  cl_disk :: disk
  cl_tick :: nat
  cl_out :: str

text \<open>
  A boxed error, and a panic. Cargo builds examples with overflow checks, so the addition in the
  heartbeat panics where a release build would wrap around.
\<close>

datatype client_error =
    Boxed Error
  | Boxed_Commit CommitError
  | Boxed_Claim ClaimError
  | Boxed_Lease LeaseError
  | Boxed_Recovery RecoveryError
  | Boxed_Text str
  | Panicked str

type_synonym 'a action = "client \<Rightarrow> (client_error + 'a) \<times> client"

definition ret :: "'a \<Rightarrow> 'a action" where
  "ret x c = (Inr x, c)"

definition fail :: "client_error \<Rightarrow> 'a action" where
  "fail e c = (Inl e, c)"

definition act :: "'a action \<Rightarrow> ('a \<Rightarrow> 'b action) \<Rightarrow> 'b action" where
  "act m k c = (case m c of (Inl e, c) \<Rightarrow> (Inl e, c) | (Inr x, c) \<Rightarrow> k x c)"

definition say :: "str \<Rightarrow> unit action" where
  "say line c = (Inr (), c\<lparr>cl_out := cl_out c @ line @ [CHR 0x0A]\<rparr>)"

definition take_answer :: "(nat \<Rightarrow> 'a) \<Rightarrow> 'a action" where
  "take_answer f c = (Inr (f (cl_tick c)), c\<lparr>cl_tick := Suc (cl_tick c)\<rparr>)"

text \<open>
  The clock is read in nanoseconds since the epoch; \<open>as_millis() as i64\<close> keeps the low 64 bits. A
  clock before the epoch panics with the message of \<open>expect\<close>.
\<close>

definition millis_i64 :: "int \<Rightarrow> i64" where
  "millis_i64 ns = u64_as_i64 (word_of_int (ns div 1000000))"

definition client_now :: "client_env \<Rightarrow> i64 action" where
  "client_now env =
     act (take_answer (we_clock env)) (\<lambda>ns.
       if ns < 0 then fail (Panicked ''clock before epoch'') else ret (millis_i64 ns))"

text \<open>\<open>Id::new()?\<close>\<close>

definition client_id :: "client_env \<Rightarrow> Id action" where
  "client_id env =
     act (take_answer (we_ids env)) (\<lambda>d.
       case id_new d of Inl e \<Rightarrow> fail (Boxed e) | Inr i \<Rightarrow> ret i)"

text \<open>A call of the store whose result is looked at, and one followed by \<open>?\<close>.\<close>

definition attempts ::
    "client_env \<Rightarrow> (engine \<Rightarrow> Store \<Rightarrow> disk \<Rightarrow> ('e + 'a) \<times> Store \<times> disk) \<Rightarrow> ('e + 'a) action" where
  "attempts env f =
     act (take_answer (we_engine env)) (\<lambda>en c.
       case f en (cl_store c) (cl_disk c) of (r, s, w) \<Rightarrow> (Inr r, c\<lparr>cl_store := s, cl_disk := w\<rparr>))"

definition settled :: "('e \<Rightarrow> client_error) \<Rightarrow> ('e + 'a) \<Rightarrow> 'a action" where
  "settled box r = (case r of Inl e \<Rightarrow> fail (box e) | Inr x \<Rightarrow> ret x)"

definition calls :: "client_env \<Rightarrow> ('e \<Rightarrow> client_error) \<Rightarrow> (engine \<Rightarrow> Store \<Rightarrow> disk \<Rightarrow> ('e + 'a) \<times> Store \<times> disk) \<Rightarrow> 'a action" where
  "calls env box f = act (attempts env f) (settled box)"

definition reading :: "(engine \<Rightarrow> disk \<Rightarrow> Store \<Rightarrow> ('e + 'a) \<times> Store) \<Rightarrow> engine \<Rightarrow> Store \<Rightarrow> disk \<Rightarrow> ('e + 'a) \<times> Store \<times> disk" where
  "reading f en s w = (case f en w s of (r, s) \<Rightarrow> (r, s, w))"

section \<open>Requesting a turn\<close>

definition THREADS :: str where
  "THREADS = ''threads''"

definition QUEUE :: str where
  "QUEUE = ''provider-command''"

definition client_event :: "client_env \<Rightarrow> str \<Rightarrow> str \<Rightarrow> str \<Rightarrow> Event action" where
  "client_event env stream event_type payload =
     act (client_id env) (\<lambda>i.
     act (client_now env) (\<lambda>at.
     ret (with_json_payload i stream event_type at (str_bytes payload))))"

text \<open>\<open>ProjectionPatch::new(THREADS, store.projection_version(THREADS)?).put(thread_id, st)\<close>\<close>

definition status_patch :: "client_env \<Rightarrow> str \<Rightarrow> str \<Rightarrow> ProjectionPatch action" where
  "status_patch env thread_id st =
     act (calls env Boxed (reading (\<lambda>en. store_projection_version en THREADS))) (\<lambda>v.
     ret (patch_put (patch_new THREADS v) (str_bytes thread_id)
       (str_bytes (json_object [(''status'', json_string st)]))))"

definition client_batch :: "client_env \<Rightarrow> CommitBatch action" where
  "client_batch env =
     act (client_id env) (\<lambda>i. act (client_now env) (\<lambda>at. ret (batch_new i at)))"

definition turn_payload :: str where
  "turn_payload = json_object [(''turn'', ''1'')]"

definition stream_of :: "str \<Rightarrow> str" where
  "stream_of thread_id = ''thread:'' @ thread_id"

definition request_turn :: "client_env \<Rightarrow> str \<Rightarrow> Id action" where
  "request_turn env thread_id =
     act (client_batch env) (\<lambda>b.
     act (client_event env (stream_of thread_id) ''thread.created'' (json_object [])) (\<lambda>e.
     act (status_patch env thread_id ''idle'') (\<lambda>p.
     act (calls env Boxed_Commit (\<lambda>en. store_commit en
       (apply_projection_patch (append_event (expect_stream_version b (stream_of thread_id) 0) e) p))) (\<lambda>_.
     act (say (''[commit] thread.created            threads/'' @ thread_id @ '' -> idle'')) (\<lambda>_.
     act (client_id env) (\<lambda>job_id.
     act (client_batch env) (\<lambda>b.
     act (client_event env (stream_of thread_id) ''thread.turn-requested'' turn_payload) (\<lambda>e.
     act (status_patch env thread_id ''queued'') (\<lambda>p.
     act (calls env Boxed_Commit (\<lambda>en. store_commit en
       (enqueue_job
         (apply_projection_patch (append_event (expect_stream_version b (stream_of thread_id) 1) e) p)
         (reconcilable job_id QUEUE (stream_of thread_id)
           (str_bytes (json_object [(''turn'', ''1''), (''provider'', json_string ''simulated'')])))))) (\<lambda>_.
     act (say (''[commit] thread.turn-requested     threads/'' @ thread_id @ '' -> queued, job enqueued'')) (\<lambda>_.
     ret job_id)))))))))))"

section \<open>Working on a turn\<close>

definition heartbeat :: "client_env \<Rightarrow> ClaimedJob \<Rightarrow> unit action" where
  "heartbeat env job =
     act (client_now env) (\<lambda>now.
     act (settled Panicked (ok_or (checked_add_i64 now 60000) ''attempt to add with overflow'')) (\<lambda>new_expiry.
     act (calls env Boxed_Lease (\<lambda>en. store_extend_lease en (cj_job_id job) (cj_lease_token job) new_expiry now)) (\<lambda>receipt.
     say (''[lease]  heartbeat extended lease for '' @ cj_partition_key job @ '' to now+60s (attempt ''
       @ show_nat (unat (ler_attempt receipt)) @ '')''))))"

definition start_turn :: "client_env \<Rightarrow> str \<Rightarrow> unit action" where
  "start_turn env thread_id =
     act (client_batch env) (\<lambda>b.
     act (client_event env (stream_of thread_id) ''thread.turn-started'' turn_payload) (\<lambda>e.
     act (status_patch env thread_id ''running'') (\<lambda>p.
     act (calls env Boxed_Commit (\<lambda>en. store_commit en (apply_projection_patch (append_event b e) p))) (\<lambda>_.
     say (''[commit] thread.turn-started       threads/'' @ thread_id @ '' -> running'')))))"

definition call_provider :: "ClaimedJob \<Rightarrow> unit action" where
  "call_provider job =
     say (''[effect] provider call for '' @ cj_partition_key job @ '' attempt ''
       @ show_nat (unat (cj_attempt job)) @ '' (simulated)'')"

text \<open>
  The completion: one batch; when its outcome is unknown, recovery decides whether it has to be
  submitted once more.
\<close>

definition settle_completion :: "client_env \<Rightarrow> CommitBatch \<Rightarrow> CommitError + CommitReceipt \<Rightarrow> unit action" where
  "settle_completion env batch r =
     (case r of
        Inr _ \<Rightarrow> ret ()
      | Inl (Commit_Indeterminate i) \<Rightarrow>
          act (calls env Boxed_Recovery (\<lambda>en. store_recover_transaction en (ic_transaction_id i))) (\<lambda>out.
            case out of
              Tx_Committed _ \<Rightarrow> say ''[commit] indeterminate ack resolved: committed; nothing to retry''
            | Tx_Absent \<Rightarrow>
                act (say ''[commit] indeterminate ack resolved: absent; resubmitting'') (\<lambda>_.
                act (calls env Boxed_Commit (\<lambda>en. store_commit en batch)) (\<lambda>_. ret ())))
      | Inl other \<Rightarrow> fail (Boxed_Commit other))"

definition complete_turn :: "client_env \<Rightarrow> str \<Rightarrow> ClaimedJob \<Rightarrow> unit action" where
  "complete_turn env thread_id job =
     act (client_batch env) (\<lambda>b.
     act (client_event env (stream_of thread_id) ''thread.turn-completed'' turn_payload) (\<lambda>e.
     act (status_patch env thread_id ''idle'') (\<lambda>p.
     let batch = acknowledge_job (apply_projection_patch (append_event b e) p) (cj_job_id job) (cj_lease_token job) None in
     act (attempts env (\<lambda>en. store_commit en batch)) (\<lambda>r.
     act (settle_completion env batch r) (\<lambda>_.
     say (''[commit] thread.turn-completed     threads/'' @ thread_id @ '' -> idle, job acked''))))))"

section \<open>Claiming one job\<close>

text \<open>\<open>into_jobs().remove(0)\<close>\<close>

definition first_job :: "CommittedClaims \<Rightarrow> ClaimedJob action" where
  "first_job claims =
     (case cc_jobs claims of [] \<Rightarrow> fail (Panicked ''removal index (is 0) should be < len (is 0)'') | j # _ \<Rightarrow> ret j)"

fun say_all :: "str list \<Rightarrow> unit action" where
  "say_all [] = ret ()"
| "say_all (l # ls) = act (say l) (\<lambda>_. say_all ls)"

definition claim_recovered :: "client_env \<Rightarrow> ClaimRecovery \<Rightarrow> (Id \<times> ClaimedJob) option action" where
  "claim_recovered env r =
     (case r of
        Recovered_Committed claims \<Rightarrow>
          act (say_all (map (\<lambda>i. ''[claim]  stale job '' @ to_hex i @ '': do not execute; surfaces as Uncertain'')
              (cc_stale_jobs claims))) (\<lambda>_.
            if claims_is_empty claims
            then act (say ''[claim]  recovered claim holds no executable jobs'') (\<lambda>_. ret None)
            else act (first_job claims) (\<lambda>job. ret (Some (cc_transaction_id claims, job))))
      | _ \<Rightarrow> ret None)"

text \<open>What the loop makes of one answer; \<open>None\<close> is \<open>continue\<close>.\<close>

definition claim_answer :: "client_env \<Rightarrow> str \<Rightarrow> ClaimError + ClaimOutcome \<Rightarrow> (Id \<times> ClaimedJob) option action" where
  "claim_answer env worker_id r =
     (case r of
       Inr (Committed claims) \<Rightarrow>
         act (first_job claims) (\<lambda>job.
         act (say (''[claim]  '' @ worker_id @ '' leased job on '' @ cj_partition_key job @ '' (attempt ''
           @ show_nat (unat (cj_attempt job)) @ '')'')) (\<lambda>_.
         ret (Some (cc_transaction_id claims, job))))
     | Inr (MaintenanceCommitted _) \<Rightarrow> ret None
     | Inr Noop \<Rightarrow> fail (Boxed_Text ''queue unexpectedly empty'')
     | Inl (Claim_Indeterminate claim) \<Rightarrow>
         act (say (''[claim]  indeterminate; recovering '' @ to_hex (ix_transaction_id claim))) (\<lambda>_.
         act (client_now env) (\<lambda>now.
         act (calls env Boxed_Recovery (\<lambda>en. store_recover_claim en (ix_transaction_id claim) now))
           (claim_recovered env)))
     | Inl other \<Rightarrow> fail (Boxed_Claim other))"

definition claim_round :: "client_env \<Rightarrow> str \<Rightarrow> (Id \<times> ClaimedJob) option action" where
  "claim_round env worker_id =
     act (client_now env) (\<lambda>now.
     act (attempts env (\<lambda>en. store_claim_jobs en
       \<lparr>cr_queue = QUEUE, cr_worker_id = worker_id, cr_now_ms = now, cr_lease_ms = 30000, cr_limit = 1\<rparr>))
       (claim_answer env worker_id))"

text \<open>The loop may go on for as long as the environment repeats its answers: \<open>None\<close> is not returning.\<close>

partial_function (option) claim_one ::
    "client_env \<Rightarrow> str \<Rightarrow> client \<Rightarrow> ((client_error + (Id \<times> ClaimedJob)) \<times> client) option" where
  "claim_one env worker_id c =
     (case claim_round env worker_id c of
        (Inl e, c) \<Rightarrow> Some (Inl e, c)
      | (Inr r, c) \<Rightarrow> (case r of Some x \<Rightarrow> Some (Inr x, c) | None \<Rightarrow> claim_one env worker_id c))"

end
