(* ===== verification/WorkerProperties.thy ===== *)
theory WorkerProperties
  imports Worker SystemGuarantees
begin

text \<open>
  What the example client achieves: completing a turn happens exactly once when it reports
  success and at most once in every case.
\<close>

section \<open>Actions\<close>

lemma act_eq: "act m k c = (r, c') \<longleftrightarrow>
    (\<exists>e. m c = (Inl e, c') \<and> r = Inl e) \<or> (\<exists>x c1. m c = (Inr x, c1) \<and> k x c1 = (r, c'))"
  by (auto simp: act_def split: prod.splits sum.splits)

definition client_ok :: "client \<Rightarrow> bool" where
  "client_ok c \<longleftrightarrow> disk_ok (cl_disk c) \<and> migrated (cl_disk c) \<and> handle_ok (cl_store c)"

lemma client_okD:
  assumes "client_ok c"
  shows "disk_ok (cl_disk c)" "migrated (cl_disk c)" "handle_ok (cl_store c)" "store_ok (store_of (cl_disk c))"
  using assms by (simp_all add: client_ok_def disk_ok_file)

text \<open>An action that leaves the file alone.\<close>

definition leaves_file :: "'a action \<Rightarrow> bool" where
  "leaves_file m \<longleftrightarrow> (\<forall>c r c'. m c = (r, c') \<longrightarrow> cl_disk c' = cl_disk c \<and> (client_ok c \<longrightarrow> client_ok c'))"

lemma leaves_fileD: "leaves_file m \<Longrightarrow> m c = (r, c') \<Longrightarrow> cl_disk c' = cl_disk c \<and> (client_ok c \<longrightarrow> client_ok c')"
  by (simp add: leaves_file_def)

lemma leaves_file_basic [simp]:
  "leaves_file (ret x)" "leaves_file (fail e)" "leaves_file (say l)" "leaves_file (take_answer f)"
  by (auto simp: leaves_file_def ret_def fail_def say_def take_answer_def client_ok_def)

lemma leaves_file_act [intro]: "leaves_file m \<Longrightarrow> (\<And>x. leaves_file (k x)) \<Longrightarrow> leaves_file (act m k)"
  unfolding leaves_file_def act_eq by metis

lemma leaves_file_settled [simp]: "leaves_file (settled box r)"
  by (simp add: settled_def split: sum.split)

lemma leaves_file_id [simp]: "leaves_file (client_id env)" "leaves_file (client_now env)"
  unfolding client_id_def client_now_def by (auto split: sum.split)

lemma leaves_file_attempt:
  assumes "\<And>en. \<exists>g. f en = with_reader en g"
  shows "leaves_file (attempts env (reading f))"
  unfolding leaves_file_def attempts_def act_eq
proof (intro allI impI)
  fix c r c'
  assume a: "(\<exists>e. take_answer (we_engine env) c = (Inl e, c') \<and> r = Inl e) \<or>
    (\<exists>en c1. take_answer (we_engine env) c = (Inr en, c1) \<and>
      (case reading f en (cl_store c1) (cl_disk c1) of (r, s, w) \<Rightarrow> (Inr r, c1\<lparr>cl_store := s, cl_disk := w\<rparr>)) = (r, c'))"
  obtain g where g: "f (we_engine env (cl_tick c)) = with_reader (we_engine env (cl_tick c)) g" using assms by blast
  have s: "snd (with_reader (we_engine env (cl_tick c)) g (cl_disk c) (cl_store c))
      = borrow_reader (we_engine env (cl_tick c)) (cl_disk c) (cl_store c)"
    by (rule with_reader_borrows)
  show "cl_disk c' = cl_disk c \<and> (client_ok c \<longrightarrow> client_ok c')"
    using a g s borrow_reader_ok(1) [of "cl_store c"]
    by (auto simp: take_answer_def reading_def client_ok_def split: prod.splits)
qed

lemma leaves_file_reading: "(\<And>en. \<exists>g. f en = with_reader en g) \<Longrightarrow> leaves_file (calls env box (reading f))"
  unfolding calls_def by (intro leaves_file_act leaves_file_attempt) simp_all

lemma leaves_file_patch [simp]: "leaves_file (status_patch env thread_id st)"
  unfolding status_patch_def
  by (intro leaves_file_act leaves_file_reading) (auto simp: store_projection_version_def [abs_def])

lemma leaves_file_event [simp]: "leaves_file (client_event env s ty pl)"
  unfolding client_event_def by (intro leaves_file_act) simp_all

lemma leaves_file_batch [simp]: "leaves_file (client_batch env)"
  unfolding client_batch_def by (intro leaves_file_act) simp_all

text \<open>What the actions that build a batch return.\<close>

lemma client_batch_Inr:
  assumes "client_batch env c = (Inr b, c')" and "id_new (we_ids env (cl_tick c)) = Inr t"
  shows "\<exists>at. b = batch_new t at"
  using assms
  by (auto simp: client_batch_def client_id_def client_now_def act_eq take_answer_def ret_def fail_def split: sum.splits)

lemma client_event_Inr:
  assumes "client_event env s ty pl c = (Inr e, c')"
  shows "ev_stream_id e = s \<and> ev_event_type e = ty"
  using assms
  by (auto simp: client_event_def client_id_def client_now_def act_eq take_answer_def ret_def with_json_payload_def event_new_def)

lemma status_patch_Inr:
  assumes "status_patch env thread_id st c = (Inr p, c')"
  shows "\<exists>v. p = patch_put (patch_new THREADS v) (str_bytes thread_id) (str_bytes (json_object [(''status'', json_string st)]))"
  using assms by (auto simp: status_patch_def act_eq ret_def)

section \<open>One commit through a handle\<close>

definition applied :: "CommitBatch \<Rightarrow> disk \<Rightarrow> disk \<Rightarrow> bool" where
  "applied b w w' \<longleftrightarrow> (\<exists>n. write_batch b (store_of w) = Inr (n, store_of w'))"

lemma store_commit_outcome:
  assumes "disk_ok w" "migrated w" "handle_ok s" and "store_commit en b s w = (res, s', w')"
    and "\<not> has_transaction (store_of w) (cb_transaction_id b)"
  shows "disk_ok w' \<and> migrated w' \<and> handle_ok s' \<and>
    (case res of
      Inr _ \<Rightarrow> applied b w w'
    | Inl e \<Rightarrow> (if \<exists>i. e = Commit_Indeterminate i \<and> ic_transaction_id i = cb_transaction_id b
        then store_of w' = store_of w \<or> applied b w w'
        else \<not> commit_unknown e \<and> store_of w' = store_of w))"
proof -
  note step = commit_call.on_writer_step [OF assms(1-3) assms(4) [unfolded store_commit_def]]
  have fresh: "lookup_transaction (store_of w) (cb_transaction_id b) = None"
    using assms(5) by (simp add: lookup_transaction_None)
  have "case res of
      Inr _ \<Rightarrow> applied b w w'
    | Inl e \<Rightarrow> (if \<exists>i. e = Commit_Indeterminate i \<and> ic_transaction_id i = cb_transaction_id b
        then store_of w' = store_of w \<or> applied b w w'
        else \<not> commit_unknown e \<and> store_of w' = store_of w)"
  proof (rule commit_call.on_writer_cases [OF assms(2) assms(4) [unfolded store_commit_def]])
    fix e assume "res = Inl (Commit_Storage e)" "w' = w"
    then show ?thesis by simp
  next
    fix c d
    assume "commit (sv_limits s) b (transaction_io en c) (store_of w) = (res, d)" and d: "store_of w' = d"
    then show ?thesis
      using fresh by (cases rule: commit_outcomes) (auto simp: applied_def commit_unknown_iff)
  qed
  with step show ?thesis by simp
qed

lemma store_recover_outcome:
  assumes "disk_ok w" "migrated w" "handle_ok s"
    and "store_recover_transaction en i s w = (res, s', w')"
  shows "w' = w \<and> handle_ok s' \<and> (\<forall>out. res = Inr out \<longrightarrow> recover_transaction (store_of w) i = Inr out)"
proof -
  obtain r where r: "store_connection en s w = (r, s', w')" "w' = w"
    by (rule store_recover_transaction_cases [OF assms(2,4)])
  then show ?thesis
    using connection_keeps_handle [OF assms(2) r(1) assms(3)] store_recover_Inr [OF assms(2)] assms(4) by blast
qed

section \<open>The completion of a turn\<close>

definition applied_once :: "CommitBatch \<Rightarrow> client_error + unit \<Rightarrow> disk \<Rightarrow> disk \<Rightarrow> bool" where
  "applied_once b res w w' \<longleftrightarrow>
     (if res = Inr () then applied b w w' else store_of w' = store_of w \<or> applied b w w')"

lemma calls_run:
  assumes "f (we_engine env (cl_tick c)) (cl_store c) (cl_disk c) = (r, s, w)"
  shows "calls env box f c = (case r of Inl e \<Rightarrow> Inl (box e) | Inr x \<Rightarrow> Inr x,
    c\<lparr>cl_tick := Suc (cl_tick c), cl_store := s, cl_disk := w\<rparr>)"
  using assms by (simp add: calls_def attempts_def act_def take_answer_def settled_def fail_def ret_def split: sum.split)

lemma commit_call_once:
  assumes "client_ok c" and "\<not> has_transaction (store_of (cl_disk c)) (cb_transaction_id b)"
    and "act (calls env Boxed_Commit (\<lambda>en. store_commit en b)) (\<lambda>_. ret ()) c = (res, c')"
  shows "client_ok c' \<and> applied_once b res (cl_disk c) (cl_disk c')"
proof -
  obtain r s w where com: "store_commit (we_engine env (cl_tick c)) b (cl_store c) (cl_disk c) = (r, s, w)"
    by (metis prod_cases3)
  note outcome = store_commit_outcome [OF client_okD(1-3) [OF assms(1)] com assms(2)]
  have "c' = c\<lparr>cl_tick := Suc (cl_tick c), cl_store := s, cl_disk := w\<rparr>"
    "res = (case r of Inl e \<Rightarrow> Inl (Boxed_Commit e) | Inr _ \<Rightarrow> Inr ())"
    using assms(3) unfolding act_def calls_run [where f = "\<lambda>en. store_commit en b", OF com]
    by (auto simp: ret_def split: sum.splits)
  then show ?thesis
    using outcome by (auto simp: client_ok_def applied_once_def split: sum.splits if_splits)
qed

text \<open>Recovery after an unknown outcome: what it answers is so, and nothing is written.\<close>

lemma recovery_call:
  assumes "client_ok c" and "calls env Boxed_Recovery (\<lambda>en. store_recover_transaction en i) c = (q, c')"
  shows "client_ok c' \<and> cl_disk c' = cl_disk c \<and>
    (\<forall>rc. q = Inr (Tx_Committed rc) \<longrightarrow> has_transaction (store_of (cl_disk c)) i) \<and>
    (q = Inr Tx_Absent \<longrightarrow> \<not> has_transaction (store_of (cl_disk c)) i)"
proof -
  obtain r s w where rec: "store_recover_transaction (we_engine env (cl_tick c)) i (cl_store c) (cl_disk c) = (r, s, w)"
    by (metis prod_cases3)
  note R = store_recover_outcome [OF client_okD(1-3) [OF assms(1)] rec]
  have "c' = c\<lparr>cl_tick := Suc (cl_tick c), cl_store := s, cl_disk := w\<rparr>"
    and q: "q = (case r of Inl e \<Rightarrow> Inl (Boxed_Recovery e) | Inr x \<Rightarrow> Inr x)"
    using assms(2) unfolding calls_run [where f = "\<lambda>en. store_recover_transaction en i", OF rec] by simp_all
  moreover have "q = Inr out \<Longrightarrow> recover_transaction (store_of (cl_disk c)) i = Inr out" for out
    using R q by (simp split: sum.splits)
  ultimately show ?thesis
    using R client_okD [OF assms(1)] lookup_transaction_None [of "store_of (cl_disk c)" i]
    by (fastforce simp: client_ok_def recover_as_lookup split: option.splits)
qed

lemma applied_has_transaction:
  assumes "store_ok (store_of w)" and "applied b w w'"
  shows "has_transaction (store_of w') (cb_transaction_id b)"
proof -
  obtain n where "write_batch b (store_of w) = Inr (n, store_of w')" using assms(2) by (auto simp: applied_def)
  from lookup_after_write [OF assms(1) this] show ?thesis
    using lookup_transaction_None [of "store_of w'" "cb_transaction_id b"] by simp
qed

lemma say_run: "say l c = (r, c') \<Longrightarrow> r = Inr () \<and> cl_disk c' = cl_disk c \<and> (client_ok c \<longrightarrow> client_ok c')"
  by (auto simp: say_def client_ok_def)

lemma unknown_once:
  assumes ok: "client_ok c1" "store_ok (store_of w)" and fresh: "\<not> has_transaction (store_of w) (cb_transaction_id b)"
    and before: "store_of (cl_disk c1) = store_of w \<or> applied b w (cl_disk c1)"
    and i: "ic_transaction_id i = cb_transaction_id b"
    and settle: "settle_completion env b (Inl (Commit_Indeterminate i)) c1 = (res, c')"
  shows "client_ok c' \<and> applied_once b res w (cl_disk c')"
proof -
  obtain q c2 where rec: "calls env Boxed_Recovery (\<lambda>en. store_recover_transaction en (cb_transaction_id b)) c1 = (q, c2)"
    by fastforce
  note R = recovery_call [OF ok(1) rec]
  note written = applied_has_transaction [OF ok(2)]
  show ?thesis
  proof (cases q)
    case (Inl x)
    then show ?thesis using settle rec R before i by (auto simp: settle_completion_def act_def applied_once_def)
  next
    case (Inr out)
    show ?thesis
    proof (cases out)
      case (Tx_Committed rc)
      then have "say ''[commit] indeterminate ack resolved: committed; nothing to retry'' c2 = (res, c')"
        using settle rec Inr i by (simp add: settle_completion_def act_def)
      then show ?thesis using say_run [of _ c2] R Inr Tx_Committed before fresh by (auto simp: applied_once_def)
    next
      case Tx_Absent
      obtain m1 where m1: "say ''[commit] indeterminate ack resolved: absent; resubmitting'' c2 = (Inr (), m1)"
        by (simp add: say_def)
      have "act (calls env Boxed_Commit (\<lambda>en. store_commit en b)) (\<lambda>_. ret ()) m1 = (res, c')"
        using settle rec Inr Tx_Absent i m1 by (simp add: settle_completion_def act_def [of "calls _ Boxed_Recovery _"] act_def [of "say _"])
      moreover have "\<not> has_transaction (store_of (cl_disk m1)) (cb_transaction_id b)" "client_ok m1" "cl_disk m1 = cl_disk c1"
        using R Inr Tx_Absent say_run [OF m1] by simp_all
      moreover from this have "store_of (cl_disk c1) = store_of w" using before written by auto
      ultimately show ?thesis
        using commit_call_once [of m1 b env res c'] by (auto simp: applied_once_def applied_def split: if_splits)
    qed
  qed
qed

lemma settle_once:
  assumes ok: "client_ok c" and fresh: "\<not> has_transaction (store_of (cl_disk c)) (cb_transaction_id b)"
    and com: "store_commit en b (cl_store c) (cl_disk c) = (r, s, w)"
    and c1: "cl_store c1 = s" "cl_disk c1 = w"
    and settle: "settle_completion env b r c1 = (res, c')"
  shows "client_ok c' \<and> applied_once b res (cl_disk c) (cl_disk c')"
proof -
  note first = store_commit_outcome [OF client_okD(1-3) [OF ok] com fresh]
  have ok1: "client_ok c1" using first c1 by (simp add: client_ok_def)
  consider (receipt) rc where "r = Inr rc" | (unknown) i where "r = Inl (Commit_Indeterminate i)"
    | (failed) e where "r = Inl e" "\<nexists>i. e = Commit_Indeterminate i"
    by (cases r) blast+
  then show ?thesis
  proof cases
    case receipt
    then show ?thesis using settle first ok1 c1 by (simp add: settle_completion_def ret_def applied_once_def)
  next
    case (unknown i)
    then show ?thesis
      using unknown_once [OF ok1 client_okD(4) [OF ok] fresh _ _ settle [unfolded unknown]] first c1 by (auto split: if_splits)
  next
    case (failed e)
    then have "res = Inl (Boxed_Commit e) \<and> c' = c1"
      using settle by (cases e) (auto simp: settle_completion_def fail_def)
    then show ?thesis using first failed ok1 c1 by (auto simp: applied_once_def)
  qed
qed

text \<open>The effect of the batch of a completion.\<close>

lemma completion_effect:
  assumes ok: "store_ok d" and wb: "write_batch b d = Inr (n, d')"
    and ops: "cb_operations b = [AppendEvent e, ProjectionPatch p, AckJob a]"
  shows "\<exists>r r'. r \<in> set (db_jobs d) \<and> jr_job_id r = ack_job_id a \<and> jr_state r = Leased \<and>
      jr_lease_token r = Some (ack_lease_token a) \<and> r' \<in> set (db_jobs d') \<and> same_job r r' \<and> jr_state r' = Succeeded"
    and "projection_map d' (pp_projection p) = fold mutate (pp_mutations p) (projection_map d (pp_projection p))"
    and "map row_event (db_events d') = map row_event (db_events d) @ [e]"
proof -
  show "map row_event (db_events d') = map row_event (db_events d) @ [e]"
    using write_batch_InrD(6) [OF ok wb] by (auto simp: appends_def batch_events_def ops)
  obtain vs d1 seq v v1 d2 d3 d4 where
    seq: "next_sequence ''transactions.transaction_sequence'' (map tr_transaction_sequence (db_transactions d)) = Inr seq"
    and d1: "insert_transaction (batch_row b seq) d = Inr d1"
    and ev: "insert_event (cb_transaction_id b) e v d1 = Inr d2"
    and pr: "apply_patch p d2 = Inr d3"
    and ack: "apply_ack (cb_transaction_id b) (cb_committed_at_ms b) a d3 = Inr d4"
    and d': "d' = upsert_streams v1 d4"
    using wb by (auto simp: write_batch_def ops and_then_Inr_iff map_err_Inr_iff Let_def)
  have "tr_transaction_sequence (batch_row b seq) = seq" by (simp add: batch_row_def)
  note T = insert_transaction_ok [OF ok seq d1 this]
  have d2: "db_jobs d2 = db_jobs d1" "db_active_partitions d2 = db_active_partitions d1"
    "db_claim_receipts d2 = db_claim_receipts d1" "db_transactions d2 = db_transactions d1"
    "db_projection_entries d2 = db_projection_entries d1" "db_projection_meta d2 = db_projection_meta d1"
    using ev by (auto simp: insert_event_def insert_event_row_Inr)
  have proj: "projections_ok d2" "projection_map d2 = projection_map d"
    using store_okD(4) [OF T(1)] projections_ok_cong [of d2 d1] d2(5,6)
    by (auto simp: projection_map_def [abs_def] T(3))
  note P = apply_patch_outcome [OF proj(1), of p, unfolded pr, simplified]
  note frame = only_projectionD [OF P [THEN conjunct2, THEN conjunct2, THEN conjunct2, THEN conjunct2, THEN conjunct1]]
  have jobs: "jobs_ok d3" "db_jobs d3 = db_jobs d"
    using store_okD(5) [OF T(1)] jobs_ok_cong [of d3 d1] frame d2 by (simp_all add: T(3))
  obtain r r' where r: "r \<in> set (db_jobs d3)" "jr_job_id r = ack_job_id a"
      "ack_row (cb_transaction_id b) (cb_committed_at_ms b) a r = Inr r'" "row_step r r'" "d4 = put_row r' d3"
    by (rule ack.on_job_InrD [OF jobs(1) ack [unfolded apply_ack_on_job [OF jobs(1)]]])
  have "r' \<in> set (db_jobs d4)"
    using set_update_rows [OF _ r(1)] jobs(1) same_jobD(1) [OF row_stepD(1) [OF r(4)]] r(5) by (simp add: jobs_ok_def)
  moreover have "jr_state r = Leased \<or> jr_state r = Uncertain" "jr_lease_token r = Some (ack_lease_token a)" "jr_state r' = Succeeded"
    using r(3) by (auto simp: ack_row_def and_then_Inr_iff ensure_lease_token_def guard_iff can_transition_iff)
  moreover have "jr_state r = Uncertain \<Longrightarrow> jr_lease_token r = None"
    using rows_okD(3) [OF _ r(1)] jobs(1) by (auto simp: jobs_ok_def job_row_ok_def job_checks_def)
  moreover have "db_jobs d' = db_jobs d4" by (simp add: d' upsert_streams_def)
  ultimately show "\<exists>r r'. r \<in> set (db_jobs d) \<and> jr_job_id r = ack_job_id a \<and> jr_state r = Leased \<and>
      jr_lease_token r = Some (ack_lease_token a) \<and> r' \<in> set (db_jobs d') \<and> same_job r r' \<and> jr_state r' = Succeeded"
    using r(1,2) row_stepD(1) [OF r(4)] unfolding jobs(2) by (metis option.distinct(1))
  have "projection_map d' = projection_map d3"
    using only_jobsD [OF put_row_only_jobs [of d3 r']] by (auto simp: projection_map_def [abs_def] d' upsert_streams_def r(5))
  then show "projection_map d' (pp_projection p) = fold mutate (pp_mutations p) (projection_map d (pp_projection p))"
    using P proj(2) by simp
qed

text \<open>
  A turn is completed once: one event more in the log, the job of the client, which it held the
  lease of, has succeeded, and the status of the thread is idle.
\<close>

definition turn_completed :: "str \<Rightarrow> ClaimedJob \<Rightarrow> db \<Rightarrow> db \<Rightarrow> bool" where
  "turn_completed thread_id job d d' \<longleftrightarrow>
     (\<exists>e. map row_event (db_events d') = map row_event (db_events d) @ [e] \<and>
        ev_stream_id e = stream_of thread_id \<and> ev_event_type e = ''thread.turn-completed'') \<and>
     (\<exists>r r'. r \<in> set (db_jobs d) \<and> jr_job_id r = cj_job_id job \<and> jr_state r = Leased \<and>
        jr_lease_token r = Some (cj_lease_token job) \<and> r' \<in> set (db_jobs d') \<and> same_job r r' \<and> jr_state r' = Succeeded) \<and>
     projection_map d' THREADS = (projection_map d THREADS)
       (str_bytes thread_id \<mapsto> str_bytes (json_object [(''status'', json_string ''idle'')]))"

lemma completion_applied:
  assumes "store_ok (store_of w)" and "applied (acknowledge_job (apply_projection_patch (append_event (batch_new t at) e) p)
      (cj_job_id job) (cj_lease_token job) None) w w'"
    and "ev_stream_id e = stream_of thread_id" "ev_event_type e = ''thread.turn-completed''"
    and "p = patch_put (patch_new THREADS v) (str_bytes thread_id) (str_bytes (json_object [(''status'', json_string ''idle'')]))"
  shows "turn_completed thread_id job (store_of w) (store_of w')"
proof -
  let ?b = "acknowledge_job (apply_projection_patch (append_event (batch_new t at) e) p) (cj_job_id job) (cj_lease_token job) None"
  let ?a = "\<lparr>ack_job_id = cj_job_id job, ack_lease_token = cj_lease_token job, ack_result_digest = None\<rparr>"
  obtain n where wb: "write_batch ?b (store_of w) = Inr (n, store_of w')" using assms(2) by (auto simp: applied_def)
  have ops: "cb_operations ?b = [AppendEvent e, ProjectionPatch p, AckJob ?a]"
    by (simp add: acknowledge_job_def apply_projection_patch_def append_event_def push_operation_def batch_new_def)
  note E = completion_effect [OF assms(1) wb ops]
  have "pp_projection p = THREADS" "pp_mutations p = [Put (str_bytes thread_id) (str_bytes (json_object [(''status'', json_string ''idle'')]))]"
    by (simp_all add: assms(5) patch_put_def patch_push_def patch_new_def)
  then show ?thesis
    using E assms(3,4) by (auto simp: turn_completed_def mutate_fun)
qed

lemma act_leaves:
  assumes "leaves_file m" and "client_ok c" and "act m k c = (r, c')"
  obtains (stopped) x where "r = Inl x" "client_ok c'" "cl_disk c' = cl_disk c"
  | (continues) x c1 where "m c = (Inr x, c1)" "k x c1 = (r, c')" "client_ok c1" "cl_disk c1 = cl_disk c"
  using assms leaves_fileD [OF assms(1)] unfolding act_eq by metis

lemma complete_turn_cases:
  assumes "client_ok c" and "complete_turn env thread_id job c = (res, c')" and "id_new (we_ids env (cl_tick c)) = Inr t"
  obtains (stopped) x where "res = Inl x" "client_ok c'" "cl_disk c' = cl_disk c"
  | (submitted) b at e p v c3 en r s w c4 c5 res5 where
      "b = acknowledge_job (apply_projection_patch (append_event (batch_new t at) e) p) (cj_job_id job) (cj_lease_token job) None"
      "ev_stream_id e = stream_of thread_id" "ev_event_type e = ''thread.turn-completed''"
      "p = patch_put (patch_new THREADS v) (str_bytes thread_id) (str_bytes (json_object [(''status'', json_string ''idle'')]))"
      "client_ok c3" "cl_disk c3 = cl_disk c" "store_commit en b (cl_store c3) (cl_disk c3) = (r, s, w)"
      "cl_store c4 = s" "cl_disk c4 = w" "settle_completion env b r c4 = (res5, c5)"
      "res = res5" "cl_disk c' = cl_disk c5" "cl_store c' = cl_store c5"
proof -
  let ?batch = "\<lambda>b e p. acknowledge_job (apply_projection_patch (append_event b e) p) (cj_job_id job) (cj_lease_token job) None"
  define last where "last = (\<lambda>b. act (attempts env (\<lambda>en. store_commit en b)) (\<lambda>r.
     act (settle_completion env b r) (\<lambda>_.
     say (''[commit] thread.turn-completed     threads/'' @ thread_id @ '' -> idle, job acked''))))"
  have run: "act (client_batch env) (\<lambda>b. act (client_event env (stream_of thread_id) ''thread.turn-completed'' turn_payload) (\<lambda>e.
      act (status_patch env thread_id ''idle'') (\<lambda>p. last (?batch b e p)))) c = (res, c')"
    using assms(2) by (simp add: complete_turn_def last_def Let_def)
  show ?thesis
  proof (cases rule: act_leaves [OF leaves_file_batch assms(1) run])
    case (2 b0 c1)
    obtain at where at: "b0 = batch_new t at" using client_batch_Inr [OF 2(1) assms(3)] by blast
    show ?thesis
    proof (cases rule: act_leaves [OF leaves_file_event 2(3,2)])
      case e: (2 e c2)
      show ?thesis
      proof (cases rule: act_leaves [OF leaves_file_patch e(3,2)])
        case p: (2 p c3)
        obtain r s w where com: "store_commit (we_engine env (cl_tick c3)) (?batch b0 e p) (cl_store c3) (cl_disk c3) = (r, s, w)"
          by (metis prod_cases3)
        define c4 where "c4 = c3\<lparr>cl_tick := Suc (cl_tick c3), cl_store := s, cl_disk := w\<rparr>"
        obtain res5 c5 where s5: "settle_completion env (?batch b0 e p) r c4 = (res5, c5)" by fastforce
        have "(res, c') = (case res5 of Inl x \<Rightarrow> (Inl x, c5)
            | Inr _ \<Rightarrow> say (''[commit] thread.turn-completed     threads/'' @ thread_id @ '' -> idle, job acked'') c5)"
          using p(2) com s5 unfolding last_def act_eq attempts_def take_answer_def c4_def
          by (cases res5) (auto simp: act_def)
        then have "res = res5" "cl_disk c' = cl_disk c5" "cl_store c' = cl_store c5"
          by (auto simp: say_def split: sum.splits)
        then show ?thesis
          using submitted [OF refl _ _ _ p(3) _ com [unfolded at] _ _ s5 [unfolded at]] client_event_Inr [OF e(1)]
            status_patch_Inr [OF p(1)] 2(4) e(4) p(4) by (auto simp: c4_def)
      qed (use stopped 2 e in simp)
    qed (use stopped 2 in simp)
  qed (use stopped in simp)
qed

text \<open>
  C6: completing a turn is exactly-once, whatever the engine answers to the commit, to the
  recovery after an unknown outcome, and to the second commit: when the function returns normally
  the completion (event, projection and acknowledgement of the held lease) was applied exactly
  once, and when it returns an error it was applied once or not at all.
\<close>

theorem complete_turn_once:
  assumes "client_ok c" and "complete_turn env thread_id job c = (res, c')"
    and "id_new (we_ids env (cl_tick c)) = Inr t" and "\<not> has_transaction (store_of (cl_disk c)) t"
  shows "client_ok c' \<and>
    (if res = Inr () then turn_completed thread_id job (store_of (cl_disk c)) (store_of (cl_disk c'))
     else store_of (cl_disk c') = store_of (cl_disk c) \<or>
       turn_completed thread_id job (store_of (cl_disk c)) (store_of (cl_disk c')))"
  using assms(1-3)
proof (cases rule: complete_turn_cases)
  case stopped
  then show ?thesis by simp
next
  case (submitted b at e p v c3 en r s w c4 c5 res5)
  have "cb_transaction_id b = t"
    by (simp add: submitted(1) acknowledge_job_def apply_projection_patch_def append_event_def push_operation_def batch_new_def)
  then have fresh: "\<not> has_transaction (store_of (cl_disk c3)) (cb_transaction_id b)"
    using assms(4) submitted(6) by simp
  note once = settle_once [OF submitted(5) fresh submitted(7-10)]
  have "client_ok c'" using once submitted(12,13) by (simp add: client_ok_def)
  moreover have "turn_completed thread_id job (store_of (cl_disk c)) (store_of (cl_disk c'))"
    if "applied b (cl_disk c3) (cl_disk c5)"
    using completion_applied [OF client_okD(4) [OF assms(1)] _ submitted(2-4)] that submitted(1,6,12) by simp
  ultimately show ?thesis using once submitted(6,11,12) by (auto simp: applied_once_def split: if_splits)
qed

section \<open>A concrete turn\<close>

definition sample_client_env :: client_env where
  "sample_client_env = \<lparr>we_engine = (\<lambda>_. sample_engine), we_clock = (\<lambda>_. 21000000),
     we_ids = (\<lambda>n. Draw (as_bytes (id_from_u128 (of_nat n + 50))))\<rparr>"

definition sample_client :: client where
  "sample_client = \<lparr>cl_store = sample_store, cl_disk = Some (sample_file\<lparr>df_store := sample_claimed_db\<rparr>),
     cl_tick = 0, cl_out = []\<rparr>"

lemma millis_21: "millis_i64 21000000 = 21"
  by (simp add: millis_i64_def u64_as_i64_def)

lemma sample_client_ok: "client_ok sample_client"
  using written_disk [of "Some sample_file" sample_claimed_db] sample_file reachable_handle(1,3,4) [OF sample_run(1), of sample_store]
    sample_claimed_ok(1)
  by (simp add: client_ok_def sample_client_def migrated_def sample_system_def)

lemma sample_ids: "id_new (we_ids sample_client_env 0) = Inr (id_from_u128 50)"
  "id_new (we_ids sample_client_env 2) = Inr (id_from_u128 52)"
  by (simp_all add: sample_client_env_def id_new_as_bytes del: id_new.simps)

definition sample_completed_event :: Event where
  "sample_completed_event =
     with_json_payload (id_from_u128 52) (stream_of ''t'') ''thread.turn-completed'' 21 (str_bytes turn_payload)"

definition sample_idle :: ProjectionPatch where
  "sample_idle = patch_put (patch_new THREADS 0) (str_bytes ''t'') (str_bytes (json_object [(''status'', json_string ''idle'')]))"

definition sample_completion :: CommitBatch where
  "sample_completion =
     acknowledge_job (apply_projection_patch (append_event (batch_new (id_from_u128 50) 21) sample_completed_event) sample_idle)
       (cj_job_id sample_claimed) (cj_lease_token sample_claimed) None"

lemma sample_completion_fields: "cb_transaction_id sample_completion = MkId 50" "cb_committed_at_ms sample_completion = 21"
  "cb_metadata sample_completion = []"
  "cb_expected_stream_versions sample_completion = []"
  "cb_operations sample_completion = [AppendEvent sample_completed_event, ProjectionPatch sample_idle, AckJob sample_ack]"
  by (simp_all add: sample_completion_def acknowledge_job_def apply_projection_patch_def append_event_def
      push_operation_def batch_new_def sample_ack_def sample_claimed_def)

lemma sample_idle_fields: "pp_projection sample_idle = ''threads''" "pp_expected_version sample_idle = 0"
  "patch_validate sample_idle = Inr ()" "length (pp_mutations sample_idle) = 1"
  by (simp_all add: sample_idle_def patch_put_def patch_push_def patch_new_def THREADS_def patch_validate_def
      saturating_add_u64_def seen_insert_def)

lemma sample_texts: "length (str_bytes turn_payload) \<le> 100"
  "length (str_bytes (json_object [(''status'', json_string ''idle'')])) \<le> 100"
  by (simp_all add: turn_payload_def json_object_def quoted_def json_string_def json_escape_def json_escape_char_def str_bytes_def)

lemma sample_completed_event_fields: "ev_stream_id sample_completed_event = ''thread:t''" "ev_event_id sample_completed_event = MkId 52"
  "ev_event_type sample_completed_event = ''thread.turn-completed''" "length (ev_payload sample_completed_event) \<le> 100"
  "ev_metadata sample_completed_event = []"
  using sample_texts
  by (simp_all add: sample_completed_event_def with_json_payload_def event_new_def stream_of_def)

lemma sample_mutations: "pp_mutations sample_idle = [Put (str_bytes ''t'') (str_bytes (json_object [(''status'', json_string ''idle'')]))]"
  by (simp add: sample_idle_def patch_put_def patch_push_def patch_new_def)

lemma sample_completion_valid: "validate_batch default_limits sample_completion = Inr ()"
proof -
  have "validate_operation default_limits (AppendEvent sample_completed_event) = Inr ()"
    using sample_completed_event_fields
    by (simp add: default_limits_def validate_string_def validate_event_def)
  moreover have "validate_operation default_limits (ProjectionPatch sample_idle) = Inr ()"
    using sample_texts(2)
    by (simp add: sample_idle_fields sample_mutations default_limits_def validate_string_def
        validate_projection_key_def validate_projection_value_def)
  moreover have "validate_operation default_limits (AckJob sample_ack) = Inr ()"
    by (simp add: sample_ack_def sample_token_def)
  ultimately show ?thesis
    by (simp add: validate_batch_def sample_completion_fields validate_metadata_def default_limits_def del: validate_operation.simps)
qed

lemma sample_completion_writes: "\<exists>n d. write_batch sample_completion sample_claimed_db = Inr (n, d)"
proof -
  let ?row = "batch_row sample_completion 3"
  have tx: "insert_transaction ?row sample_claimed_db
      = Inr (sample_claimed_db\<lparr>db_transactions := db_transactions sample_claimed_db @ [?row]\<rparr>)" (is "_ = Inr ?d1")
    and seq: "next_sequence t (map tr_transaction_sequence (db_transactions sample_claimed_db)) = Inr 3" for t
    by (simp_all add: insert_transaction_def next_sequence_def i64_max_def has_transaction_def sample_claimed_db_def
        sample_db_def batch_row_def claim_row_def sample_completion_fields sample_batch_def sample_simps sample_claim_id_def)
  have "\<exists>d2. insert_event (MkId 50) sample_completed_event 1 ?d1 = Inr d2 \<and> db_jobs d2 = db_jobs ?d1 \<and>
      db_active_partitions d2 = db_active_partitions ?d1 \<and> db_projection_meta d2 = [] \<and> db_projection_entries d2 = []"
    by (simp add: insert_event_def insert_event_row_def sample_claimed_db_def sample_db_def empty_db_def i64_max_def
        sample_event_row_def sample_completed_event_fields has_transaction_def batch_row_def sample_completion_fields u64_as_i64_def)
  then obtain d2 where ev: "insert_event (MkId 50) sample_completed_event 1 ?d1 = Inr d2"
    and d2: "db_jobs d2 = [sample_leased]" "db_active_partitions d2 = [((''q'', ''p''), 1)]" "db_projection_meta d2 = []"
      "db_projection_entries d2 = []"
    by (auto simp: sample_claimed_db_def sample_db_def)
  have "\<exists>d3. apply_patch sample_idle d2 = Inr d3 \<and> db_jobs d3 = [sample_leased] \<and> db_active_partitions d3 = [((''q'', ''p''), 1)]"
    using d2 by (simp add: apply_patch_def version_query_def version_of_def sample_idle_fields sample_mutations i64_as_u64_def
        upsert_projection_meta_def upsert_projection_entry_def)
  then obtain d3 where pr: "apply_patch sample_idle d2 = Inr d3"
    and d3: "db_jobs d3 = [sample_leased]" "db_active_partitions d3 = [((''q'', ''p''), 1)]" by blast
  have "job_checks (terminal_row Succeeded 21 (MkId 50) None None sample_leased)"
    using sample_leased_ok by (simp add: job_row_ok_def job_checks_def terminal_row_def)
  then have "\<exists>d4. apply_ack (MkId 50) 21 sample_ack d3 = Inr d4"
    using d3(1) by (simp add: apply_ack_def require_job_def ensure_transition_def ensure_lease_token_def sample_ack_def
        sample_leased_fields set_terminal_def update_job_def update_rows_def)
  then obtain d4 where ack: "apply_ack (MkId 50) 21 sample_ack d3 = Inr d4" by blast
  have "current_stream_version ?d1 ''thread:t'' = 0"
    by (simp add: current_stream_version_def version_of_def sample_claimed_db_def sample_db_def i64_as_u64_def)
  then show ?thesis
    using tx seq ev pr ack
    by (simp add: write_batch_def sample_completion_fields sample_completed_event_fields checked_add_u64_def)
qed

lemma sample_commit_completes:
  assumes "sv_writer s = sv_writer sample_store" and "sv_limits s = default_limits"
  shows "\<exists>rc d. store_commit sample_engine sample_completion s (Some (sample_file\<lparr>df_store := sample_claimed_db\<rparr>))
    = (Inr rc, s, Some (sample_file\<lparr>df_store := d\<rparr>))"
proof -
  obtain n d where wb: "write_batch sample_completion sample_claimed_db = Inr (n, d)" using sample_completion_writes by blast
  have "lookup_transaction sample_claimed_db (MkId 50) = None"
    by (simp add: lookup_transaction_def sample_claimed_db_def sample_db_def batch_row_def claim_row_def sample_simps sample_claim_id_def)
  then have "\<exists>rc. commit default_limits sample_completion healthy sample_claimed_db = (Inr rc, d)"
    using wb by (simp add: commit_def sample_completion_valid healthy_def attempt_batch_def commit_step_def sample_completion_fields)
  then show ?thesis
    using assms by (auto simp: store_commit_def on_writer_def store_connection_def sample_store_simps transaction_io_def sample_engine_def)
qed

lemma sample_turn_completes: "\<exists>c'. complete_turn sample_client_env ''t'' sample_claimed sample_client = (Inr (), c')"
proof -
  have env: "we_engine sample_client_env n = sample_engine" "we_clock sample_client_env n = 21000000" "millis_i64 21000000 = 21" for n
    by (simp_all add: sample_client_env_def millis_21)
  have c: "cl_tick sample_client = 0" "cl_store sample_client = sample_store"
    "cl_disk sample_client = Some (sample_file\<lparr>df_store := sample_claimed_db\<rparr>)"
    by (simp_all add: sample_client_def)
  let ?c1 = "sample_client\<lparr>cl_tick := 2\<rparr>" and ?c2 = "sample_client\<lparr>cl_tick := 4\<rparr>"
  have batch: "client_batch sample_client_env sample_client = (Inr (batch_new (MkId 50) 21), ?c1)"
    using sample_ids by (simp add: client_batch_def client_id_def client_now_def act_def take_answer_def ret_def c env numeral_2_eq_2)
  have event: "client_event sample_client_env (stream_of ''t'') ''thread.turn-completed'' turn_payload ?c1
      = (Inr sample_completed_event, ?c2)"
    using sample_ids
    by (simp add: client_event_def client_id_def client_now_def act_def take_answer_def ret_def c env sample_completed_event_def eval_nat_numeral)
  obtain pool where version: "store_projection_version sample_engine THREADS
      (Some (sample_file\<lparr>df_store := sample_claimed_db\<rparr>)) sample_store = (Inr 0, sample_store\<lparr>sv_readers := pool\<rparr>)"
    by (simp add: store_projection_version_def with_reader_def pool_take_def sample_store_def built_store_def pool_new_def
        open_reader_def connection_open_existing_def run_pragmas_healthy run_pragma_def sample_engine_def sample_file
        projection_version_def version_query_def version_of_def sample_claimed_db_def sample_db_def i64_as_u64_def
        builder_new_def empty_db_def)
  let ?s = "sample_store\<lparr>sv_readers := pool\<rparr>"
  let ?c3 = "sample_client\<lparr>cl_tick := 5, cl_store := ?s\<rparr>"
  have patch: "status_patch sample_client_env ''t'' ''idle'' ?c2 = (Inr sample_idle, ?c3)"
    using version c by (simp add: status_patch_def calls_def attempts_def reading_def act_def take_answer_def settled_def ret_def
        env sample_idle_def eval_nat_numeral)
  obtain rc d where "store_commit sample_engine sample_completion ?s (Some (sample_file\<lparr>df_store := sample_claimed_db\<rparr>))
      = (Inr rc, ?s, Some (sample_file\<lparr>df_store := d\<rparr>))"
    using sample_commit_completes [of ?s] sample_store_simps by auto
  then have "attempts sample_client_env (\<lambda>en. store_commit en sample_completion) ?c3
      = (Inr (Inr rc), sample_client\<lparr>cl_tick := 6, cl_store := ?s, cl_disk := Some (sample_file\<lparr>df_store := d\<rparr>)\<rparr>)"
    using c by (simp add: attempts_def act_def take_answer_def env eval_nat_numeral)
  moreover have "complete_turn sample_client_env ''t'' sample_claimed sample_client
      = act (attempts sample_client_env (\<lambda>en. store_commit en sample_completion)) (\<lambda>r.
        act (settle_completion sample_client_env sample_completion r) (\<lambda>_.
        say (''[commit] thread.turn-completed     threads/'' @ ''t'' @ '' -> idle, job acked''))) ?c3"
    using batch event patch
    by (simp add: complete_turn_def act_def [of "client_batch _"] act_def [of "client_event _ _ _ _"] act_def [of "status_patch _ _ _"]
        Let_def sample_completion_def)
  ultimately show ?thesis
    by (simp add: act_def settle_completion_def ret_def say_def)
qed

theorem complete_turn_once_witness:
  "\<exists>c'. complete_turn sample_client_env ''t'' sample_claimed sample_client = (Inr (), c') \<and>
     turn_completed ''t'' sample_claimed sample_claimed_db (store_of (cl_disk c'))"
proof -
  obtain c' where run: "complete_turn sample_client_env ''t'' sample_claimed sample_client = (Inr (), c')"
    using sample_turn_completes by blast
  have "store_of (cl_disk sample_client) = sample_claimed_db" by (simp add: sample_client_def store_of_def)
  moreover have "cl_tick sample_client = 0" by (simp add: sample_client_def)
  moreover have "\<not> has_transaction sample_claimed_db (id_from_u128 50)"
    by (simp add: has_transaction_def sample_claimed_db_def sample_db_def batch_row_def claim_row_def sample_simps sample_claim_id_def)
  ultimately show ?thesis
    using complete_turn_once [OF sample_client_ok run, of "id_from_u128 50"] run sample_ids(1) by simp
qed

end
