(* ===== verification/ClaimFairness.thy ===== *)
theory ClaimFairness
  imports ClaimTheorems
begin

text \<open>
  The round robin over partitions is fair: a ready job that a claim passes over moves strictly
  closer to its turn, so it waits for at most as many claims as partitions are visited before it.
\<close>

section \<open>The rotation\<close>

text \<open>The partitions up to the cursor are visited last.\<close>

definition past_cursor :: "str option \<Rightarrow> str \<Rightarrow> bool" where
  "past_cursor c p = (case c of None \<Rightarrow> False | Some x \<Rightarrow> p \<le> x)"

definition visited_before :: "str option \<Rightarrow> str \<Rightarrow> str \<Rightarrow> bool" where
  "visited_before c x p \<longleftrightarrow>
     \<not> past_cursor c x \<and> past_cursor c p \<or> past_cursor c x = past_cursor c p \<and> x < p"

lemma sorted_takeWhile: "sorted xs \<Longrightarrow> takeWhile (\<lambda>x. x \<le> c) xs = filter (\<lambda>x. x \<le> c) xs"
proof (induction xs)
  case (Cons x xs)
  then show ?case by (cases "x \<le> c") (use order_trans in \<open>auto simp: empty_filter_conv\<close>)
qed simp

lemma sorted_dropWhile: "sorted xs \<Longrightarrow> dropWhile (\<lambda>x. x \<le> c) xs = filter (\<lambda>x. \<not> x \<le> c) xs"
proof (induction xs)
  case (Cons x xs)
  then have "\<not> x \<le> c \<Longrightarrow> filter (\<lambda>x. \<not> x \<le> c) xs = xs" by (auto simp: filter_id_conv)
  with Cons show ?case by auto
qed simp

lemma lease_order_filter:
  "lease_order d q = filter (\<lambda>p. \<not> past_cursor (cursor_of d q) p) (partitions_of d q)
     @ filter (past_cursor (cursor_of d q)) (partitions_of d q)"
proof (cases "cursor_of d q")
  case None
  then show ?thesis by (simp add: lease_order_def Let_def past_cursor_def)
next
  case (Some c)
  have s: "sorted (partitions_of d q)" by (simp add: partitions_of_def)
  show ?thesis
    using Some sorted_takeWhile [OF s, of c] sorted_dropWhile [OF s, of c]
    by (simp add: lease_order_def Let_def partition_point_def past_cursor_def [abs_def]
        takeWhile_eq_take [symmetric] dropWhile_eq_drop [symmetric])
qed

lemma sorted_before:
  assumes "sorted xs" and "distinct xs" and "p \<in> set xs"
  shows "set (takeWhile (\<lambda>x. x \<noteq> p) xs) = {x \<in> set xs. x < p}"
  using assms
proof (induction xs)
  case (Cons x xs)
  show ?case
  proof (cases "x = p")
    case True
    then show ?thesis using Cons.prems by auto
  next
    case False
    then show ?thesis using Cons by (auto simp: order_less_le)
  qed
qed simp

lemma before_in_order:
  assumes "distinct (map fst (db_active_partitions d))" and "p \<in> set (partitions_of d q)"
  shows "set (takeWhile (\<lambda>x. x \<noteq> p) (lease_order d q))
    = {x \<in> set (partitions_of d q). visited_before (cursor_of d q) x p}"
proof -
  let ?ps = "partitions_of d q" and ?past = "past_cursor (cursor_of d q)"
  have "distinct (lease_order d q)" by (rule lease_order_distinct [OF assms(1)])
  then have parts: "distinct (filter (\<lambda>p. \<not> ?past p) ?ps)" "distinct (filter ?past ?ps)"
    unfolding lease_order_filter by (simp_all only: distinct_append)
  have sorted: "sorted (filter P ?ps)" for P
    by (rule sorted_wrt_filter) (simp add: partitions_of_def)
  show ?thesis
  proof (cases "?past p")
    case True
    then have "p \<in> set (filter ?past ?ps)" using assms(2) by simp
    note B = sorted_before [OF sorted parts(2) this]
    have "takeWhile (\<lambda>x. x \<noteq> p) (lease_order d q)
        = filter (\<lambda>p. \<not> ?past p) ?ps @ takeWhile (\<lambda>x. x \<noteq> p) (filter ?past ?ps)"
      unfolding lease_order_filter using True by (intro takeWhile_append2) auto
    then show ?thesis using B True by (auto simp: visited_before_def)
  next
    case False
    then have p: "p \<in> set (filter (\<lambda>p. \<not> ?past p) ?ps)" using assms(2) by simp
    have "takeWhile (\<lambda>x. x \<noteq> p) (lease_order d q) = takeWhile (\<lambda>x. x \<noteq> p) (filter (\<lambda>p. \<not> ?past p) ?ps)"
      unfolding lease_order_filter using p by (intro takeWhile_append1) auto
    then show ?thesis using sorted_before [OF sorted parts(1) p] False by (auto simp: visited_before_def)
  qed
qed

text \<open>Moving the cursor to a partition that comes before \<open>p\<close> shortens the way to \<open>p\<close>.\<close>

lemma cursor_advances:
  assumes "visited_before c l p"
  shows "visited_before (Some l) x p \<Longrightarrow> visited_before c x p \<and> x \<noteq> l"
  using assms by (auto simp: visited_before_def past_cursor_def split: option.splits)

section \<open>What a claim leaves of the partitions\<close>

lemma drain_partitions:
  "set (db_active_partitions (drain_partition_if_empty q p d)) \<subseteq> set (db_active_partitions d)"
  by (auto simp: drain_partition_if_empty_def AList.delete_eq)

lemma update_job_partitions: "update_job i f d = Inr d' \<Longrightarrow> db_active_partitions d' = db_active_partitions d"
  by (auto simp: update_job_def split: if_splits)

lemma run_maintenance_partitions:
  assumes "run_maintenance req t a d = Inr d'"
  shows "set (db_active_partitions d') \<subseteq> set (db_active_partitions d)"
  using assms drain_partitions
  by (fastforce simp: run_maintenance_def set_terminal_def set_nonterminal_def and_then_Inr_iff map_err_Inr_iff
      dest: update_job_partitions split: if_splits)

lemma grant_lease_partitions:
  assumes "grant_lease req e t l (claimed, d) = Inr (claimed', d')"
  shows "db_active_partitions d' = db_active_partitions d"
  using assms
  by (auto simp: grant_lease_def Let_def and_then_Inr_iff map_err_Inr_iff insert_receipt_def
      dest: update_job_partitions split: if_splits)

text \<open>What every statement of a claim keeps, the claim keeps.\<close>

lemma write_claim_invariant:
  assumes "write_claim req e t ms ls part d = Inr (claimed, d')" and "P d"
    and "\<And>n d d'. insert_claim_transaction t req n d = Inr d' \<Longrightarrow> P d \<Longrightarrow> P d'"
    and "\<And>a d d'. run_maintenance req t a d = Inr d' \<Longrightarrow> P d \<Longrightarrow> P d'"
    and "\<And>l c d c' d'. grant_lease req e t l (c, d) = Inr (c', d') \<Longrightarrow> P d \<Longrightarrow> P d'"
    and "\<And>p d. P d \<Longrightarrow> P (advance_cursor (cr_queue req) p d)"
  shows "P d'"
proof -
  obtain d0 d1 d2 where ins: "insert_claim_transaction t req (length ms + length ls) d = Inr d0"
    and m: "fold_res (run_maintenance req t) ms d0 = Inr d1"
    and g: "fold_res (grant_lease req e t) ls ([], d1) = Inr (claimed, d2)"
    and d': "d' = advance_cursor (cr_queue req) part d2"
    using assms(1) by (auto simp: write_claim_def and_then_Inr_iff)
  have "P d0" by (rule assms(3) [OF ins assms(2)])
  then have "P d1" by (rule fold_res_invariant [OF m]) (rule assms(4))
  then have "P (snd ([] :: ClaimedJob list, d1))" by simp
  then have "P (snd (claimed, d2))"
    by (rule fold_res_invariant [OF g]) (use assms(5) in \<open>metis prod.collapse\<close>)
  then show ?thesis using assms(6) d' by simp
qed

lemma claim_invariant:
  assumes "claim_jobs req ent io d = (Inr out, d')" and "P d"
    and "\<And>t n d d'. insert_claim_transaction t req n d = Inr d' \<Longrightarrow> P d \<Longrightarrow> P d'"
    and "\<And>t a d d'. run_maintenance req t a d = Inr d' \<Longrightarrow> P d \<Longrightarrow> P d'"
    and "\<And>e t l c d c' d'. grant_lease req e t l (c, d) = Inr (c', d') \<Longrightarrow> P d \<Longrightarrow> P d'"
    and "\<And>p d. P d \<Longrightarrow> P (advance_cursor (cr_queue req) p d)"
  shows "P d'"
proof -
  have "P v" if "commit_claim io t d (attempt_claim io req e u ms ls part d) = (Inr out, v)" for t e u ms ls part v
    using that assms(2) write_claim_invariant [of req e u ms ls part d _ _ P, OF _ _ assms(3-6)]
    by (auto simp: commit_claim_def attempt_claim_def commit_step_def and_then_def
        split: sum.splits option.splits prod.splits if_splits)
  then show ?thesis
    using assms(1,2) by (auto simp: claim_jobs_def split: sum.splits option.splits prod.splits if_splits)
qed

lemma claim_partitions:
  assumes "claim_jobs req ent io d = (Inr out, d')"
  shows "set (db_active_partitions d') \<subseteq> set (db_active_partitions d)"
proof (rule claim_invariant [OF assms, of "\<lambda>x. set (db_active_partitions x) \<subseteq> set (db_active_partitions d)"])
  fix t n and x x' :: db assume "insert_claim_transaction t req n x = Inr x'" "set (db_active_partitions x) \<subseteq> set (db_active_partitions d)"
  then show "set (db_active_partitions x') \<subseteq> set (db_active_partitions d)"
    by (auto simp: insert_claim_transaction_def insert_transaction_def and_then_Inr_iff split: if_splits)
next
  fix p and x :: db assume "set (db_active_partitions x) \<subseteq> set (db_active_partitions d)"
  then show "set (db_active_partitions (advance_cursor (cr_queue req) p x)) \<subseteq> set (db_active_partitions d)"
    by (simp add: advance_cursor_def split: option.split)
qed (use run_maintenance_partitions grant_lease_partitions in \<open>blast | simp\<close>)+

section \<open>Fairness\<close>

lemma ready_heads_append: "ready_heads d req (ps @ qs) = ready_heads d req ps @ ready_heads d req qs"
  by (simp add: ready_heads_def map_filter_def)

text \<open>A ready head that is passed over was behind every job that was leased.\<close>

lemma passed_over:
  assumes "jobs_ok d" and "r \<in> set (db_jobs d)" and "jr_queue r = cr_queue req" and "ready req r" and "earlier_done d r"
    and "r \<notin> set (granted d req)" and "x \<in> set (granted d req)"
  shows "jr_partition_key x \<in> set (takeWhile (\<lambda>x. x \<noteq> jr_partition_key r) (lease_order d (cr_queue req)))"
proof -
  let ?p = "jr_partition_key r" and ?ps = "lease_order d (cr_queue req)"
  let ?before = "takeWhile (\<lambda>x. x \<noteq> ?p) ?ps"
  have head: "head_job d (cr_queue req) ?p = Some r" "?p \<in> set ?ps"
    using head_job_ready [OF assms(1,2,4,5)] assms(3) by simp_all
  obtain rest where ps: "?ps = ?before @ ?p # rest"
  proof (cases "dropWhile (\<lambda>x. x \<noteq> ?p) ?ps")
    case Nil
    then show ?thesis using head(2) by (auto simp: dropWhile_eq_Nil_conv)
  next
    case (Cons x xs)
    then have "x = ?p" by (simp add: dropWhile_eq_Cons_conv)
    then show ?thesis using that [of xs] Cons takeWhile_dropWhile_id by metis
  qed
  have all: "ready_heads d req ?ps = ready_heads d req ?before @ r # ready_heads d req rest"
    using arg_cong [OF ps, of "ready_heads d req"] head(1) assms(4) by (simp add: ready_heads_append)
  have "\<not> length (ready_heads d req ?before) < cr_limit req"
  proof
    assume "length (ready_heads d req ?before) < cr_limit req"
    then obtain k where "cr_limit req = length (ready_heads d req ?before) + Suc k"
      using less_imp_Suc_add by fastforce
    then show False using assms(6) all by (simp add: granted_def)
  qed
  then have "granted d req = take (cr_limit req) (ready_heads d req ?before)"
    using all by (simp add: granted_def)
  then have x: "x \<in> set (ready_heads d req ?before)" using assms(7) in_set_takeD by fastforce
  obtain N where "map jr_partition_key (ready_heads d req ?before) = nths ?before N"
    using ready_heads_partitions [of d req ?before] by (auto simp: subseq_conv_nths)
  then have "jr_partition_key ` set (ready_heads d req ?before) \<subseteq> set ?before"
    using set_nths_subset [of ?before N] by (metis list.set_map)
  with x show ?thesis by blast
qed

text \<open>
  C20: the round robin is fair. If a claim leases jobs but passes over a ready job that is first
  in its partition, then at the next claim the partitions visited before it are strictly fewer: a
  subset of those before, without the last partition that was served. So a ready job is passed
  over at most as often as partitions come before its own.
\<close>

theorem claim_fair:
  assumes "store_ok d" and "claim_jobs req ent io d = (Inr (Committed c), d')"
    and "r \<in> set (db_jobs d)" and "jr_queue r = cr_queue req" and "ready req r" and "earlier_done d r"
    and "jr_job_id r \<notin> cj_job_id ` set (cc_jobs c)"
  shows "r \<in> set (db_jobs d') \<and> jr_partition_key r \<in> set (lease_order d' (cr_queue req)) \<and>
    set (takeWhile (\<lambda>p. p \<noteq> jr_partition_key r) (lease_order d' (cr_queue req)))
      \<subset> set (takeWhile (\<lambda>p. p \<noteq> jr_partition_key r) (lease_order d (cr_queue req)))"
  using assms(1,2)
proof (cases rule: claim_outcomes)
  case (written e t ls new)
  let ?q = "cr_queue req" and ?p = "jr_partition_key r"
  have new: "d' = new" "ls \<noteq> []" "cc_jobs c = map (granted_job req e) ls"
    using written(8) by (auto simp: claim_result_def split: if_splits)
  note effect = written(7) [unfolded claim_effect_def]
  have ok: "jobs_ok d" "jobs_ok d'"
    using store_okD(5) [OF assms(1)] store_okD(5) [of new] effect new(1) by simp_all
  have granted: "pl_job ` set ls = set (granted d req)" using arg_cong [OF written(3), of set] by simp
  have "cj_job_id ` set (cc_jobs c) = jr_job_id ` set (granted d req)"
    unfolding new(3) granted [symmetric] by (simp add: image_image granted_job_def claimed_job_def Let_def)
  then have not_granted: "r \<notin> set (granted d req)" using assms(7) by auto
  have state: "\<not> is_terminal (jr_state r)" "jr_state r \<noteq> Leased"
    using assms(5) by (auto simp: ready_def split: JobState.splits)
  have "r \<notin> set (expired_jobs d req)" using expired_jobs_set(3) state(2) by blast
  then have r: "r \<in> set (db_jobs d')" using effect not_granted assms(3) new(1) by blast
  let ?l = "jr_partition_key (pl_job (last ls))"
  have cursor: "cursor_of d' ?q = Some ?l"
    using effect new(1,2) by (simp add: cursor_of_def last_partition_def advance_cursor_def AList.update_conv)
  have active: "distinct (map fst (db_active_partitions d))" "distinct (map fst (db_active_partitions d'))"
    using ok by (simp_all add: jobs_ok_def active_ok_def)
  have in_parts: "?p \<in> set (partitions_of x ?q)" if x: "jobs_ok x" "r \<in> set (db_jobs x)" for x
  proof -
    have "active_ok (db_active_partitions x) (db_jobs x)" using x(1) by (simp add: jobs_ok_def)
    then obtain first where "map_of (db_active_partitions x) (job_partition r) = Some first"
      using active_okD(2) [OF _ x(2) state(1)] by blast
    then show ?thesis
      using assms(4) by (force simp: partitions_of_set job_partition_def dest: map_of_SomeD)
  qed
  have less: "set (partitions_of d' ?q) \<subseteq> set (partitions_of d ?q)"
    using claim_partitions [OF assms(2)] by (auto simp: partitions_of_def)
  have "pl_job (last ls) \<in> set (granted d req)" using new(2) granted by (metis imageI last_in_set)
  then have l: "?l \<in> set (takeWhile (\<lambda>p. p \<noteq> ?p) (lease_order d ?q))"
    by (rule passed_over [OF ok(1) assms(3-6) not_granted])
  note B = before_in_order [OF active(1) in_parts [OF ok(1) assms(3)]]
    and B' = before_in_order [OF active(2) in_parts [OF ok(2) r], unfolded cursor]
  have "visited_before (cursor_of d ?q) ?l ?p" using l unfolding B by simp
  note advance = cursor_advances [OF this]
  have "set (takeWhile (\<lambda>p. p \<noteq> ?p) (lease_order d' ?q)) \<subseteq> set (takeWhile (\<lambda>p. p \<noteq> ?p) (lease_order d ?q)) - {?l}"
    unfolding B B' using less advance by auto
  then show ?thesis
    using r l in_parts [OF ok(2) r] by (auto simp: lease_order_set)
qed simp_all

section \<open>A concrete queue of two partitions\<close>

definition fair_row :: "nat \<Rightarrow> str \<Rightarrow> i64 \<Rightarrow> JobRow" where
  "fair_row i p n = new_job_row (id_from_u128 1) (reconcilable (id_from_u128 (of_nat i)) ''q'' p []) n"

definition fair_batch :: CommitBatch where
  "fair_batch =
     enqueue_job (enqueue_job (batch_new (id_from_u128 1) 10) (reconcilable (id_from_u128 3) ''q'' ''a'' []))
       (reconcilable (id_from_u128 4) ''q'' ''b'' [])"

definition fair_db :: db where
  "fair_db =
     empty_db\<lparr>db_transactions := [batch_row fair_batch 1],
       db_jobs := [fair_row 3 ''a'' 1, fair_row 4 ''b'' 2],
       db_active_partitions := [((''q'', ''a''), 1), ((''q'', ''b''), 2)]\<rparr>"

lemmas fair_simps = fair_row_def new_job_row_def reconcilable_def job_base_def

lemma fair_write: "write_batch fair_batch empty_db = Inr (1, fair_db)"
proof -
  have "cb_expected_stream_versions fair_batch = []" "cb_transaction_id fair_batch = MkId 1"
    "cb_operations fair_batch = [EnqueueJob (reconcilable (MkId 3) ''q'' ''a'' []), EnqueueJob (reconcilable (MkId 4) ''q'' ''b'' [])]"
    by (simp_all add: fair_batch_def enqueue_job_def push_operation_def batch_new_def)
  then show ?thesis
    by (simp add: write_batch_def empty_db_def next_sequence_def i64_max_def insert_transaction_def
        has_transaction_def batch_row_def apply_enqueue_def insert_job_def job_checks_def activate_partition_def
        upsert_streams_def fair_db_def fair_simps)
qed

lemma fair_ok: "store_ok fair_db"
  by (rule write_batch_InrD(1) [OF empty_store_ok fair_write])

definition fair_request :: ClaimRequest where
  "fair_request = sample_request\<lparr>cr_limit := 1\<rparr>"

lemma fair_claim:
  "\<exists>c d'. claim_jobs fair_request sample_entropy healthy fair_db = (Inr (Committed c), d') \<and>
     cj_job_id ` set (cc_jobs c) = {id_from_u128 3}"
proof -
  let ?l = "\<lparr>pl_job = fair_row 3 ''a'' 1, pl_lease_token = sample_token\<rparr>"
  have none: "expired_jobs fair_db fair_request = []"
    by (simp add: expired_jobs_def fair_db_def lease_expired_def fair_simps)
  have order: "lease_order fair_db ''q'' = [''a'', ''b'']"
    by (simp add: lease_order_def partitions_of_def cursor_of_def fair_db_def empty_db_def)
  have head: "head_job fair_db ''q'' ''a'' = Some (fair_row 3 ''a'' 1)"
    by (simp add: head_job_def fair_db_def fair_simps)
  have req: "cr_queue fair_request = ''q''" "cr_limit fair_request = 1" "ready fair_request (fair_row 3 ''a'' 1)"
    by (simp_all add: fair_request_def sample_request_def ready_def fair_simps)
  have "validate_claim fair_request = Inr 25"
    by (simp add: validate_claim_def fair_request_def sample_request_def checked_add_i64_def is_i64_def i64_min_def i64_max_def)
  moreover have "plan_claim fair_db fair_request sample_entropy = Inr ([], [?l], Some ''a'', 1)"
    using sample_draws(1) order head req
    by (simp add: plan_claim_def plan_maintenance_eq none plan_leases_def)
  moreover have granted: "map pl_job [?l] = granted fair_db fair_request"
    using order head req by (simp add: granted_def split: option.split)
  have "\<not> has_transaction fair_db sample_claim_id"
    by (simp add: has_transaction_def fair_db_def batch_row_def fair_batch_def enqueue_job_def push_operation_def
        batch_new_def sample_claim_id_def)
  then obtain claimed d' where w: "write_claim fair_request 25 sample_claim_id [] [?l] (Some ''a'') fair_db = Inr (claimed, d')"
    using write_claim_total [OF fair_ok granted, of sample_claim_id 25 "Some ''a''"] none
    by (auto simp: fair_db_def i64_max_def)
  moreover have "claimed = [granted_job fair_request 25 ?l]"
    using write_claim_InrD(1) [OF fair_ok granted, of 25 sample_claim_id claimed d'] w none
    by (simp add: last_partition_def fair_simps)
  ultimately show ?thesis
    using sample_draws(2)
    by (simp add: claim_jobs_def attempt_claim_def healthy_def commit_claim_def commit_step_def granted_job_def
        claimed_job_def Let_def fair_simps)
qed

theorem claim_fair_witness:
  "\<exists>c d'. claim_jobs fair_request sample_entropy healthy fair_db = (Inr (Committed c), d') \<and>
     takeWhile (\<lambda>p. p \<noteq> ''b'') (lease_order d' ''q'') = []"
proof -
  obtain c d' where c: "claim_jobs fair_request sample_entropy healthy fair_db = (Inr (Committed c), d')"
    "cj_job_id ` set (cc_jobs c) = {id_from_u128 3}"
    using fair_claim by blast
  let ?r = "fair_row 4 ''b'' 2"
  have r: "?r \<in> set (db_jobs fair_db)" "jr_queue ?r = cr_queue fair_request" "ready fair_request ?r" "earlier_done fair_db ?r"
    "jr_job_id ?r \<notin> cj_job_id ` set (cc_jobs c)" "jr_partition_key ?r = ''b''" "cr_queue fair_request = ''q''"
    by (simp_all add: fair_db_def fair_request_def sample_request_def ready_def earlier_done_def job_partition_def c(2) fair_simps)
  have "takeWhile (\<lambda>p. p \<noteq> ''b'') (lease_order fair_db ''q'') = [''a'']"
    by (simp add: lease_order_def partitions_of_def cursor_of_def fair_db_def empty_db_def)
  then have "set (takeWhile (\<lambda>p. p \<noteq> ''b'') (lease_order d' ''q'')) \<subset> {''a''}"
    using claim_fair [OF fair_ok c(1) r(1-5)] unfolding r(6,7) by simp
  then have "set (takeWhile (\<lambda>p. p \<noteq> ''b'') (lease_order d' ''q'')) = {}"
    by (metis psubsetE subset_singletonD)
  then show ?thesis using c(1) by auto
qed

end
