(* ===== verification/WorkerClaims.thy ===== *)
theory WorkerClaims
  imports WorkerProperties ClaimFairness
begin

text \<open>
  Claiming in the example client: the job that the claiming loop returns is one whose lease is held
  in the file, whether the claim was answered or had to be recovered, and the loop ends when no
  answer to a claim is left open.
\<close>

section \<open>Held leases\<close>

definition holds_lease :: "db \<Rightarrow> ClaimedJob \<Rightarrow> bool" where
  "holds_lease d j \<longleftrightarrow>
     (\<exists>r \<in> set (db_jobs d). jr_job_id r = cj_job_id j \<and> jr_state r = Leased \<and> jr_lease_token r = Some (cj_lease_token j))"

lemma committed_leases:
  assumes "store_ok d" and "claim_jobs req ent io d = (Inr (Committed c), d')" and "j \<in> set (cc_jobs c)"
  shows "holds_lease d' j"
  using assms(1,2)
proof (cases rule: claim_outcomes)
  case (written e t ls new)
  then have "cc_jobs c = map (granted_job req e) ls" "d' = new" by (auto simp: claim_result_def split: if_splits)
  then obtain l where l: "l \<in> set ls" "j = granted_job req e l" using assms(3) by auto
  have "granted_row req e t l \<in> set (db_jobs d')"
    using written(7) l(1) \<open>d' = new\<close> by (simp add: claim_effect_def)
  then show ?thesis
    unfolding holds_lease_def
    by (rule bexI [rotated]) (simp add: l(2) granted_job_def claimed_job_def Let_def granted_row_def leased_row_def)
qed auto

lemma recovered_leases:
  assumes "jobs_ok d" and "recover_claim d t now = Inr (Recovered_Committed c)" and "j \<in> set (cc_jobs c)"
  shows "holds_lease d j"
proof -
  obtain x where x: "x \<in> set (receipts_of d t)" "lease_current d now x" "j = recovered_job d x"
    using assms(2,3) recover_claim_eq [OF assms(1), of t now] by (auto split: if_splits)
  moreover have "x \<in> set (db_claim_receipts d)" using x(1) by (simp add: receipts_of_def)
  ultimately show ?thesis
    using receipt_job_found [OF assms(1), of x]
    by (auto simp: holds_lease_def lease_current_def recovered_job_def Let_def intro!: bexI [of _ "receipt_job d x"])
qed

section \<open>Calls of the claiming loop\<close>

lemma store_claim_outcome:
  assumes "client_ok c" and "store_claim_jobs en req (cl_store c) (cl_disk c) = (res, s', w')"
  shows "disk_ok w' \<and> migrated w' \<and> handle_ok s' \<and>
    (res \<in> range (Inl \<circ> Claim_Storage) \<and> w' = cl_disk c \<or>
     (\<exists>cn. claim_jobs req (en_entropy en) (transaction_io en cn) (store_of (cl_disk c)) = (res, store_of w')))"
proof -
  note C = client_okD [OF assms(1)]
  note call = assms(2) [unfolded store_claim_jobs_def]
  have "res \<in> range (Inl \<circ> Claim_Storage) \<and> w' = cl_disk c \<or>
     (\<exists>cn. claim_jobs req (en_entropy en) (transaction_io en cn) (store_of (cl_disk c)) = (res, store_of w'))"
    by (rule claim_call.on_writer_cases [OF C(2) call]) auto
  then show ?thesis using claim_call.on_writer_step [OF C(1-3) call] by simp
qed

lemma claim_recovery_call:
  assumes "client_ok c" and "calls env Boxed_Recovery (\<lambda>en. store_recover_claim en i now) c = (q, c')"
  shows "client_ok c' \<and> cl_disk c' = cl_disk c \<and>
    (\<forall>cc j. q = Inr (Recovered_Committed cc) \<longrightarrow> j \<in> set (cc_jobs cc) \<longrightarrow> holds_lease (store_of (cl_disk c)) j)"
proof -
  note C = client_okD [OF assms(1)]
  obtain r s w where rec: "store_recover_claim (we_engine env (cl_tick c)) i now (cl_store c) (cl_disk c) = (r, s, w)"
    by (metis prod_cases3)
  obtain x where x: "store_connection (we_engine env (cl_tick c)) (cl_store c) (cl_disk c) = (x, s, w)" "w = cl_disk c"
    by (rule store_recover_claim_cases [OF C(2) rec])
  have r: "r = Inr out \<Longrightarrow> recover_claim (store_of (cl_disk c)) i now = Inr out" for out
    using rec x by (auto simp: store_recover_claim_def store_of_def split: sum.splits)
  have "c' = c\<lparr>cl_tick := Suc (cl_tick c), cl_store := s, cl_disk := w\<rparr>"
    "q = (case r of Inl e \<Rightarrow> Inl (Boxed_Recovery e) | Inr x \<Rightarrow> Inr x)"
    using assms(2) unfolding calls_run [where f = "\<lambda>en. store_recover_claim en i now", OF rec] by simp_all
  then show ?thesis
    using C(1,2) x(2) connection_keeps_handle [OF C(2) x(1) C(3)] r recovered_leases [OF store_okD(5) [OF C(4)]]
    by (auto simp: client_ok_def split: sum.splits)
qed

lemma leaves_file_say_all [simp]: "leaves_file (say_all ls)"
  by (induction ls) (auto intro!: leaves_file_act)

lemma claim_recovered_job:
  assumes "client_ok c" and "claim_recovered env r c = (res, c')"
  shows "client_ok c' \<and> cl_disk c' = cl_disk c \<and>
    (\<forall>i j. res = Inr (Some (i, j)) \<longrightarrow> (\<exists>cc. r = Recovered_Committed cc \<and> j \<in> set (cc_jobs cc)))"
proof -
  have "leaves_file (claim_recovered env r)"
    by (cases r) (auto simp: claim_recovered_def first_job_def intro!: leaves_file_act split: list.split)
  moreover have "res = Inr (Some (i, j)) \<Longrightarrow> \<exists>cc. r = Recovered_Committed cc \<and> j \<in> set (cc_jobs cc)" for i j
    using assms(2)
    by (cases r) (auto simp: claim_recovered_def first_job_def act_eq ret_def fail_def split: if_splits list.splits)
  ultimately show ?thesis using assms leaves_fileD by metis
qed

section \<open>One round\<close>

lemma first_job_cases: "first_job cl c = (res, c') \<Longrightarrow> c' = c \<and> (\<forall>j. res = Inr j \<longrightarrow> j \<in> set (cc_jobs cl))"
  by (auto simp: first_job_def ret_def fail_def split: list.splits)

lemma claim_answer_committed:
  assumes "client_ok c" and "claim_answer env worker_id (Inr (Committed cl)) c = (res, c')"
  shows "client_ok c' \<and> cl_disk c' = cl_disk c \<and>
    (\<forall>x. res = Inr x \<longrightarrow> (\<exists>i j. x = Some (i, j) \<and> j \<in> set (cc_jobs cl)))"
  using assms
  by (auto simp: claim_answer_def act_eq ret_def dest!: first_job_cases say_run)

lemma claim_answer_unknown:
  assumes "client_ok c" and "claim_answer env worker_id (Inl (Claim_Indeterminate i)) c = (res, c')"
  shows "client_ok c' \<and> cl_disk c' = cl_disk c \<and>
    (\<forall>i j. res = Inr (Some (i, j)) \<longrightarrow> holds_lease (store_of (cl_disk c')) j)"
proof -
  let ?line = "''[claim]  indeterminate; recovering '' @ to_hex (ix_transaction_id i)"
  have run: "act (say ?line) (\<lambda>_. act (client_now env) (\<lambda>now.
      act (calls env Boxed_Recovery (\<lambda>en. store_recover_claim en (ix_transaction_id i) now)) (claim_recovered env))) c = (res, c')"
    using assms(2) by (simp add: claim_answer_def)
  show ?thesis
  proof (cases rule: act_leaves [OF leaves_file_basic(3) assms(1) run])
    case said: (2 u c1)
    show ?thesis
    proof (cases rule: act_leaves [OF leaves_file_id(2) said(3,2)])
      case now: (2 now c2)
      obtain q c3 where rec: "calls env Boxed_Recovery (\<lambda>en. store_recover_claim en (ix_transaction_id i) now) c2 = (q, c3)"
        by fastforce
      note R = claim_recovery_call [OF now(3) rec]
      show ?thesis
      proof (cases q)
        case (Inr r)
        then have "claim_recovered env r c3 = (res, c')" using rec now(2) by (simp add: act_def)
        then show ?thesis using claim_recovered_job [of c3 env r res c'] R Inr said(4) now(4) by fastforce
      qed (use R rec now said in \<open>auto simp: act_def\<close>)
    qed (use said in simp)
  qed simp
qed

lemma claim_answer_other:
  "claim_answer env worker_id (Inr (MaintenanceCommitted m)) c = (Inr None, c)"
  "claim_answer env worker_id (Inr Noop) c = (Inl (Boxed_Text ''queue unexpectedly empty''), c)"
  "\<not> claim_unknown e \<Longrightarrow> claim_answer env worker_id (Inl e) c = (Inl (Boxed_Claim e), c)"
  by (auto simp: claim_answer_def ret_def fail_def split: ClaimError.split)

lemma claim_round_cases:
  assumes "client_ok c" and "claim_round env worker_id c = (res, c')"
  obtains (stopped) x where "res = Inl x" "client_ok c'" "cl_disk c' = cl_disk c"
  | (asked) n en req r s w c2 where "en = we_engine env n" "cr_limit req = 1"
    "store_claim_jobs en req (cl_store c) (cl_disk c) = (r, s, w)"
    "client_ok c2" "cl_disk c2 = w" "claim_answer env worker_id r c2 = (res, c')"
proof (cases rule: act_leaves [OF leaves_file_id(2) assms(1) assms(2) [unfolded claim_round_def]])
  case 1
  then show ?thesis using stopped by blast
next
  case (2 now c1)
  let ?en = "we_engine env (cl_tick c1)"
  let ?req = "\<lparr>cr_queue = QUEUE, cr_worker_id = worker_id, cr_now_ms = now, cr_lease_ms = 30000, cr_limit = 1\<rparr>"
  obtain r s w where call: "store_claim_jobs ?en ?req (cl_store c1) (cl_disk c1) = (r, s, w)" by (metis prod_cases3)
  define c2 where "c2 = c1\<lparr>cl_tick := Suc (cl_tick c1), cl_store := s, cl_disk := w\<rparr>"
  have "client_ok c2" "cl_disk c2 = w"
    using store_claim_outcome [OF 2(3) call] by (simp_all add: c2_def client_ok_def)
  moreover have "claim_answer env worker_id r c2 = (res, c')"
    using 2(2) call by (simp add: attempts_def take_answer_def act_def c2_def)
  moreover have "cl_store c1 = cl_store c" using 2(1) by (auto simp: client_now_def act_eq take_answer_def ret_def fail_def split: if_splits)
  ultimately show ?thesis using asked [of ?en _ ?req] call 2(4) by simp
qed

lemma claim_round_holds:
  assumes "client_ok c" and "claim_round env worker_id c = (res, c')"
  shows "client_ok c' \<and> (\<forall>i j. res = Inr (Some (i, j)) \<longrightarrow> holds_lease (store_of (cl_disk c')) j)"
  using assms
proof (cases rule: claim_round_cases)
  case (asked n en req r s w c2)
  note out = store_claim_outcome [OF assms(1) asked(3)]
  show ?thesis
  proof (cases r)
    case (Inl e)
    show ?thesis
    proof (cases "claim_unknown e")
      case True
      then show ?thesis using claim_answer_unknown [OF asked(4), of env worker_id _ res c'] asked(6) Inl by (auto simp: claim_unknown_iff)
    next
      case False
      then show ?thesis using claim_answer_other(3) asked(4,6) Inl by auto
    qed
  next
    case (Inr o1)
    show ?thesis
    proof (cases o1)
      case (Committed cl)
      have "holds_lease (store_of w) j" if "j \<in> set (cc_jobs cl)" for j
        using out that committed_leases [OF client_okD(4) [OF assms(1)]] Inr Committed by auto
      then show ?thesis
        using claim_answer_committed [OF asked(4), of env worker_id cl res c'] asked(5,6) Inr Committed by auto
    qed (use asked(4,6) Inr claim_answer_other(1,2) in auto)
  qed
qed simp

section \<open>A round that only repairs\<close>

text \<open>No operation of a claim adds a job, and one that leases nothing repairs an expired lease.\<close>

definition job_ids :: "db \<Rightarrow> Id list" where
  "job_ids d = map jr_job_id (db_jobs d)"

definition leased_ids :: "db \<Rightarrow> Id set" where
  "leased_ids d = jr_job_id ` {r \<in> set (db_jobs d). jr_state r = Leased}"

lemma update_job_ids:
  assumes "update_job i f d = Inr d'" and "\<And>r. jr_job_id (f r) = jr_job_id r"
  shows "job_ids d' = job_ids d"
proof -
  have "d' = d\<lparr>db_jobs := update_rows i f (db_jobs d)\<rparr>" using assms(1) by (simp add: update_job_def split: if_splits)
  then show ?thesis using assms(2) by (simp add: job_ids_def update_rows_def)
qed

lemma drain_ids [simp]: "job_ids (drain_partition_if_empty q p d) = job_ids d"
  by (simp add: drain_partition_if_empty_def job_ids_def Let_def split: option.split)

lemma row_ids [simp]: "jr_job_id (terminal_row s now t g e r) = jr_job_id r" "jr_job_id (nonterminal_row s x t r) = jr_job_id r"
  "jr_job_id (leased_row req until t a tok r) = jr_job_id r"
  by (simp_all add: terminal_row_def nonterminal_row_def leased_row_def)

lemma set_terminal_ids: "set_terminal r s now t g e d = Inr d' \<Longrightarrow> job_ids d' = job_ids d"
  using update_job_ids [of "jr_job_id r" "terminal_row s now t g e" d] by (auto simp: set_terminal_def and_then_Inr_iff)

lemma set_nonterminal_ids: "set_nonterminal i s at t d = Inr d' \<Longrightarrow> job_ids d' = job_ids d"
  using update_job_ids [of i "nonterminal_row s at t" d] by (simp add: set_nonterminal_def)

lemma run_maintenance_ids: "run_maintenance req t a d = Inr d' \<Longrightarrow> job_ids d' = job_ids d"
  using set_terminal_ids set_nonterminal_ids
  unfolding run_maintenance_def and_then_Inr_iff map_err_Inr_iff by (metis (full_types))

lemma grant_lease_ids:
  assumes "grant_lease req e t l (c, d) = Inr (c', d')"
  shows "job_ids d' = job_ids d"
proof -
  obtain d1 where d1: "update_job (jr_job_id (pl_job l)) (leased_row req e t (jr_attempt (pl_job l) + 1) (pl_lease_token l)) d = Inr d1"
    "insert_receipt (receipt_row req e t (jr_attempt (pl_job l) + 1) l) d1 = Inr d'"
    using assms by (auto simp: grant_lease_def Let_def and_then_Inr_iff map_err_Inr_iff)
  then have "job_ids d' = job_ids d1" by (auto simp: insert_receipt_def job_ids_def split: if_splits)
  then show ?thesis using update_job_ids [OF d1(1)] by simp
qed

lemma claim_job_ids:
  assumes "claim_jobs req ent io d = (Inr out, d')"
  shows "job_ids d' = job_ids d"
proof (rule claim_invariant [OF assms, of "\<lambda>x. job_ids x = job_ids d"])
  fix t n and x x' :: db assume "insert_claim_transaction t req n x = Inr x'" "job_ids x = job_ids d"
  then show "job_ids x' = job_ids d"
    by (auto simp: insert_claim_transaction_def insert_transaction_def and_then_Inr_iff job_ids_def split: if_splits)
next
  fix p and x :: db assume "job_ids x = job_ids d"
  then show "job_ids (advance_cursor (cr_queue req) p x) = job_ids d"
    by (simp add: advance_cursor_def job_ids_def split: option.split)
qed (use run_maintenance_ids grant_lease_ids in \<open>metis | simp\<close>)+

lemma maintenance_shrinks:
  assumes ok: "store_ok d" and claim: "claim_jobs req ent io d = (Inr (MaintenanceCommitted m), d')"
  shows "leased_ids d' \<subset> leased_ids d"
  using ok claim
proof (cases rule: claim_outcomes)
  case (written e t ls new)
  then have none: "ls = []" "d' = new" by (auto simp: claim_result_def split: if_splits)
  then obtain x where x: "x \<in> set (expired_jobs d req)" using written(6) by (cases "expired_jobs d req") auto
  have ok': "store_ok d'" using written(7) none(2) by (simp add: claim_effect_def)
  note rows = store_okD(5) [OF ok] store_okD(5) [OF ok']
  have distinct: "distinct (map jr_job_id (db_jobs d))" "distinct (map jr_job_id (db_jobs d'))"
    using rows by (simp_all add: jobs_ok_def rows_ok_def)
  have kept: "y \<notin> set (expired_jobs d req) \<Longrightarrow> y \<in> set (db_jobs d')" "y \<in> set (expired_jobs d req) \<Longrightarrow> maintained_row req t y \<in> set (db_jobs d')"
    if "y \<in> set (db_jobs d)" for y
    using written(3,7) none that by (auto simp: claim_effect_def)
  have repaired: "jr_job_id (maintained_row req t y) = jr_job_id y" "jr_state (maintained_row req t y) \<noteq> Leased" for y
    by (simp_all add: maintained_row_def terminal_row_def nonterminal_row_def maintenance_target_def split: EffectMode.split)
  have origin: "\<exists>y \<in> set (db_jobs d). jr_job_id y = jr_job_id z \<and> (z = y \<and> y \<notin> set (expired_jobs d req) \<or> z = maintained_row req t y)"
    if z: "z \<in> set (db_jobs d')" for z
  proof -
    have "jr_job_id z \<in> set (job_ids d')" using z by (simp add: job_ids_def)
    then obtain y where y: "y \<in> set (db_jobs d)" "jr_job_id y = jr_job_id z"
      unfolding claim_job_ids [OF claim] by (auto simp: job_ids_def)
    have same: "v = z" if "v \<in> set (db_jobs d')" "jr_job_id v = jr_job_id z" for v
      using distinct(2) z that by (simp add: distinct_map inj_on_def)
    show ?thesis
      using kept [OF y(1)] same [of y] same [of "maintained_row req t y"] y repaired(1) by metis
  qed
  have "leased_ids d' \<subseteq> leased_ids d"
  proof
    fix i assume "i \<in> leased_ids d'"
    then obtain z where z: "z \<in> set (db_jobs d')" "jr_state z = Leased" "i = jr_job_id z" by (auto simp: leased_ids_def)
    from origin [OF z(1)] show "i \<in> leased_ids d" using z(2,3) repaired(2) by (auto simp: leased_ids_def)
  qed
  moreover have "jr_job_id x \<in> leased_ids d" using expired_jobs_set [OF x] by (auto simp: leased_ids_def)
  moreover have "jr_job_id x \<notin> leased_ids d'"
  proof
    assume "jr_job_id x \<in> leased_ids d'"
    then obtain z where z: "z \<in> set (db_jobs d')" "jr_state z = Leased" "jr_job_id z = jr_job_id x" by (auto simp: leased_ids_def)
    obtain y where y: "y \<in> set (db_jobs d)" "jr_job_id y = jr_job_id z" "z = y \<and> y \<notin> set (expired_jobs d req) \<or> z = maintained_row req t y"
      using origin [OF z(1)] by blast
    have "y = x" using distinct(1) y(1,2) z(3) expired_jobs_set(1) [OF x] by (simp add: distinct_map inj_on_def)
    then show False using y(3) x z(2) repaired(2) by auto
  qed
  ultimately show ?thesis by blast
qed (use claim in auto)

lemma claim_answered:
  assumes "io_commit io = None" and "\<not> io_failpoint io" and "claim_jobs req ent io d = (Inl e, d')"
  shows "\<not> claim_unknown e"
proof -
  have "\<not> claim_unknown e" if "commit_claim io t d (attempt_claim io req x t ms ls part d) = (Inl e, v)" for t x ms ls part v
    using that assms(1,2) attempt_claim_definite
    by (auto simp: commit_claim_def commit_step_def claim_unknown_iff split: sum.splits option.splits prod.splits if_splits)
  then show ?thesis
    using assms(3) validate_claim_definite plan_claim_definite error_to_claim_definite
    by (auto simp: claim_jobs_def claim_unknown_iff map_err_Inl_iff split: sum.splits option.splits prod.splits if_splits)
qed

section \<open>The loop\<close>

text \<open>The environment leaves no answer to a claim open.\<close>

definition answers_commits :: "client_env \<Rightarrow> bool" where
  "answers_commits env \<longleftrightarrow>
     (\<forall>n. io_commit (en_io (we_engine env n)) = None \<and> \<not> io_failpoint (en_io (we_engine env n)))"

lemma claim_round_repairs:
  assumes "answers_commits env" and "client_ok c" and "claim_round env worker_id c = (Inr None, c')"
  shows "leased_ids (store_of (cl_disk c')) \<subset> leased_ids (store_of (cl_disk c))"
  using assms(2,3)
proof (cases rule: claim_round_cases)
  case (asked n en req r s w c2)
  note out = store_claim_outcome [OF assms(2) asked(3)]
  have io: "io_commit (transaction_io en cn) = None" "\<not> io_failpoint (transaction_io en cn)" for cn
    using assms(1) asked(1) by (auto simp: answers_commits_def transaction_io_def split: Access.split)
  show ?thesis
  proof (cases r)
    case (Inl e)
    then have "\<not> claim_unknown e" using out claim_answered [OF io] by auto
    then show ?thesis using asked(6) Inl claim_answer_other(3) by auto
  next
    case (Inr o1)
    show ?thesis
    proof (cases o1)
      case (Committed cl)
      then show ?thesis using claim_answer_committed [OF asked(4), of env worker_id cl _ c'] asked(6) Inr by auto
    next
      case (MaintenanceCommitted m)
      then have "c' = c2" using asked(6) Inr by (simp add: claim_answer_other)
      then show ?thesis
        using out Inr MaintenanceCommitted asked(5) by (auto dest: maintenance_shrinks [OF client_okD(4) [OF assms(2)]])
    qed (use asked(6) Inr claim_answer_other(2) in auto)
  qed
qed simp

lemma finite_leased_ids: "finite (leased_ids d)"
  by (simp add: leased_ids_def)

lemma claim_one_returns:
  assumes "answers_commits env" and "client_ok c"
  shows "\<exists>y. claim_one env worker_id c = Some y"
  using assms(2)
proof (induction "card (leased_ids (store_of (cl_disk c)))" arbitrary: c rule: less_induct)
  case less
  obtain res c1 where round: "claim_round env worker_id c = (res, c1)" by fastforce
  note ok = claim_round_holds [OF less.prems round]
  show ?case
  proof (cases res)
    case (Inl e)
    then show ?thesis using round by (simp add: claim_one.simps)
  next
    case (Inr x)
    show ?thesis
    proof (cases x)
      case None
      have "leased_ids (store_of (cl_disk c1)) \<subset> leased_ids (store_of (cl_disk c))"
        using claim_round_repairs [OF assms(1) less.prems] round Inr None by simp
      then have "card (leased_ids (store_of (cl_disk c1))) < card (leased_ids (store_of (cl_disk c)))"
        by (rule psubset_card_mono [OF finite_leased_ids])
      then obtain y where "claim_one env worker_id c1 = Some y" using less.hyps [of c1] ok by blast
      then show ?thesis using round Inr None by (subst claim_one.simps) simp
    next
      case (Some y)
      then show ?thesis using round Inr by (subst claim_one.simps) simp
    qed
  qed
qed

lemma claim_one_keeps:
  assumes "claim_one env worker_id c = Some (res, c')" and "client_ok c"
  shows "client_ok c' \<and> (\<forall>i j. res = Inr (i, j) \<longrightarrow> holds_lease (store_of (cl_disk c')) j)"
proof -
  have "\<forall>res c'. y = (res, c') \<longrightarrow> client_ok c \<longrightarrow>
      client_ok c' \<and> (\<forall>i j. res = Inr (i, j) \<longrightarrow> holds_lease (store_of (cl_disk c')) j)"
    if "claim_one env worker_id c = Some y" for y
    using that
  proof (induction rule: claim_one.raw_induct [rotated, consumes 1])
    case (1 again env worker_id c y)
    obtain r c1 where round: "claim_round env worker_id c = (r, c1)" by fastforce
    show ?case
    proof (intro allI impI)
      fix res c' assume y: "y = (res, c')" and ok: "client_ok c"
      note R = claim_round_holds [OF ok round]
      show "client_ok c' \<and> (\<forall>i j. res = Inr (i, j) \<longrightarrow> holds_lease (store_of (cl_disk c')) j)"
        using 1 R y round ok by (auto split: sum.splits option.splits)
    qed
  qed
  then show ?thesis using assms by blast
qed

section \<open>A concrete claim\<close>

definition wanted_batch :: CommitBatch where
  "wanted_batch = enqueue_job (batch_new (id_from_u128 1) 10) (reconcilable (id_from_u128 3) QUEUE ''p'' [9])"

definition wanted_row :: JobRow where
  "wanted_row = new_job_row (id_from_u128 1) (reconcilable (id_from_u128 3) QUEUE ''p'' [9]) 1"

definition wanted_db :: db where
  "wanted_db =
     empty_db\<lparr>db_transactions := [batch_row wanted_batch 1], db_jobs := [wanted_row],
       db_active_partitions := [((QUEUE, ''p''), 1)]\<rparr>"

lemma wanted_ok: "store_ok wanted_db"
proof -
  have "cb_expected_stream_versions wanted_batch = []" "cb_transaction_id wanted_batch = MkId 1"
    "cb_operations wanted_batch = [EnqueueJob (reconcilable (MkId 3) QUEUE ''p'' [9])]"
    by (simp_all add: wanted_batch_def enqueue_job_def push_operation_def batch_new_def)
  then have "write_batch wanted_batch empty_db = Inr (1, wanted_db)"
    by (simp add: write_batch_def empty_db_def next_sequence_def i64_max_def insert_transaction_def
        has_transaction_def batch_row_def apply_enqueue_def insert_job_def job_checks_def activate_partition_def
        upsert_streams_def wanted_db_def wanted_row_def new_job_row_def reconcilable_def job_base_def)
  then show ?thesis by (rule write_batch_InrD(1) [OF empty_store_ok])
qed

definition wanted_request :: ClaimRequest where
  "wanted_request =
     \<lparr>cr_queue = QUEUE, cr_worker_id = ''w'', cr_now_ms = 21, cr_lease_ms = 30000, cr_limit = 1\<rparr>"

definition wanted_client :: client where
  "wanted_client = \<lparr>cl_store = sample_store, cl_disk = Some (sample_file\<lparr>df_store := wanted_db\<rparr>), cl_tick = 0, cl_out = []\<rparr>"

lemma wanted_client_ok: "client_ok wanted_client"
  using written_disk [of "Some sample_file" wanted_db] sample_file reachable_handle(1,3,4) [OF sample_run(1), of sample_store]
    wanted_ok
  by (simp add: client_ok_def wanted_client_def migrated_def sample_system_def)

lemma wanted_claim:
  "\<exists>c j d'. claim_jobs wanted_request sample_entropy healthy wanted_db = (Inr (Committed c), d') \<and> cc_jobs c = [j] \<and>
     cj_job_id j = id_from_u128 3"
proof -
  let ?l = "\<lparr>pl_job = wanted_row, pl_lease_token = sample_token\<rparr>"
  note row = wanted_row_def new_job_row_def reconcilable_def job_base_def
  have none: "expired_jobs wanted_db wanted_request = []"
    by (simp add: expired_jobs_def wanted_db_def lease_expired_def row)
  have order: "lease_order wanted_db QUEUE = [''p'']"
    by (simp add: lease_order_def partitions_of_def cursor_of_def wanted_db_def empty_db_def)
  have head: "head_job wanted_db QUEUE ''p'' = Some wanted_row"
    by (simp add: head_job_def wanted_db_def row)
  have req: "cr_queue wanted_request = QUEUE" "cr_limit wanted_request = 1" "ready wanted_request wanted_row"
    by (simp_all add: wanted_request_def ready_def row)
  have "validate_claim wanted_request = Inr 30021"
    by (simp add: validate_claim_def wanted_request_def checked_add_i64_def is_i64_def i64_min_def i64_max_def QUEUE_def)
  moreover have "plan_claim wanted_db wanted_request sample_entropy = Inr ([], [?l], Some ''p'', 1)"
    using sample_draws(1) order head req
    by (simp add: plan_claim_def plan_maintenance_eq none plan_leases_def)
  moreover have granted: "map pl_job [?l] = granted wanted_db wanted_request"
    using order head req by (simp add: granted_def)
  have "\<not> has_transaction wanted_db sample_claim_id"
    by (simp add: has_transaction_def wanted_db_def batch_row_def wanted_batch_def enqueue_job_def push_operation_def
        batch_new_def sample_claim_id_def)
  then obtain claimed d' where w: "write_claim wanted_request 30021 sample_claim_id [] [?l] (Some ''p'') wanted_db = Inr (claimed, d')"
    using write_claim_total [OF wanted_ok granted, of sample_claim_id 30021 "Some ''p''"] none
    by (auto simp: wanted_db_def i64_max_def)
  moreover have "claimed = [granted_job wanted_request 30021 ?l]"
    using write_claim_InrD(1) [OF wanted_ok granted, of 30021 sample_claim_id claimed d'] w none
    by (simp add: last_partition_def row)
  ultimately show ?thesis
    using sample_draws(2)
    by (simp add: claim_jobs_def attempt_claim_def healthy_def commit_claim_def commit_step_def granted_job_def
        claimed_job_def Let_def row)
qed

lemma wanted_one:
  "\<exists>i j c'. claim_one sample_client_env ''w'' wanted_client = Some (Inr (i, j), c') \<and> cj_job_id j = id_from_u128 3"
proof -
  obtain c j d' where claim: "claim_jobs wanted_request sample_entropy healthy wanted_db = (Inr (Committed c), d')"
    "cc_jobs c = [j]" "cj_job_id j = id_from_u128 3"
    using wanted_claim by blast
  have "store_claim_jobs sample_engine wanted_request sample_store (Some (sample_file\<lparr>df_store := wanted_db\<rparr>))
      = (Inr (Committed c), sample_store, Some (sample_file\<lparr>df_store := d'\<rparr>))"
    using claim(1) by (simp add: store_claim_jobs_def on_writer_def store_connection_def sample_store_simps transaction_io_def
        sample_engine_def)
  then have "\<exists>c'. claim_round sample_client_env ''w'' wanted_client = (Inr (Some (cc_transaction_id c, j)), c')"
    using claim(2) by (simp add: claim_round_def client_now_def attempts_def take_answer_def act_def wanted_client_def millis_21
        sample_client_env_def wanted_request_def claim_answer_def first_job_def say_def ret_def)
  then show ?thesis using claim(3) by (auto simp: claim_one.simps)
qed

text \<open>
  C8: whatever the engine answers, a job that the claiming loop of the client returns is one whose
  lease, under the token returned, is in the file; a job recovered after an unknown outcome is no
  exception. And the loop returns when no answer to a claim is left open, for any reading of the
  clock: every round that does not end it repairs an expired lease and grants none.
\<close>

theorem claim_one_leased:
  assumes "client_ok c"
  shows "(claim_one env worker_id c = Some (Inr (i, j), c') \<longrightarrow> client_ok c' \<and> holds_lease (store_of (cl_disk c')) j) \<and>
    (answers_commits env \<longrightarrow> (\<exists>y. claim_one env worker_id c = Some y))"
  using claim_one_keeps [OF _ assms] claim_one_returns [OF _ assms] by blast

theorem claim_one_leased_witness:
  "\<exists>i j c'. claim_one sample_client_env ''w'' wanted_client = Some (Inr (i, j), c') \<and> cj_job_id j = id_from_u128 3 \<and>
     holds_lease (store_of (cl_disk c')) j"
proof -
  obtain i j c' where run: "claim_one sample_client_env ''w'' wanted_client = Some (Inr (i, j), c')" "cj_job_id j = id_from_u128 3"
    using wanted_one by blast
  then show ?thesis using claim_one_leased [OF wanted_client_ok, of sample_client_env "''w''" i j c'] by blast
qed

end
