(* ===== verification/Utf8.thy ===== *)
theory Utf8
  imports Prelude
begin

text \<open>
  \<open>String::from_utf8_lossy\<close> of the standard library, which the example client prints a projection
  value with: well-formed UTF-8 is copied, and every maximal ill-formed part, a lead byte with the
  continuation bytes that could still follow it, becomes one replacement character.
\<close>

section \<open>One character\<close>

text \<open>The number of bytes a lead byte announces; 0 for a byte that leads nothing.\<close>

definition utf8_width :: "u8 \<Rightarrow> nat" where
  "utf8_width b =
     (if b < 0x80 then 1 else if b < 0xC2 then 0 else if b < 0xE0 then 2 else if b < 0xF0 then 3
      else if b < 0xF5 then 4 else 0)"

definition continuation :: "u8 \<Rightarrow> bool" where
  "continuation b \<longleftrightarrow> 0x80 \<le> b \<and> b \<le> 0xBF"

text \<open>The second byte is restricted further: no overlong form, no surrogate, nothing above U+10FFFF.\<close>

definition second_byte :: "u8 \<Rightarrow> u8 \<Rightarrow> bool" where
  "second_byte b c \<longleftrightarrow>
     (if b = 0xE0 then 0xA0 \<le> c \<and> c \<le> 0xBF else if b = 0xED then 0x80 \<le> c \<and> c \<le> 0x9F
      else if b = 0xF0 then 0x90 \<le> c \<and> c \<le> 0xBF else if b = 0xF4 then 0x80 \<le> c \<and> c \<le> 0x8F
      else continuation c)"

text \<open>How many of the bytes after the lead byte \<open>b\<close> belong to its character.\<close>

fun follows :: "u8 \<Rightarrow> bytes \<Rightarrow> nat" where
  "follows b [] = 0"
| "follows b (c # cs) =
     (if utf8_width b \<ge> 2 \<and> second_byte b c
      then Suc (length (takeWhile continuation (take (utf8_width b - 2) cs))) else 0)"

definition REPLACEMENT :: bytes where
  "REPLACEMENT = [0xEF, 0xBF, 0xBD]"

section \<open>A text\<close>

function utf8_lossy :: "bytes \<Rightarrow> bytes" where
  "utf8_lossy [] = []"
| "utf8_lossy (b # bs) =
     (let n = follows b bs in
      (if Suc n = utf8_width b then b # take n bs else REPLACEMENT) @ utf8_lossy (drop n bs))"
  by pat_completeness auto

termination utf8_lossy by (relation "measure length") auto

declare utf8_lossy.simps(2) [simp del]

definition bytes_str :: "bytes \<Rightarrow> str" where
  "bytes_str bs = map (\<lambda>b. char_of (unat b)) bs"

definition from_utf8_lossy :: "bytes \<Rightarrow> str" where
  "from_utf8_lossy bs = bytes_str (utf8_lossy bs)"

section \<open>What it keeps\<close>

lemma follows_length: "follows b bs \<le> length bs"
  by (cases bs) (auto intro: order_trans [OF length_takeWhile_le])

lemma utf8_lossy_ascii_Cons: "b < 0x80 \<Longrightarrow> utf8_lossy (b # bs) = b # utf8_lossy bs"
  by (cases bs) (simp_all add: utf8_lossy.simps(2) utf8_width_def)

lemma utf8_lossy_ascii: "\<forall>b \<in> set bs. b < 0x80 \<Longrightarrow> utf8_lossy bs = bs"
  by (induction bs) (simp_all add: utf8_lossy_ascii_Cons)

lemma unat_of_char_u8: "unat (of_char c :: u8) = of_char c"
proof -
  have "(of_char c :: nat) < 256" by (rule nat_of_char_less_256)
  then have "unat (of_nat (of_char c) :: u8) = of_char c" by (simp add: unat_of_nat)
  then show ?thesis by (metis of_nat_of_char)
qed

lemma bytes_str_of_str [simp]: "bytes_str (str_bytes s) = s"
  by (simp add: bytes_str_def str_bytes_def comp_def unat_of_char_u8)

text \<open>An ASCII text is read back as it was written.\<close>

lemma from_utf8_lossy_ascii:
  assumes "\<forall>c \<in> set s. of_char c < (0x80 :: nat)"
  shows "from_utf8_lossy (str_bytes s) = s"
proof -
  have "\<forall>b \<in> set (str_bytes s). b < 0x80"
    using assms by (auto simp: str_bytes_def word_less_nat_alt unat_of_char_u8)
  then show ?thesis by (simp add: from_utf8_lossy_def utf8_lossy_ascii)
qed

text \<open>What is written is well-formed, and a well-formed text is kept, so a second pass changes nothing.\<close>

definition well_formed_char :: "bytes \<Rightarrow> bool" where
  "well_formed_char cs \<longleftrightarrow> (\<exists>b bs. cs = b # bs \<and> Suc (length bs) = utf8_width b \<and> follows b bs = length bs)"

inductive well_formed :: "bytes \<Rightarrow> bool" where
  empty: "well_formed []"
| char: "well_formed_char cs \<Longrightarrow> well_formed bs \<Longrightarrow> well_formed (cs @ bs)"

lemma takeWhile_all: "length (takeWhile P xs) = length xs \<Longrightarrow> takeWhile P xs = xs"
  by (metis append_eq_conv_conj takeWhile_dropWhile_id take_all_iff le_refl takeWhile_eq_take)

lemma follows_append:
  assumes "Suc (length bs) = utf8_width b" and "follows b bs = length bs"
  shows "follows b (bs @ cs) = length bs"
proof (cases bs)
  case Nil
  then show ?thesis using assms by (cases cs) simp_all
next
  case (Cons c ds)
  then have "length ds = utf8_width b - 2" using assms(1) by simp
  then show ?thesis using assms(2) Cons by (auto split: if_splits)
qed

lemma follows_take:
  assumes "Suc (follows b bs) = utf8_width b"
  shows "follows b (take (follows b bs) bs) = follows b bs"
proof (cases bs)
  case (Cons c cs)
  let ?t = "take (utf8_width b - 2) cs"
  show ?thesis
  proof (cases "utf8_width b \<ge> 2 \<and> second_byte b c")
    case True
    then have "length (takeWhile continuation ?t) = utf8_width b - 2" using assms Cons by simp
    moreover from this have "takeWhile continuation ?t = ?t"
      using length_takeWhile_le [of continuation ?t] by (intro takeWhile_all) simp
    ultimately show ?thesis using True Cons by (simp add: takeWhile_eq_all_conv [THEN iffD2])
  qed (use Cons in auto)
qed simp

lemma utf8_lossy_well_formed: "well_formed (utf8_lossy bs)"
proof (induction bs rule: utf8_lossy.induct)
  case (2 b bs)
  have rest: "well_formed (utf8_lossy (drop (follows b bs) bs))" using 2 by blast
  show ?case
  proof (cases "Suc (follows b bs) = utf8_width b")
    case True
    have "well_formed_char (b # take (follows b bs) bs)"
      using True follows_take [OF True] follows_length [of b bs] by (auto simp: well_formed_char_def)
    from char [OF this rest] show ?thesis using True by (simp add: utf8_lossy.simps(2) Let_def)
  next
    case False
    have "well_formed_char REPLACEMENT"
      by (simp add: well_formed_char_def REPLACEMENT_def utf8_width_def second_byte_def continuation_def)
    from char [OF this rest] show ?thesis using False by (simp add: utf8_lossy.simps(2) Let_def)
  qed
qed (simp add: empty)

lemma utf8_lossy_keeps: "well_formed bs \<Longrightarrow> utf8_lossy bs = bs"
proof (induction rule: well_formed.induct)
  case (char cs bs)
  then obtain b ds where "cs = b # ds" "Suc (length ds) = utf8_width b" "follows b ds = length ds"
    by (auto simp: well_formed_char_def)
  then show ?case using char.IH follows_append [of ds b bs] by (simp add: utf8_lossy.simps(2))
qed simp

lemma utf8_lossy_idempotent: "utf8_lossy (utf8_lossy bs) = utf8_lossy bs"
  by (rule utf8_lossy_keeps [OF utf8_lossy_well_formed])

end
