(* ===== verification/Drill.thy ===== *)
theory Drill
  imports Worker Utf8
begin

text \<open>
  \<open>main\<close> of \<open>examples/synara_provider_turn.rs\<close>: one turn from request to completion, then a worker
  that dies between its claim and the completion, and a process that finds the claim again by its
  transaction identifier. A run is \<open>None\<close> where the claiming loop does not return.
\<close>

section \<open>Runs\<close>

type_synonym 'a run = "client \<Rightarrow> ((client_error + 'a) \<times> client) option"

definition once :: "'a action \<Rightarrow> 'a run" where
  "once m c = Some (m c)"

definition runs :: "'a run \<Rightarrow> ('a \<Rightarrow> 'b run) \<Rightarrow> 'b run" where
  "runs m k c = (case m c of None \<Rightarrow> None | Some (r, c) \<Rightarrow>
     (case r of Inl e \<Rightarrow> Some (Inl e, c) | Inr x \<Rightarrow> k x c))"

section \<open>Opening, and the status of a thread\<close>

text \<open>\<open>ControlPlaneStore::open(&db)?\<close>: the handle of the block before has been dropped.\<close>

definition client_open :: "client_env \<Rightarrow> str \<Rightarrow> unit action" where
  "client_open env db =
     act (take_answer (we_engine env)) (\<lambda>en c.
       case store_open en db (cl_disk c) of
         (Inl e, w) \<Rightarrow> (Inl (Boxed e), c\<lparr>cl_disk := w\<rparr>)
       | (Inr s, w) \<Rightarrow> (Inr (), c\<lparr>cl_store := s, cl_disk := w\<rparr>))"

definition thread_status :: "client_env \<Rightarrow> str \<Rightarrow> str action" where
  "thread_status env thread_id =
     act (attempts env (reading (\<lambda>en. store_projection_get en THREADS (str_bytes thread_id)))) (\<lambda>r.
       ret (case r of Inr (Some value) \<Rightarrow> from_utf8_lossy value | _ \<Rightarrow> ''<absent>''))"

definition say_status :: "client_env \<Rightarrow> str \<Rightarrow> unit action" where
  "say_status env thread_id =
     act (thread_status env thread_id) (\<lambda>st. say (''[state]  threads/'' @ thread_id @ '' = '' @ st))"

section \<open>The two scenarios\<close>

definition work_on :: "client_env \<Rightarrow> str \<Rightarrow> ClaimedJob \<Rightarrow> unit action" where
  "work_on env thread_id job =
     act (heartbeat env job) (\<lambda>_.
     act (start_turn env thread_id) (\<lambda>_.
     act (call_provider job) (\<lambda>_.
     complete_turn env thread_id job)))"

definition happy_path :: "client_env \<Rightarrow> str \<Rightarrow> unit run" where
  "happy_path env db =
     runs (once (act (client_open env db) (\<lambda>_. request_turn env ''t-100''))) (\<lambda>_.
     runs (claim_one env ''worker-1'') (\<lambda>(_, job).
     once (act (work_on env ''t-100'' job) (\<lambda>_. say_status env ''t-100''))))"

definition crash :: "client_env \<Rightarrow> str \<Rightarrow> Id run" where
  "crash env db =
     runs (once (act (client_open env db) (\<lambda>_. request_turn env ''t-200''))) (\<lambda>_.
     runs (claim_one env ''worker-2'') (\<lambda>(tx, job).
     once (act (say (''[crash]  worker-2 dies before acking job on '' @ cj_partition_key job
       @ '' (claim tx '' @ to_hex tx @ '')'')) (\<lambda>_. ret tx))))"

fun work_on_all :: "client_env \<Rightarrow> str \<Rightarrow> ClaimedJob list \<Rightarrow> unit action" where
  "work_on_all env thread_id [] = ret ()"
| "work_on_all env thread_id (job # jobs) =
     act (work_on env thread_id job) (\<lambda>_. work_on_all env thread_id jobs)"

definition recovered :: "client_env \<Rightarrow> ClaimRecovery \<Rightarrow> unit action" where
  "recovered env r =
     (case r of
        Recovered_Committed claims \<Rightarrow>
          act (say_all (map (\<lambda>i. ''[recover] stale job '' @ to_hex i @ '': not executable; surfaces as Uncertain'')
              (cc_stale_jobs claims))) (\<lambda>_.
            if claims_is_empty claims
            then say ''[recover] claim committed but no executable jobs remain; no lease held''
            else
              act (say (''[recover] claim receipt found: '' @ show_nat (length (cc_jobs claims))
                @ '' job(s), original lease tokens restored'')) (\<lambda>_.
              work_on_all env ''t-200'' (cc_jobs claims)))
      | Recovered_MaintenanceCommitted _ \<Rightarrow> say ''[recover] claim recorded maintenance only; job still claimable''
      | Recovered_Absent \<Rightarrow> say ''[recover] claim never committed; job still claimable'')"

definition reopen :: "client_env \<Rightarrow> str \<Rightarrow> Id \<Rightarrow> unit action" where
  "reopen env db claim_tx =
     act (client_open env db) (\<lambda>_.
     act (say (''[reopen] store reopened; recovering claim '' @ to_hex claim_tx)) (\<lambda>_.
     act (client_now env) (\<lambda>now.
     act (calls env Boxed_Recovery (\<lambda>en. store_recover_claim en claim_tx now)) (\<lambda>r.
     act (recovered env r) (\<lambda>_.
     act (say_status env ''t-200'') (\<lambda>_.
     act (calls env Boxed (reading (\<lambda>en. store_jobs en (Some QUEUE) (Some Succeeded) 10))) (\<lambda>succeeded.
     act (calls env Boxed (reading (\<lambda>en. store_events_after en 0 100))) (\<lambda>events.
     say (''[state]  '' @ show_nat (length succeeded) @ '' succeeded job(s) on queue '' @ QUEUE @ ''; ''
       @ show_nat (length events) @ '' event(s) total'')))))))))"

text \<open>
  The temporary directory holds no file yet, so the run starts from a client whose disk is empty;
  the handle it starts with is replaced before it is used.
\<close>

definition synara_main :: "client_env \<Rightarrow> str \<Rightarrow> unit run" where
  "synara_main env db =
     runs (once (say ''=== happy path: one provider turn ==='')) (\<lambda>_.
     runs (happy_path env db) (\<lambda>_.
     runs (once (act (say []) (\<lambda>_. say ''=== failure drill: worker crash after claim, before ack ==='')))  (\<lambda>_.
     runs (crash env db) (\<lambda>claim_tx.
     once (reopen env db claim_tx)))))"

end
