(* ===== verification/DrillTriples.thy ===== *)
theory DrillTriples
  imports Drill WorkerClaims
begin

text \<open>
  Triples over the runs of the example client: what a part of the program adds to the log of events
  if it ends normally, a prefix of which it adds if it stops. The rules for sequences and for the
  actions that build and commit a batch are here; the program itself is taken apart with them in
  \<open>DrillProperties\<close>.
\<close>

section \<open>The log, and the identifiers in use\<close>

definition event_log :: "db \<Rightarrow> (str \<times> str) list" where
  "event_log d = map (\<lambda>r. (er_stream_id r, er_event_type r)) (db_events d)"

definition claimants :: "db \<Rightarrow> Id list" where
  "claimants d = map cl_transaction_id (db_claim_receipts d)"

text \<open>What the environment has drawn before its \<open>n\<close>th answer, and what its engines may draw.\<close>

definition drawn :: "client_env \<Rightarrow> nat \<Rightarrow> Id set" where
  "drawn env n = {i. \<exists>k < n. id_new (we_ids env k) = Inr i} \<union> {i. \<exists>m k. id_new (en_entropy (we_engine env m) k) = Inr i}"

text \<open>No identifier is drawn twice by the client, or by the client and by the store.\<close>

definition draws_apart :: "client_env \<Rightarrow> bool" where
  "draws_apart env \<longleftrightarrow> (\<forall>n i. id_new (we_ids env n) = Inr i \<longrightarrow> i \<notin> drawn env n)"

lemma drawn_mono: "m \<le> n \<Longrightarrow> drawn env m \<subseteq> drawn env n"
  by (fastforce simp: drawn_def)

text \<open>Every transaction has a drawn identifier, and no claim leased more than one job.\<close>

definition account :: "client_env \<Rightarrow> nat \<Rightarrow> db \<Rightarrow> bool" where
  "account env n d \<longleftrightarrow> (\<forall>t. has_transaction d t \<longrightarrow> t \<in> drawn env n) \<and> distinct (claimants d)"

lemma account_mono: "account env m d \<Longrightarrow> m \<le> n \<Longrightarrow> account env n d"
  using drawn_mono [of m n env] by (auto simp: account_def)

section \<open>What the operations of the store do to them\<close>

lemma update_job_claimants: "update_job i f d = Inr d' \<Longrightarrow> claimants d' = claimants d"
  by (auto simp: update_job_def claimants_def split: if_splits)

lemma drain_claimants [simp]: "claimants (drain_partition_if_empty q p d) = claimants d"
  by (simp add: drain_partition_if_empty_def claimants_def)

lemma activate_claimants [simp]: "claimants (activate_partition q p n d) = claimants d"
  by (simp add: activate_partition_def claimants_def)

lemma set_terminal_claimants: "set_terminal r s now t g e d = Inr d' \<Longrightarrow> claimants d' = claimants d"
  by (auto simp: set_terminal_def and_then_Inr_iff dest: update_job_claimants)

lemma set_nonterminal_claimants: "set_nonterminal i s at t d = Inr d' \<Longrightarrow> claimants d' = claimants d"
  unfolding set_nonterminal_def by (rule update_job_claimants)

lemmas row_claimants = update_job_claimants set_terminal_claimants set_nonterminal_claimants

lemma apply_enqueue_claimants: "apply_enqueue t spec d = Inr d' \<Longrightarrow> claimants d' = claimants d"
  by (auto simp: apply_enqueue_def and_then_Inr_iff map_err_Inr_iff insert_job_def claimants_def [of "db_jobs_update _ _"]
      split: if_splits) (simp_all add: claimants_def)

lemma apply_ack_claimants: "apply_ack t now a d = Inr d' \<Longrightarrow> claimants d' = claimants d"
  by (auto simp: apply_ack_def and_then_Inr_iff map_err_Inr_iff dest: row_claimants)

lemma apply_fail_claimants: "apply_fail t now a d = Inr d' \<Longrightarrow> claimants d' = claimants d"
  by (auto simp: apply_fail_def Let_def and_then_Inr_iff map_err_Inr_iff dest!: row_claimants split: if_splits)

lemma apply_cancel_claimants: "apply_cancel t now a d = Inr d' \<Longrightarrow> claimants d' = claimants d"
  by (auto simp: apply_cancel_def and_then_Inr_iff map_err_Inr_iff dest: row_claimants)

lemma apply_resolve_claimants: "apply_resolve t now a d = Inr d' \<Longrightarrow> claimants d' = claimants d"
  by (cases "jres_resolution a") (auto simp: apply_resolve_def and_then_Inr_iff map_err_Inr_iff dest: row_claimants split: if_splits)

lemma extend_receipts_claimants [simp]: "map cl_transaction_id (extend_receipts i tok ms rows) = map cl_transaction_id rows"
  by (simp add: extend_receipts_def)

lemma apply_extend_lease_claimants:
  assumes "apply_extend_lease x now d = Inr (rc, d')"
  shows "claimants d' = claimants d"
proof -
  obtain d1 f where d1: "update_job (le_job_id x) f d = Inr d1"
      "d' = d1\<lparr>db_claim_receipts := extend_receipts (le_job_id x) (le_lease_token x) (le_new_expiry_ms x) (db_claim_receipts d1)\<rparr>"
    using assms by (auto simp: apply_extend_lease_def Let_def and_then_Inr_iff map_err_Inr_iff split: if_splits)
  then show ?thesis using update_job_claimants [OF d1(1)] by (simp add: claimants_def)
qed

lemma insert_entry_claimants:
  "upsert_projection_entry p k v d = Inr d' \<Longrightarrow> claimants d' = claimants d"
  "insert_projection_entry p k v d = Inr d' \<Longrightarrow> claimants d' = claimants d"
  "claimants (clear_entries p d) = claimants d" "claimants (delete_entry p k d) = claimants d"
  "claimants (upsert_projection_meta p n d) = claimants d"
  by (auto simp: upsert_projection_entry_def insert_projection_entry_def clear_entries_def delete_entry_def
      upsert_projection_meta_def claimants_def split: if_splits)

lemma apply_mutation_claimants:
  assumes "apply_mutation p m d = Inr d'"
  shows "claimants d' = claimants d"
proof (cases m)
  case (Replace es)
  then have "fold_res (\<lambda>e d. map_err Error_Storage (insert_projection_entry p (pn_key e) (pn_value e) d)) es (clear_entries p d) = Inr d'"
    using assms by simp
  from fold_res_invariant [OF this, of "\<lambda>x. claimants x = claimants d"] show ?thesis
    by (auto simp: insert_entry_claimants map_err_Inr_iff)
qed (use assms in \<open>auto simp: insert_entry_claimants map_err_Inr_iff\<close>)

lemma apply_patch_claimants:
  assumes "apply_patch p d = Inr d'"
  shows "claimants d' = claimants d"
proof -
  have "fold_res (apply_mutation (pp_projection p)) (pp_mutations p)
      (upsert_projection_meta (pp_projection p) (pp_new_version p) d) = Inr d'"
    using assms by (auto simp: apply_patch_def and_then_Inr_iff split: if_splits)
  then show ?thesis
    by (rule fold_res_invariant [of _ _ _ _ "\<lambda>x. claimants x = claimants d"])
      (use apply_mutation_claimants in \<open>auto simp: insert_entry_claimants\<close>)
qed

lemma run_operation_claimants: "run_operation b op (vs, d) = Inr (vs', d') \<Longrightarrow> claimants d' = claimants d"
  by (cases op) (auto simp: Let_def and_then_Inr_iff map_err_Inr_iff insert_event_def insert_event_row_Inr claimants_def
    dest: apply_patch_claimants apply_enqueue_claimants apply_ack_claimants apply_fail_claimants apply_cancel_claimants
      apply_resolve_claimants apply_extend_lease_claimants [unfolded claimants_def])

lemma write_batch_claimants:
  assumes "write_batch b d = Inr (n, d')"
  shows "claimants d' = claimants d"
proof -
  obtain vs d1 vs' d2 where ins: "insert_transaction (batch_row b n) d = Inr d1"
    and ops: "fold_res (run_operation b) (cb_operations b) (vs, d1) = Inr (vs', d2)" and d': "d' = upsert_streams vs' d2"
    using assms by (auto simp: write_batch_def and_then_Inr_iff)
  have "claimants (snd (vs', d2)) = claimants d1"
    by (rule fold_res_invariant [OF ops, of "\<lambda>s. claimants (snd s) = claimants d1"])
      (use run_operation_claimants in \<open>auto simp: prod_eq_iff\<close>)
  then show ?thesis using ins by (auto simp: d' claimants_def insert_transaction_def split: if_splits)
qed

section \<open>Calls\<close>

definition event_kind :: "Event \<Rightarrow> str \<times> str" where
  "event_kind e = (ev_stream_id e, ev_event_type e)"

lemma event_log_rows: "event_log d = map event_kind (map row_event (db_events d))"
  by (simp add: event_log_def event_kind_def row_event_def persisted_def)

lemma account_write_batch:
  assumes ok: "store_ok d" and wb: "write_batch b d = Inr (n, d')" and acc: "account env k d"
    and id: "cb_transaction_id b \<in> drawn env k"
  shows "account env k d' \<and> event_log d' = event_log d @ map event_kind (batch_events b)"
proof -
  note W = write_batch_InrD [OF ok wb]
  have "event_log d' = event_log d @ map event_kind (batch_events b)"
    using W(6) by (auto simp: event_log_rows appends_def simp del: map_map)
  moreover have "has_transaction d' t \<longleftrightarrow> has_transaction d t \<or> t = cb_transaction_id b" for t
    using W(3) by (auto simp: has_transaction_def batch_row_def)
  ultimately show ?thesis using acc id write_batch_claimants [OF wb] by (auto simp: account_def)
qed

lemma account_claim:
  assumes ok: "store_ok d" and claim: "claim_jobs req (en_entropy (we_engine env m)) io d = (res, d')"
    and one: "cr_limit req = 1" and acc: "account env k d"
  shows "account env k d' \<and> event_log d' = event_log d"
  using ok claim
proof (cases rule: claim_outcomes)
  case (written e t ls new)
  note effect = written(7) [unfolded claim_effect_def]
  have "length (map pl_job ls) \<le> 1" unfolding written(3) by (simp add: granted_def one)
  then have claimants: "claimants new = claimants d \<or> claimants new = claimants d @ [t]"
    using effect by (cases ls) (auto simp: claimants_def granted_receipt_def receipt_row_def)
  have "cl_transaction_id c \<noteq> t" if "c \<in> set (db_claim_receipts d)" for c
    using store_okD(5) [OF ok] effect that by (auto simp: jobs_ok_def)
  then have "t \<notin> set (claimants d)" by (auto simp: claimants_def)
  moreover have "t \<in> drawn env k" using written(5) by (auto simp: drawn_def)
  moreover have "has_transaction new u \<longleftrightarrow> has_transaction d u \<or> u = t" for u
    using effect by (auto simp: has_transaction_def claim_row_def)
  ultimately have "account env k new" using acc claimants by (auto simp: account_def)
  moreover have "event_log new = event_log d" using effect by (simp add: event_log_def)
  ultimately show ?thesis using written(8) acc by auto
qed (use acc in simp_all)

lemma account_extend:
  assumes ok: "store_ok d" and lease: "extend_lease i tok ms now io d = (res, d')" and acc: "account env k d"
  shows "account env k d' \<and> event_log d' = event_log d"
  using lease
proof (cases rule: extend_lease_cases)
  case (written rc new)
  note frame = only_jobsD [OF jobs_stepD(2) [OF apply_extend_lease_step [OF store_okD(5) [OF ok] written(1)]]]
  have "has_transaction new = has_transaction d" using frame(1) by (rule has_transaction_cong)
  then have "account env k new" using acc apply_extend_lease_claimants [OF written(1)] by (simp add: account_def)
  moreover have "event_log new = event_log d" using frame by (simp add: event_log_def)
  ultimately show ?thesis using written(2) acc by auto
qed (use acc in simp)

section \<open>Triples\<close>

definition client_log :: "client \<Rightarrow> (str \<times> str) list" where
  "client_log c = event_log (store_of (cl_disk c))"

definition accounted :: "client_env \<Rightarrow> client \<Rightarrow> bool" where
  "accounted env c \<longleftrightarrow> account env (cl_tick c) (store_of (cl_disk c))"

text \<open>Before a store is opened, and with a store open.\<close>

definition sound :: "client_env \<Rightarrow> client \<Rightarrow> bool" where
  "sound env c \<longleftrightarrow> disk_ok (cl_disk c) \<and> accounted env c"

definition ready_client :: "client_env \<Rightarrow> client \<Rightarrow> bool" where
  "ready_client env c \<longleftrightarrow> client_ok c \<and> accounted env c"

text \<open>
  From a client that satisfies \<open>P\<close>, the run adds \<open>xs\<close> to the log and leaves the client ready, or it
  stops and has added a prefix of \<open>xs\<close>.
\<close>

definition adds :: "client_env \<Rightarrow> (client \<Rightarrow> bool) \<Rightarrow> (str \<times> str) list \<Rightarrow> 'a run \<Rightarrow> ('a \<Rightarrow> client \<Rightarrow> bool) \<Rightarrow> bool" where
  "adds env P xs m Q \<longleftrightarrow>
     (\<forall>c r c'. P c \<longrightarrow> m c = Some (r, c') \<longrightarrow>
        (\<exists>ys. client_log c' = client_log c @ ys \<and>
          (case r of Inl e \<Rightarrow> prefix ys xs | Inr x \<Rightarrow> ys = xs \<and> ready_client env c' \<and> Q x c')))"

lemma adds_runs:
  assumes "adds env P xs m Q" and "\<And>x. adds env (\<lambda>c. ready_client env c \<and> Q x c) ys (k x) R"
  shows "adds env P (xs @ ys) (runs m k) R"
  unfolding adds_def
proof (intro allI impI)
  fix c r c' assume P: "P c" and run: "runs m k c = Some (r, c')"
  obtain r1 c1 where m: "m c = Some (r1, c1)" using run by (auto simp: runs_def split: option.splits)
  note M = assms(1) [unfolded adds_def, rule_format, OF P m]
  show "\<exists>zs. client_log c' = client_log c @ zs \<and>
      (case r of Inl e \<Rightarrow> prefix zs (xs @ ys) | Inr x \<Rightarrow> zs = xs @ ys \<and> ready_client env c' \<and> R x c')"
  proof (cases r1)
    case (Inl e)
    then show ?thesis using M m run by (auto simp: runs_def intro: prefix_prefix)
  next
    case (Inr x)
    then have k: "k x c1 = Some (r, c')" and Q: "ready_client env c1 \<and> Q x c1" "client_log c1 = client_log c @ xs"
      using M m run by (auto simp: runs_def)
    from assms(2) [of x, unfolded adds_def, rule_format, OF Q(1) k] Q(2)
    show ?thesis by (auto split: sum.splits)
  qed
qed

lemma adds_weaken:
  assumes "adds env P xs m Q" and "\<And>c. P' c \<Longrightarrow> P c" and "\<And>x c. Q x c \<Longrightarrow> Q' x c"
  shows "adds env P' xs m Q'"
  unfolding adds_def
proof (intro allI impI)
  fix c r c' assume "P' c" "m c = Some (r, c')"
  from assms(1) [unfolded adds_def, rule_format, OF assms(2) [OF this(1)] this(2)]
  show "\<exists>ys. client_log c' = client_log c @ ys \<and>
      (case r of Inl e \<Rightarrow> prefix ys xs | Inr x \<Rightarrow> ys = xs \<and> ready_client env c' \<and> Q' x c')"
    using assms(3) by (cases r) auto
qed

text \<open>An action in a run: the sequence of actions is the sequence of runs.\<close>

lemma once_act: "once (act m k) = runs (once m) (\<lambda>x. once (k x))"
  by (rule ext) (auto simp: once_def runs_def act_def split: prod.split sum.split)

section \<open>Actions that leave the file alone\<close>

definition ticks :: "'a action \<Rightarrow> bool" where
  "ticks m \<longleftrightarrow> (\<forall>c. cl_tick c \<le> cl_tick (snd (m c)))"

lemma ticksD: "ticks m \<Longrightarrow> m c = (r, c') \<Longrightarrow> cl_tick c \<le> cl_tick c'"
  unfolding ticks_def by (metis snd_conv)

lemma ticks_basic [simp]:
  "ticks (ret x)" "ticks (fail e)" "ticks (say l)" "ticks (take_answer f)"
  by (auto simp: ticks_def ret_def fail_def say_def take_answer_def)

lemma ticks_act [intro]:
  assumes "ticks m" and "\<And>x. ticks (k x)"
  shows "ticks (act m k)"
  unfolding ticks_def
proof
  fix c
  obtain r c1 where m: "m c = (r, c1)" by fastforce
  have "cl_tick c \<le> cl_tick c1" by (rule ticksD [OF assms(1) m])
  moreover have "r = Inr x \<Longrightarrow> cl_tick c1 \<le> cl_tick (snd (k x c1))" for x using assms(2) by (simp add: ticks_def)
  ultimately show "cl_tick c \<le> cl_tick (snd (act m k c))"
    using m by (cases r) (auto simp: act_def intro: order_trans)
qed

lemma ticks_settled [simp]: "ticks (settled box r)"
  by (cases r) (simp_all add: settled_def)

lemma ticks_attempts [simp]: "ticks (attempts env f)"
  unfolding attempts_def by (rule ticks_act [OF ticks_basic(4)]) (auto simp: ticks_def split: prod.split)

lemma ticks_calls [simp]: "ticks (calls env box f)"
  unfolding calls_def by (rule ticks_act) simp_all

lemma ticks_now [simp]: "ticks (client_now env)" "ticks (client_id env)"
  unfolding client_now_def client_id_def by (auto split: sum.split)

lemma ticks_build [simp]: "ticks (client_batch env)" "ticks (client_event env s ty pl)" "ticks (status_patch env i st)"
  unfolding client_batch_def client_event_def status_patch_def by (intro ticks_act; simp)+

lemma ticks_say_all [simp]: "ticks (say_all ls)"
  by (induction ls) auto

definition silent :: "'a action \<Rightarrow> bool" where
  "silent m \<longleftrightarrow> leaves_file m \<and> ticks m"

lemma silent_act [intro]: "silent m \<Longrightarrow> (\<And>x. silent (k x)) \<Longrightarrow> silent (act m k)"
  by (auto simp: silent_def)

lemma silent_basic [simp]:
  "silent (ret x)" "silent (fail e)" "silent (say l)" "silent (say_all ls)" "silent (client_now env)" "silent (client_id env)"
  "silent (client_batch env)" "silent (client_event env s ty pl)" "silent (status_patch env i st)"
  by (simp_all add: silent_def)

lemma silent_reading: "(\<And>en. \<exists>g. f en = with_reader en g) \<Longrightarrow> silent (calls env box (reading f))"
  by (simp add: silent_def leaves_file_reading)

lemma silent_keeps:
  assumes "silent m" and "ready_client env c" and "m c = (r, c')"
  shows "ready_client env c' \<and> cl_disk c' = cl_disk c \<and> client_log c' = client_log c \<and> cl_tick c \<le> cl_tick c'"
proof -
  have L: "cl_disk c' = cl_disk c" "client_ok c'" "cl_tick c \<le> cl_tick c'"
    using assms leaves_fileD [of m c r c'] ticksD [of m c r c'] by (auto simp: silent_def ready_client_def)
  then show ?thesis
    using assms(2) account_mono by (auto simp: ready_client_def accounted_def client_log_def)
qed

text \<open>A fresh identifier stays fresh under them.\<close>

definition fresh :: "client_env \<Rightarrow> Id \<Rightarrow> client \<Rightarrow> bool" where
  "fresh env t c \<longleftrightarrow> \<not> has_transaction (store_of (cl_disk c)) t \<and> t \<in> drawn env (cl_tick c)"

lemma silent_fresh:
  assumes "silent m" and "\<And>c r c'. m c = (r, c') \<Longrightarrow> \<forall>x. r = Inr x \<longrightarrow> V x"
  shows "adds env (\<lambda>c. ready_client env c \<and> fresh env t c) [] (once m) (\<lambda>x c. V x \<and> fresh env t c)"
  unfolding adds_def
proof (intro allI impI)
  fix c r c' assume P: "ready_client env c \<and> fresh env t c" and m: "once m c = Some (r, c')"
  then have m: "m c = (r, c')" by (simp add: once_def)
  note S = silent_keeps [OF assms(1) conjunct1 [OF P] m]
  then have "fresh env t c'" using P drawn_mono [of "cl_tick c" "cl_tick c'" env] by (auto simp: fresh_def)
  then show "\<exists>ys. client_log c' = client_log c @ ys \<and>
      (case r of Inl e \<Rightarrow> prefix ys [] | Inr x \<Rightarrow> ys = [] \<and> ready_client env c' \<and> V x \<and> fresh env t c')"
    using S assms(2) [OF m] by (auto split: sum.split)
qed

lemma silent_adds: "silent m \<Longrightarrow> adds env (ready_client env) [] (once m) (\<lambda>_ _. True)"
  unfolding adds_def by (auto simp: once_def split: sum.split dest!: silent_keeps)

lemma client_batch_fresh:
  assumes "draws_apart env"
  shows "adds env (ready_client env) [] (once (client_batch env)) (\<lambda>b c. cb_operations b = [] \<and> fresh env (cb_transaction_id b) c)"
  unfolding adds_def
proof (intro allI impI)
  fix c r c' assume P: "ready_client env c" and "once (client_batch env) c = Some (r, c')"
  then have m: "client_batch env c = (r, c')" by (simp add: once_def)
  note S = silent_keeps [OF silent_basic(7) P m]
  have "cb_operations b = [] \<and> fresh env (cb_transaction_id b) c'" if b: "r = Inr b" for b
  proof -
    obtain t at where t: "id_new (we_ids env (cl_tick c)) = Inr t" "b = batch_new t at" "Suc (cl_tick c) \<le> cl_tick c'"
      using m b by (auto simp: client_batch_def client_id_def client_now_def act_eq take_answer_def ret_def fail_def
          split: sum.splits if_splits)
    have "t \<in> drawn env (cl_tick c')" using t by (fastforce simp: drawn_def)
    moreover have "\<not> has_transaction (store_of (cl_disk c)) t"
      using assms t(1) P by (auto simp: draws_apart_def ready_client_def accounted_def account_def)
    ultimately show ?thesis using S t(2) by (simp add: fresh_def batch_new_def)
  qed
  then show "\<exists>ys. client_log c' = client_log c @ ys \<and>
      (case r of Inl e \<Rightarrow> prefix ys [] | Inr b \<Rightarrow> ys = [] \<and> ready_client env c' \<and> cb_operations b = [] \<and> fresh env (cb_transaction_id b) c')"
    using S by (auto split: sum.split)
qed

section \<open>Commits\<close>

definition batch_kinds :: "CommitBatch \<Rightarrow> (str \<times> str) list" where
  "batch_kinds b = map event_kind (batch_events b)"

definition forget :: "client_error + 'a \<Rightarrow> client_error + unit" where
  "forget r = (case r of Inl e \<Rightarrow> Inl e | Inr _ \<Rightarrow> Inr ())"

text \<open>An action that applies the batch once, as \<open>settle_once\<close> and \<open>commit_call_once\<close> state it.\<close>

lemma applied_adds:
  assumes ticks: "ticks m"
    and once: "\<And>c r c'. client_ok c \<Longrightarrow> \<not> has_transaction (store_of (cl_disk c)) (cb_transaction_id b) \<Longrightarrow>
      m c = (r, c') \<Longrightarrow> client_ok c' \<and> applied_once b (forget r) (cl_disk c) (cl_disk c')"
  shows "adds env (\<lambda>c. ready_client env c \<and> fresh env (cb_transaction_id b) c) (batch_kinds b) (once m) (\<lambda>_ _. True)"
  unfolding adds_def
proof (intro allI impI)
  fix c r c' assume P: "ready_client env c \<and> fresh env (cb_transaction_id b) c" and "once m c = Some (r, c')"
  then have m: "m c = (r, c')" by (simp add: once_def)
  have ok: "client_ok c" using P by (simp add: ready_client_def)
  have O: "client_ok c'" "applied_once b (forget r) (cl_disk c) (cl_disk c')"
    using once [OF ok _ m] P by (simp_all add: fresh_def)
  have t: "cl_tick c \<le> cl_tick c'" by (rule ticksD [OF ticks m])
  have same: "ready_client env c' \<and> client_log c' = client_log c" if "store_of (cl_disk c') = store_of (cl_disk c)"
    using that P O(1) account_mono [OF _ t] by (auto simp: ready_client_def accounted_def client_log_def)
  have new: "ready_client env c' \<and> client_log c' = client_log c @ batch_kinds b" if "applied b (cl_disk c) (cl_disk c')"
  proof -
    obtain n where wb: "write_batch b (store_of (cl_disk c)) = Inr (n, store_of (cl_disk c'))"
      using \<open>applied b _ _\<close> by (auto simp: applied_def)
    have "account env (cl_tick c') (store_of (cl_disk c))" "cb_transaction_id b \<in> drawn env (cl_tick c')"
      using P account_mono [OF _ t] drawn_mono [OF t] by (auto simp: ready_client_def accounted_def fresh_def)
    from account_write_batch [OF client_okD(4) [OF ok] wb this] show ?thesis
      using O(1) by (simp add: ready_client_def accounted_def client_log_def batch_kinds_def)
  qed
  show "\<exists>ys. client_log c' = client_log c @ ys \<and>
      (case r of Inl e \<Rightarrow> prefix ys (batch_kinds b) | Inr x \<Rightarrow> ys = batch_kinds b \<and> ready_client env c' \<and> True)"
    using O(2) same new by (auto simp: applied_once_def forget_def split: sum.splits)
qed

lemma commit_adds:
  "adds env (\<lambda>c. ready_client env c \<and> fresh env (cb_transaction_id b) c) (batch_kinds b)
     (once (calls env Boxed_Commit (\<lambda>en. store_commit en b))) (\<lambda>_ _. True)"
proof (rule applied_adds)
  fix c r c' assume ok: "client_ok c" "\<not> has_transaction (store_of (cl_disk c)) (cb_transaction_id b)"
    and m: "calls env Boxed_Commit (\<lambda>en. store_commit en b) c = (r, c')"
  have "act (calls env Boxed_Commit (\<lambda>en. store_commit en b)) (\<lambda>_. ret ()) c = (forget r, c')"
    using m by (simp add: act_def forget_def ret_def split: sum.split)
  from commit_call_once [OF ok this] show "client_ok c' \<and> applied_once b (forget r) (cl_disk c) (cl_disk c')" .
qed simp

lemma ticks_settle: "ticks (settle_completion env b r)"
  unfolding settle_completion_def
  by (auto intro!: ticks_act split: sum.split CommitError.split TransactionRecovery.split)

lemma completion_adds:
  "adds env (\<lambda>c. ready_client env c \<and> fresh env (cb_transaction_id b) c) (batch_kinds b)
     (once (act (attempts env (\<lambda>en. store_commit en b)) (settle_completion env b))) (\<lambda>_ _. True)"
proof (rule applied_adds)
  fix c r c' assume ok: "client_ok c" "\<not> has_transaction (store_of (cl_disk c)) (cb_transaction_id b)"
    and m: "act (attempts env (\<lambda>en. store_commit en b)) (settle_completion env b) c = (r, c')"
  obtain q s w where com: "store_commit (we_engine env (cl_tick c)) b (cl_store c) (cl_disk c) = (q, s, w)" by (metis prod_cases3)
  let ?c1 = "c\<lparr>cl_tick := Suc (cl_tick c), cl_store := s, cl_disk := w\<rparr>"
  have "settle_completion env b q ?c1 = (r, c')" using m com by (simp add: act_def attempts_def take_answer_def)
  from settle_once [OF ok com _ _ this] show "client_ok c' \<and> applied_once b (forget r) (cl_disk c) (cl_disk c')"
    by (cases r) (simp_all add: forget_def)
qed (intro ticks_act ticks_attempts ticks_settle)

text \<open>Building a batch for one event and a status, and what is done with it.\<close>

lemma build_adds:
  assumes apart: "draws_apart env"
    and k: "\<And>b e p. cb_operations b = [] \<Longrightarrow> event_kind e = (s, ty) \<Longrightarrow>
      adds env (\<lambda>c. ready_client env c \<and> fresh env (cb_transaction_id b) c) xs (once (k b e p)) (\<lambda>_ _. True)"
  shows "adds env (ready_client env) xs
    (once (act (client_batch env) (\<lambda>b. act (client_event env s ty pl) (\<lambda>e. act (status_patch env i st) (\<lambda>p. k b e p))))) (\<lambda>_ _. True)"
proof -
  have event: "adds env (\<lambda>c. ready_client env c \<and> fresh env t c) [] (once (client_event env s ty pl))
      (\<lambda>e c. event_kind e = (s, ty) \<and> fresh env t c)" for t
    by (rule silent_fresh) (use client_event_Inr in \<open>auto simp: event_kind_def\<close>)
  have patch: "adds env (\<lambda>c. ready_client env c \<and> fresh env t c) [] (once (status_patch env i st)) (\<lambda>p c. True \<and> fresh env t c)" for t
    by (rule silent_fresh) simp_all
  have "adds env (ready_client env) ([] @ [] @ [] @ xs)
    (runs (once (client_batch env)) (\<lambda>b. runs (once (client_event env s ty pl)) (\<lambda>e. runs (once (status_patch env i st)) (\<lambda>p. once (k b e p)))))
    (\<lambda>_ _. True)"
  proof (rule adds_runs [OF client_batch_fresh [OF apart]])
    fix b
    show "adds env (\<lambda>c. ready_client env c \<and> cb_operations b = [] \<and> fresh env (cb_transaction_id b) c) ([] @ [] @ xs)
      (runs (once (client_event env s ty pl)) (\<lambda>e. runs (once (status_patch env i st)) (\<lambda>p. once (k b e p)))) (\<lambda>_ _. True)"
    proof (cases "cb_operations b = []")
      case True
      have "adds env (\<lambda>c. ready_client env c \<and> fresh env (cb_transaction_id b) c) ([] @ [] @ xs)
        (runs (once (client_event env s ty pl)) (\<lambda>e. runs (once (status_patch env i st)) (\<lambda>p. once (k b e p)))) (\<lambda>_ _. True)"
      proof (rule adds_runs [OF event])
        fix e
        show "adds env (\<lambda>c. ready_client env c \<and> event_kind e = (s, ty) \<and> fresh env (cb_transaction_id b) c) ([] @ xs)
          (runs (once (status_patch env i st)) (\<lambda>p. once (k b e p))) (\<lambda>_ _. True)"
        proof (cases "event_kind e = (s, ty)")
          case kind: True
          have "adds env (\<lambda>c. ready_client env c \<and> fresh env (cb_transaction_id b) c) ([] @ xs)
            (runs (once (status_patch env i st)) (\<lambda>p. once (k b e p))) (\<lambda>_ _. True)"
            by (rule adds_runs [OF patch]) (use k [OF True kind] in simp)
          then show ?thesis by (simp add: kind)
        qed (simp add: adds_def)
      qed
      then show ?thesis by (simp add: True)
    qed (simp add: adds_def)
  qed
  then show ?thesis by (simp add: once_act)
qed

end
