(* ===== verification/DrillProperties.thy ===== *)
theory DrillProperties
  imports DrillTriples
begin

text \<open>
  The program of the example as a whole: whatever the engine answers and wherever the run stops,
  the log of events is a prefix of the protocol, so every turn is requested, started and completed
  at most once and in this order.
\<close>

section \<open>The parts of the program\<close>

definition turn_event :: "str \<Rightarrow> str \<Rightarrow> str \<times> str" where
  "turn_event thread_id what = (stream_of thread_id, ''thread.'' @ what)"

lemma batch_parts [simp]:
  "cb_transaction_id (expect_stream_version b s v) = cb_transaction_id b" "cb_transaction_id (append_event b e) = cb_transaction_id b"
  "cb_transaction_id (apply_projection_patch b p) = cb_transaction_id b" "cb_transaction_id (enqueue_job b j) = cb_transaction_id b"
  "cb_transaction_id (acknowledge_job b i tok g) = cb_transaction_id b"
  "batch_kinds (expect_stream_version b s v) = batch_kinds b" "batch_kinds (append_event b e) = batch_kinds b @ [event_kind e]"
  "batch_kinds (apply_projection_patch b p) = batch_kinds b" "batch_kinds (enqueue_job b j) = batch_kinds b"
  "batch_kinds (acknowledge_job b i tok g) = batch_kinds b"
  by (simp_all add: expect_stream_version_def append_event_def apply_projection_patch_def enqueue_job_def acknowledge_job_def
      push_operation_def batch_kinds_def batch_events_def)

lemma batch_kinds_none: "cb_operations b = [] \<Longrightarrow> batch_kinds b = []"
  by (simp add: batch_kinds_def batch_events_def)

text \<open>A commit of the batch that was built, and the rest.\<close>

lemma commit_then:
  assumes "cb_transaction_id b' = cb_transaction_id b" and "batch_kinds b' = xs"
    and "\<And>u. adds env (ready_client env) ys (once (k u)) (\<lambda>_ _. True)"
  shows "adds env (\<lambda>c. ready_client env c \<and> fresh env (cb_transaction_id b) c) (xs @ ys)
    (once (act (calls env Boxed_Commit (\<lambda>en. store_commit en b')) k)) (\<lambda>_ _. True)"
proof -
  have "adds env (\<lambda>c. ready_client env c \<and> fresh env (cb_transaction_id b') c) (batch_kinds b' @ ys)
      (runs (once (calls env Boxed_Commit (\<lambda>en. store_commit en b'))) (\<lambda>u. once (k u))) (\<lambda>_ _. True)"
    by (rule adds_runs [OF commit_adds]) (use assms(3) in simp)
  then show ?thesis using assms(1,2) by (simp add: once_act)
qed

lemma silent_then:
  assumes "silent m" and "\<And>x. adds env (ready_client env) ys (once (k x)) (\<lambda>_ _. True)"
  shows "adds env (ready_client env) ys (once (act m k)) (\<lambda>_ _. True)"
proof -
  have "adds env (ready_client env) ([] @ ys) (runs (once m) (\<lambda>x. once (k x))) (\<lambda>_ _. True)"
    by (rule adds_runs [OF silent_adds [OF assms(1)]]) (use assms(2) in simp)
  then show ?thesis by (simp add: once_act)
qed

text \<open>The last commit of a part: nothing after it touches the file.\<close>

lemma commit_last:
  assumes "cb_transaction_id b' = cb_transaction_id b" and "batch_kinds b' = xs" and "\<And>u. silent (k u)"
  shows "adds env (\<lambda>c. ready_client env c \<and> fresh env (cb_transaction_id b) c) xs
    (once (act (calls env Boxed_Commit (\<lambda>en. store_commit en b')) k)) (\<lambda>_ _. True)"
  using commit_then [OF assms(1,2) silent_adds [OF assms(3)]] by simp

lemma start_turn_adds:
  assumes "draws_apart env"
  shows "adds env (ready_client env) [turn_event thread_id ''turn-started''] (once (start_turn env thread_id)) (\<lambda>_ _. True)"
  unfolding start_turn_def
proof (rule build_adds [OF assms])
  fix b :: CommitBatch and e p assume b: "cb_operations b = []" "event_kind e = (stream_of thread_id, ''thread.turn-started'')"
  have kinds: "batch_kinds (apply_projection_patch (append_event b e) p) = [turn_event thread_id ''turn-started'']"
    by (simp add: b batch_kinds_none turn_event_def)
  show "adds env (\<lambda>c. ready_client env c \<and> fresh env (cb_transaction_id b) c) [turn_event thread_id ''turn-started'']
      (once (act (calls env Boxed_Commit (\<lambda>en. store_commit en (apply_projection_patch (append_event b e) p)))
        (\<lambda>_. say (''[commit] thread.turn-started       threads/'' @ thread_id @ '' -> running'')))) (\<lambda>_ _. True)"
    by (rule commit_last [OF _ kinds silent_basic(3)]) (simp only: batch_parts)
qed

lemma request_turn_adds:
  assumes "draws_apart env"
  shows "adds env (ready_client env) [turn_event thread_id ''created'', turn_event thread_id ''turn-requested'']
    (once (request_turn env thread_id)) (\<lambda>_ _. True)"
  unfolding request_turn_def
proof (rule build_adds [OF assms], goal_cases)
  case first: (1 b e p)
  have kinds: "batch_kinds (apply_projection_patch (append_event (expect_stream_version b (stream_of thread_id) 0) e) p)
      = [turn_event thread_id ''created'']"
    by (simp add: first batch_kinds_none turn_event_def)
  have split: "[turn_event thread_id ''created'', turn_event thread_id ''turn-requested'']
      = [turn_event thread_id ''created''] @ [turn_event thread_id ''turn-requested'']" by simp
  show ?case
    unfolding split
  proof (rule commit_then [OF _ kinds], goal_cases)
    case (2 u)
    show ?case
    proof (rule silent_then [OF silent_basic(3)], rule silent_then [OF silent_basic(6)], rule build_adds [OF assms], goal_cases)
      case (1 u job_id b e p)
      have kinds: "batch_kinds (enqueue_job (apply_projection_patch (append_event (expect_stream_version b (stream_of thread_id) 1) e) p) j)
          = [turn_event thread_id ''turn-requested'']" for j
        by (simp add: 1 batch_kinds_none turn_event_def)
      show ?case
        by (rule commit_last [OF _ kinds silent_act [OF silent_basic(3) silent_basic(1)]]) (simp only: batch_parts)
    qed
  qed (simp only: batch_parts)
qed

lemma complete_turn_adds:
  assumes "draws_apart env"
  shows "adds env (ready_client env) [turn_event thread_id ''turn-completed''] (once (complete_turn env thread_id job)) (\<lambda>_ _. True)"
  unfolding complete_turn_def Let_def
proof (rule build_adds [OF assms], goal_cases)
  case (1 b e p)
  let ?b = "acknowledge_job (apply_projection_patch (append_event b e) p) (cj_job_id job) (cj_lease_token job) None"
  let ?say = "say (''[commit] thread.turn-completed     threads/'' @ thread_id @ '' -> idle, job acked'')"
  have kinds: "batch_kinds ?b = [turn_event thread_id ''turn-completed'']" by (simp add: 1 batch_kinds_none turn_event_def)
  have assoc: "act (attempts env (\<lambda>en. store_commit en ?b)) (\<lambda>r. act (settle_completion env ?b r) (\<lambda>_. k))
      = act (act (attempts env (\<lambda>en. store_commit en ?b)) (settle_completion env ?b)) (\<lambda>_. k)" for k :: "unit action"
    by (rule ext) (auto simp: act_def split: prod.splits sum.splits)
  have "adds env (\<lambda>c. ready_client env c \<and> fresh env (cb_transaction_id ?b) c) (batch_kinds ?b @ [])
      (runs (once (act (attempts env (\<lambda>en. store_commit en ?b)) (settle_completion env ?b))) (\<lambda>_. once ?say)) (\<lambda>_ _. True)"
    by (rule adds_runs [OF completion_adds]) (rule adds_weaken [OF silent_adds [OF silent_basic(3)]], simp)
  then show ?case unfolding assoc once_act [of _ "\<lambda>_. ?say"] kinds by (simp only: batch_parts append_Nil2)
qed

section \<open>Heartbeats and claims\<close>

lemma store_extend_outcome:
  assumes "client_ok c" and "store_extend_lease en i tok ms now (cl_store c) (cl_disk c) = (res, s', w')"
  shows "disk_ok w' \<and> migrated w' \<and> handle_ok s' \<and>
    (w' = cl_disk c \<or> (\<exists>io. extend_lease i tok ms now io (store_of (cl_disk c)) = (res, store_of w')))"
proof -
  note C = client_okD [OF assms(1)]
  note call = assms(2) [unfolded store_extend_lease_def]
  have "w' = cl_disk c \<or> (\<exists>io. extend_lease i tok ms now io (store_of (cl_disk c)) = (res, store_of w'))"
    by (rule lease_call.on_writer_cases [OF C(2) call]) auto
  then show ?thesis using lease_call.on_writer_step [OF C(1-3) call] by simp
qed

text \<open>A call that adds no event and keeps the accounts.\<close>

lemma unlogged_adds:
  assumes "ticks m" and "\<And>c r c'. client_ok c \<Longrightarrow> accounted env c \<Longrightarrow> m c = (r, c') \<Longrightarrow>
      client_ok c' \<and> account env (cl_tick c) (store_of (cl_disk c')) \<and> client_log c' = client_log c"
  shows "adds env (ready_client env) [] (once m) (\<lambda>_ _. True)"
  unfolding adds_def
proof (intro allI impI)
  fix c r c' assume P: "ready_client env c" and "once m c = Some (r, c')"
  then have m: "m c = (r, c')" by (simp add: once_def)
  have "client_ok c' \<and> account env (cl_tick c) (store_of (cl_disk c')) \<and> client_log c' = client_log c"
    using assms(2) [OF _ _ m] P by (simp add: ready_client_def)
  then show "\<exists>ys. client_log c' = client_log c @ ys \<and>
      (case r of Inl e \<Rightarrow> prefix ys [] | Inr x \<Rightarrow> ys = [] \<and> ready_client env c' \<and> True)"
    using account_mono ticksD [OF assms(1) m] by (auto simp: ready_client_def accounted_def split: sum.split)
qed

lemma extend_adds:
  "adds env (ready_client env) [] (once (calls env Boxed_Lease (\<lambda>en. store_extend_lease en i tok ms now))) (\<lambda>_ _. True)"
proof (rule unlogged_adds [OF ticks_calls])
  fix c r c' assume ok: "client_ok c" and acc: "accounted env c"
    and m: "calls env Boxed_Lease (\<lambda>en. store_extend_lease en i tok ms now) c = (r, c')"
  obtain q s w where call: "store_extend_lease (we_engine env (cl_tick c)) i tok ms now (cl_store c) (cl_disk c) = (q, s, w)"
    by (metis prod_cases3)
  have c': "c' = c\<lparr>cl_tick := Suc (cl_tick c), cl_store := s, cl_disk := w\<rparr>"
    using m unfolding calls_run [where f = "\<lambda>en. store_extend_lease en i tok ms now", OF call] by simp
  note out = store_extend_outcome [OF ok call]
  have "account env (cl_tick c) (store_of w) \<and> event_log (store_of w) = event_log (store_of (cl_disk c))"
    using out account_extend [OF client_okD(4) [OF ok]] acc by (auto simp: accounted_def)
  then show "client_ok c' \<and> account env (cl_tick c) (store_of (cl_disk c')) \<and> client_log c' = client_log c"
    using out by (simp add: c' client_ok_def client_log_def)
qed

lemma heartbeat_adds: "adds env (ready_client env) [] (once (heartbeat env job)) (\<lambda>_ _. True)"
  unfolding heartbeat_def
proof (rule silent_then [OF silent_basic(5)], rule silent_then, goal_cases)
  case (1 now)
  show ?case by (auto simp: settled_def split: sum.split)
next
  case (2 now expiry)
  show ?case
    unfolding once_act
    using adds_runs [OF adds_weaken [OF extend_adds] adds_weaken [OF silent_adds [OF silent_basic(3)]]] by fastforce
qed

lemma claim_answer_keeps:
  assumes "client_ok c" and "claim_answer env worker_id r c = (res, c')"
  shows "client_ok c' \<and> cl_disk c' = cl_disk c"
proof (cases r)
  case (Inl e)
  show ?thesis
  proof (cases "claim_unknown e")
    case True
    then show ?thesis using claim_answer_unknown [OF assms(1)] assms(2) Inl by (auto simp: claim_unknown_iff)
  next
    case False
    then show ?thesis using claim_answer_other(3) assms Inl by auto
  qed
next
  case (Inr out)
  then show ?thesis
    using assms claim_answer_other(1,2) claim_answer_committed [OF assms(1)] by (cases out) auto
qed

lemma ticks_claim_round: "ticks (claim_round env worker_id)"
proof -
  have "ticks (claim_recovered env r)" for r
    by (cases r) (auto simp: claim_recovered_def first_job_def intro!: ticks_act split: list.split)
  then have "ticks (claim_answer env worker_id r)" for r
    unfolding claim_answer_def
    by (auto simp: first_job_def intro!: ticks_act split: sum.split ClaimOutcome.split ClaimError.split list.split)
  then show ?thesis unfolding claim_round_def by (intro ticks_act) simp_all
qed

lemma claim_round_adds: "adds env (ready_client env) [] (once (claim_round env worker_id)) (\<lambda>_ _. True)"
proof (rule unlogged_adds [OF ticks_claim_round])
  fix c r c' assume ok: "client_ok c" and acc: "accounted env c" and m: "claim_round env worker_id c = (r, c')"
  show "client_ok c' \<and> account env (cl_tick c) (store_of (cl_disk c')) \<and> client_log c' = client_log c"
    using ok m
  proof (cases rule: claim_round_cases)
    case stopped
    then show ?thesis using acc by (simp add: accounted_def client_log_def)
  next
    case (asked n en req q s w c2)
    have "account env (cl_tick c) (store_of w) \<and> event_log (store_of w) = event_log (store_of (cl_disk c))"
      using store_claim_outcome [OF ok asked(3)] account_claim [OF client_okD(4) [OF ok] _ asked(2)] acc asked(1)
      by (auto simp: accounted_def)
    then show ?thesis using claim_answer_keeps [OF asked(4,6)] asked(5) by (simp add: client_log_def)
  qed
qed

lemma claim_one_adds: "adds env (ready_client env) [] (claim_one env worker_id) (\<lambda>_ _. True)"
proof -
  have "\<forall>r c'. y = (r, c') \<longrightarrow> ready_client env c \<longrightarrow> client_log c' = client_log c \<and> (\<forall>x. r = Inr x \<longrightarrow> ready_client env c')"
    if "claim_one env worker_id c = Some y" for c y
    using that
  proof (induction rule: claim_one.raw_induct [rotated, consumes 1])
    case (1 again env worker_id c y)
    obtain r c1 where round: "claim_round env worker_id c = (r, c1)" by fastforce
    show ?case
    proof (intro allI impI)
      fix res c' assume y: "y = (res, c')" and ok: "ready_client env c"
      have R: "client_log c1 = client_log c" "r = Inr x \<Longrightarrow> ready_client env c1" for x
        using claim_round_adds [unfolded adds_def, rule_format, OF ok, of worker_id r c1] round
        by (cases r; auto simp: once_def)+
      show "client_log c' = client_log c \<and> (\<forall>x. res = Inr x \<longrightarrow> ready_client env c')"
        using 1 R y round ok by (auto split: sum.splits option.splits)
    qed
  qed
  then show ?thesis unfolding adds_def by (fastforce split: sum.split)
qed

section \<open>The program\<close>

lemma store_of_None [simp]: "store_of None = empty_db"
  by (simp add: store_of_def file_of_def new_file_def)

lemma ready_sound: "ready_client env c \<Longrightarrow> sound env c"
  by (simp add: ready_client_def sound_def client_ok_def)

lemma client_open_adds: "adds env (sound env) [] (once (client_open env db)) (\<lambda>_ _. True)"
  unfolding adds_def
proof (intro allI impI)
  fix c r c' assume P: "sound env c" and "once (client_open env db) c = Some (r, c')"
  then have m: "client_open env db c = (r, c')" by (simp add: once_def)
  obtain q w where call: "store_open (we_engine env (cl_tick c)) db (cl_disk c) = (q, w)" by fastforce
  have disk: "disk_ok (cl_disk c)" using P by (simp add: sound_def)
  note step = builder_open_step [OF disk call [unfolded store_open_def]]
  have c': "cl_disk c' = w" "cl_tick c' = Suc (cl_tick c)" "\<And>x. r = Inr x \<Longrightarrow> q = Inr (cl_store c')"
    using m call by (auto simp: client_open_def act_def take_answer_def split: sum.splits)
  have "client_log c' = client_log c" using step c' by (simp add: client_log_def)
  moreover have "ready_client env c'" if "r = Inr x" for x
    using that P step c' account_mono [of env "cl_tick c" _ "Suc (cl_tick c)"]
    by (auto simp: ready_client_def client_ok_def sound_def accounted_def)
  ultimately show "\<exists>ys. client_log c' = client_log c @ ys \<and>
      (case r of Inl e \<Rightarrow> prefix ys [] | Inr x \<Rightarrow> ys = [] \<and> ready_client env c' \<and> True)"
    by (auto split: sum.split)
qed

text \<open>Sequences of parts, with nothing assumed of the value in between.\<close>

lemma adds_seq:
  assumes "adds env P xs m (\<lambda>_ _. True)" and "\<And>x. adds env (ready_client env) ys (k x) (\<lambda>_ _. True)"
  shows "adds env P (xs @ ys) (runs m k) (\<lambda>_ _. True)"
  by (rule adds_runs [OF assms(1)]) (rule adds_weaken [OF assms(2)], simp_all)

lemma adds_reopen: "adds env (sound env) xs m (\<lambda>_ _. True) \<Longrightarrow> adds env (ready_client env) xs m (\<lambda>_ _. True)"
  by (rule adds_weaken [OF _ ready_sound]) simp_all

lemma silent_status: "silent (say_status env i)"
proof -
  have "silent (attempts env (reading (\<lambda>en. store_projection_get en THREADS (str_bytes i))))"
    by (auto simp: silent_def store_projection_get_def intro!: leaves_file_attempt)
  then show ?thesis unfolding say_status_def thread_status_def by (intro silent_act) simp_all
qed

definition worked :: "str \<Rightarrow> (str \<times> str) list" where
  "worked thread_id = [turn_event thread_id ''turn-started'', turn_event thread_id ''turn-completed'']"

definition requested :: "str \<Rightarrow> (str \<times> str) list" where
  "requested thread_id = [turn_event thread_id ''created'', turn_event thread_id ''turn-requested'']"

lemma work_on_adds:
  assumes "draws_apart env"
  shows "adds env (ready_client env) (worked thread_id) (once (work_on env thread_id job)) (\<lambda>_ _. True)"
proof -
  have "adds env (ready_client env) ([] @ [turn_event thread_id ''turn-started''] @ [] @ [turn_event thread_id ''turn-completed''])
      (once (work_on env thread_id job)) (\<lambda>_ _. True)"
    unfolding work_on_def once_act call_provider_def
    by (intro adds_seq heartbeat_adds start_turn_adds complete_turn_adds silent_adds silent_basic assms)
  then show ?thesis by (simp add: worked_def)
qed

lemma open_request_adds:
  assumes "draws_apart env"
  shows "adds env (sound env) (requested thread_id) (once (act (client_open env db) (\<lambda>_. request_turn env thread_id))) (\<lambda>_ _. True)"
  using adds_seq [OF client_open_adds request_turn_adds [OF assms]] by (simp add: once_act requested_def)

lemma happy_path_adds:
  assumes "draws_apart env"
  shows "adds env (sound env) (requested ''t-100'' @ worked ''t-100'') (happy_path env db) (\<lambda>_ _. True)"
proof -
  have "adds env (ready_client env) (worked ''t-100'' @ [])
      (once (act (work_on env ''t-100'' j) (\<lambda>_. say_status env ''t-100''))) (\<lambda>_ _. True)" for j
    unfolding once_act by (intro adds_seq work_on_adds silent_adds silent_status assms)
  then have "adds env (ready_client env) (worked ''t-100'')
      (case x of (_, j) \<Rightarrow> once (act (work_on env ''t-100'' j) (\<lambda>_. say_status env ''t-100''))) (\<lambda>_ _. True)" for x :: "Id \<times> ClaimedJob"
    by (cases x) simp
  note rest = adds_seq [OF claim_one_adds this]
  show ?thesis
    unfolding happy_path_def
    using adds_seq [OF open_request_adds [OF assms] rest] by simp
qed

lemma crash_adds:
  assumes "draws_apart env"
  shows "adds env (sound env) (requested ''t-200'') (crash env db) (\<lambda>_ _. True)"
proof -
  have "adds env (ready_client env) []
      (case x of (tx, j) \<Rightarrow> once (act (say (f tx j)) (\<lambda>_. ret tx))) (\<lambda>_ _. True)" for x :: "Id \<times> ClaimedJob" and f
    by (cases x) (auto intro!: silent_adds silent_act)
  note rest = adds_seq [OF claim_one_adds this]
  show ?thesis
    unfolding crash_def
    using adds_seq [OF open_request_adds [OF assms] rest] by simp
qed

section \<open>Reopening the store\<close>

text \<open>What the recovery of a claim can hold, and what is done about it.\<close>

definition short :: "ClaimRecovery \<Rightarrow> bool" where
  "short r \<longleftrightarrow> (\<forall>cc. r = Recovered_Committed cc \<longrightarrow> length (cc_jobs cc) \<le> 1)"

definition recovered_log :: "ClaimRecovery \<Rightarrow> (str \<times> str) list" where
  "recovered_log r = (case r of Recovered_Committed cc \<Rightarrow> if cc_jobs cc = [] then [] else worked ''t-200'' | _ \<Rightarrow> [])"

lemma distinct_filter_key: "distinct (map f xs) \<Longrightarrow> length (filter (\<lambda>x. f x = k) xs) \<le> 1"
proof -
  assume d: "distinct (map f xs)"
  then have "distinct (filter (\<lambda>x. f x = k) xs)" by (simp add: distinct_map)
  moreover have "x = y" if "x \<in> set (filter (\<lambda>x. f x = k) xs)" "y \<in> set (filter (\<lambda>x. f x = k) xs)" for x y
    using d that by (auto simp: distinct_map inj_on_def)
  ultimately show ?thesis by (metis card_le_Suc0_iff_eq distinct_card finite_set One_nat_def)
qed

lemma recover_claim_short:
  assumes "jobs_ok d" and "distinct (claimants d)" and "recover_claim d t now = Inr r"
  shows "short r"
proof -
  have "length (receipts_of d t) \<le> 1"
    using distinct_filter_key [of cl_transaction_id "db_claim_receipts d" t] assms(2) by (simp add: receipts_of_def claimants_def)
  then have "length (filter (lease_current d now) (receipts_of d t)) \<le> 1" by (rule order_trans [OF length_filter_le])
  then show ?thesis
    using assms(3) recover_claim_eq [OF assms(1), of t now] by (auto simp: short_def split: if_splits)
qed

lemma recovery_adds:
  "adds env (ready_client env) [] (once (calls env Boxed_Recovery (\<lambda>en. store_recover_claim en i now))) (\<lambda>r _. short r)"
  unfolding adds_def
proof (intro allI impI)
  let ?m = "calls env Boxed_Recovery (\<lambda>en. store_recover_claim en i now)"
  fix c r c' assume P: "ready_client env c" and "once ?m c = Some (r, c')"
  then have m: "?m c = (r, c')" by (simp add: once_def)
  have ok: "client_ok c" using P by (simp add: ready_client_def)
  note C = client_okD [OF ok]
  note keep = claim_recovery_call [OF ok m] and tick = ticksD [OF ticks_calls m]
  obtain q s w where rec: "store_recover_claim (we_engine env (cl_tick c)) i now (cl_store c) (cl_disk c) = (q, s, w)"
    by (metis prod_cases3)
  obtain x where "store_connection (we_engine env (cl_tick c)) (cl_store c) (cl_disk c) = (x, s, w)" "w = cl_disk c"
    by (rule store_recover_claim_cases [OF C(2) rec])
  then have q: "q = Inr out \<Longrightarrow> recover_claim (store_of (cl_disk c)) i now = Inr out" for out
    using rec by (auto simp: store_recover_claim_def store_of_def split: sum.splits)
  have "r = (case q of Inl e \<Rightarrow> Inl (Boxed_Recovery e) | Inr x \<Rightarrow> Inr x)"
    using m unfolding calls_run [where f = "\<lambda>en. store_recover_claim en i now", OF rec] by simp
  then have "short out" if "r = Inr out" for out
    using that q recover_claim_short [OF store_okD(5) [OF C(4)]] P
    by (auto simp: ready_client_def accounted_def account_def split: sum.splits)
  then show "\<exists>ys. client_log c' = client_log c @ ys \<and>
      (case r of Inl e \<Rightarrow> prefix ys [] | Inr x \<Rightarrow> ys = [] \<and> ready_client env c' \<and> short x)"
    using keep P account_mono [OF _ tick] by (auto simp: ready_client_def accounted_def client_log_def split: sum.split)
qed

lemma recovered_adds:
  assumes apart: "draws_apart env" and short: "short r"
  shows "adds env (ready_client env) (recovered_log r) (once (recovered env r)) (\<lambda>_ _. True)"
proof (cases r)
  case (Recovered_Committed cc)
  show ?thesis
  proof (cases "cc_jobs cc")
    case Nil
    then show ?thesis
      using silent_adds [OF silent_act [OF silent_basic(4) silent_basic(3)]]
      by (simp add: recovered_def recovered_log_def Recovered_Committed claims_is_empty_def)
  next
    case (Cons j js)
    then have jobs: "cc_jobs cc = [j]" using short Recovered_Committed by (cases js) (auto simp: short_def)
    have "adds env (ready_client env) (worked ''t-200'' @ []) (once (work_on_all env ''t-200'' [j])) (\<lambda>_ _. True)"
      unfolding work_on_all.simps once_act by (intro adds_seq work_on_adds silent_adds silent_basic apart)
    then have "adds env (ready_client env) (worked ''t-200'') (once (work_on_all env ''t-200'' [j])) (\<lambda>_ _. True)" by simp
    note part = silent_then [OF silent_basic(4) silent_then [OF silent_basic(3) this]]
    show ?thesis
      unfolding recovered_def recovered_log_def Recovered_Committed ClaimRecovery.case claims_is_empty_def jobs
      using part by simp
  qed
qed (simp_all add: recovered_def recovered_log_def silent_adds)

definition ending :: "client_env \<Rightarrow> ClaimRecovery \<Rightarrow> unit action" where
  "ending env r =
     act (recovered env r) (\<lambda>_.
     act (say_status env ''t-200'') (\<lambda>_.
     act (calls env Boxed (reading (\<lambda>en. store_jobs en (Some QUEUE) (Some Succeeded) 10))) (\<lambda>succeeded.
     act (calls env Boxed (reading (\<lambda>en. store_events_after en 0 100))) (\<lambda>events.
     say (''[state]  '' @ show_nat (length succeeded) @ '' succeeded job(s) on queue '' @ QUEUE @ ''; ''
       @ show_nat (length events) @ '' event(s) total'')))))"

lemma ending_adds:
  assumes "draws_apart env" and "short r"
  shows "adds env (ready_client env) (recovered_log r) (once (ending env r)) (\<lambda>_ _. True)"
proof -
  have "silent (calls env Boxed (reading (\<lambda>en. store_jobs en (Some QUEUE) (Some Succeeded) 10)))"
    "silent (calls env Boxed (reading (\<lambda>en. store_events_after en 0 100)))"
    by (auto simp: store_jobs_def store_events_after_def intro!: silent_reading)
  then have "silent (act (say_status env ''t-200'') (\<lambda>_.
     act (calls env Boxed (reading (\<lambda>en. store_jobs en (Some QUEUE) (Some Succeeded) 10))) (\<lambda>succeeded.
     act (calls env Boxed (reading (\<lambda>en. store_events_after en 0 100))) (\<lambda>events. say (f succeeded events)))))" for f
    by (intro silent_act silent_status) simp_all
  from adds_seq [OF recovered_adds [OF assms] silent_adds [OF this]] show ?thesis
    by (simp add: ending_def once_act [of "recovered env r"])
qed

section \<open>The whole run\<close>

lemma runs_assoc: "runs (runs m k) l = runs m (\<lambda>x. runs (k x) l)"
  by (rule ext) (auto simp: runs_def split: option.split sum.split)

text \<open>A continuation that adds one thing or another.\<close>

lemma adds_choice:
  assumes first: "adds env P xs m Q" and rest: "\<And>x. \<exists>ys \<in> Y. adds env (\<lambda>c. ready_client env c \<and> Q x c) ys (k x) (\<lambda>_ _. True)"
    and P: "P c" and run: "runs m k c = Some (r, c')"
  shows "\<exists>ys \<in> Y. \<exists>zs. client_log c' = client_log c @ zs \<and> (case r of Inl e \<Rightarrow> prefix zs (xs @ ys) | Inr x \<Rightarrow> zs = xs @ ys)"
proof -
  obtain r1 c1 where m: "m c = Some (r1, c1)" using run by (auto simp: runs_def split: option.splits)
  define k' where "k' = (\<lambda>y. if Inr y = r1 then k y else (\<lambda>_. None))"
  obtain ys where ys: "ys \<in> Y"
    "adds env (\<lambda>c. ready_client env c \<and> Q (projr r1) c) ys (k (projr r1)) (\<lambda>_ _. True)"
    using rest [of "projr r1"] by blast
  have "adds env (\<lambda>c. ready_client env c \<and> Q x c) ys (k' x) (\<lambda>_ _. True)" for x
  proof (cases "r1 = Inr x")
    case True
    then show ?thesis using ys(2) by (simp add: k'_def)
  next
    case False
    then show ?thesis by (auto simp: k'_def adds_def)
  qed
  note both = adds_runs [OF first this]
  have "runs m k' c = Some (r, c')" using run m by (cases r1) (simp_all add: runs_def k'_def)
  from both [unfolded adds_def, rule_format, OF P this] show ?thesis
    using ys(1) by (auto intro!: bexI [of _ ys] split: sum.split)
qed

definition before_ending :: "client_env \<Rightarrow> str \<Rightarrow> ClaimRecovery run" where
  "before_ending env db =
     runs (happy_path env db) (\<lambda>_.
     runs (once (act (say []) (\<lambda>_. say ''=== failure drill: worker crash after claim, before ack ==='')))  (\<lambda>_.
     runs (crash env db) (\<lambda>claim_tx.
     once (act (client_open env db) (\<lambda>_.
       act (say (''[reopen] store reopened; recovering claim '' @ to_hex claim_tx)) (\<lambda>_.
       act (client_now env) (\<lambda>now.
       calls env Boxed_Recovery (\<lambda>en. store_recover_claim en claim_tx now))))))))"

lemma main_split:
  "synara_main env db = runs (once (say ''=== happy path: one provider turn ===''))
     (\<lambda>_. runs (before_ending env db) (\<lambda>r. once (ending env r)))"
  unfolding synara_main_def before_ending_def reopen_def ending_def once_act runs_assoc by (rule refl)

definition turn_protocol :: "str \<Rightarrow> (str \<times> str) list" where
  "turn_protocol thread_id = requested thread_id @ worked thread_id"

lemma before_ending_adds:
  assumes "draws_apart env"
  shows "adds env (sound env) (turn_protocol ''t-100'' @ requested ''t-200'') (before_ending env db) (\<lambda>r _. short r)"
proof -
  have "adds env (ready_client env) ([] @ [] @ [] @ [])
      (once (act (client_open env db) (\<lambda>_. act (say l) (\<lambda>_. act (client_now env) (\<lambda>now.
        calls env Boxed_Recovery (\<lambda>en. store_recover_claim en tx now)))))) (\<lambda>r _. short r)" for tx l
    unfolding once_act
    by (rule adds_runs [OF adds_reopen [OF client_open_adds]], rule adds_runs [OF adds_weaken [OF silent_adds [OF silent_basic(3)]]],
        simp, simp, rule adds_runs [OF adds_weaken [OF silent_adds [OF silent_basic(5)]]], simp, simp,
        rule adds_weaken [OF recovery_adds], simp_all)
  note last = this [simplified]
  have "adds env (ready_client env) (requested ''t-200'' @ []) (runs (crash env db) (\<lambda>tx. once (act (client_open env db) (\<lambda>_.
      act (say (f tx)) (\<lambda>_. act (client_now env) (\<lambda>now. calls env Boxed_Recovery (\<lambda>en. store_recover_claim en tx now)))))))
      (\<lambda>r _. short r)" for f
    by (rule adds_runs [OF adds_reopen [OF crash_adds [OF assms]]]) (rule adds_weaken [OF last], simp_all)
  note crash = this [simplified]
  have "adds env (ready_client env) ([] @ requested ''t-200'') (runs (once (act (say []) (\<lambda>_. say l)))
      (\<lambda>_. runs (crash env db) (\<lambda>tx. once (act (client_open env db) (\<lambda>_.
      act (say (f tx)) (\<lambda>_. act (client_now env) (\<lambda>now. calls env Boxed_Recovery (\<lambda>en. store_recover_claim en tx now))))))))
      (\<lambda>r _. short r)" for f l
    by (rule adds_runs [OF silent_adds [OF silent_act [OF silent_basic(3) silent_basic(3)]]]) (rule adds_weaken [OF crash], simp_all)
  note drill = this [simplified]
  have "adds env (sound env) ((requested ''t-100'' @ worked ''t-100'') @ requested ''t-200'') (before_ending env db) (\<lambda>r _. short r)"
    unfolding before_ending_def
    by (rule adds_runs [OF happy_path_adds [OF assms]]) (rule adds_weaken [OF drill], simp_all)
  then show ?thesis by (simp add: turn_protocol_def)
qed

section \<open>Termination\<close>

definition returns :: "(client \<Rightarrow> bool) \<Rightarrow> 'a run \<Rightarrow> bool" where
  "returns P m \<longleftrightarrow> (\<forall>c. P c \<longrightarrow> (\<exists>y. m c = Some y))"

lemma returns_once [simp]: "returns P (once m)"
  by (simp add: returns_def once_def)

lemma returns_runs:
  assumes "returns P m" and "adds env P xs m Q" and "\<And>x. returns (ready_client env) (k x)"
  shows "returns P (runs m k)"
  unfolding returns_def
proof (intro allI impI)
  fix c assume P: "P c"
  then obtain r c1 where m: "m c = Some (r, c1)" using assms(1) by (fastforce simp: returns_def)
  have "r = Inr x \<Longrightarrow> ready_client env c1" for x
    using assms(2) [unfolded adds_def, rule_format, OF P m] by auto
  then show "\<exists>y. runs m k c = Some y"
    using m assms(3) by (cases r) (auto simp: runs_def returns_def)
qed

lemma returns_claim_one: "answers_commits env \<Longrightarrow> returns (ready_client env) (claim_one env worker_id)"
  using claim_one_returns by (fastforce simp: returns_def ready_client_def)

lemma returns_sound: "returns (sound env) m \<Longrightarrow> returns (ready_client env) m"
  using ready_sound by (auto simp: returns_def)

lemma before_ending_returns:
  assumes "answers_commits env" and apart: "draws_apart env"
  shows "returns (sound env) (before_ending env db)"
proof -
  note claim = returns_claim_one [OF assms(1)]
  have claims: "returns (ready_client env) (runs (claim_one env worker_id) (\<lambda>(a, b). once (f a b)))" for worker_id f
    by (rule returns_runs [OF claim claim_one_adds]) auto
  have "returns (sound env) (happy_path env db)"
    unfolding happy_path_def by (rule returns_runs [OF returns_once open_request_adds [OF apart] claims])
  moreover have crash: "returns (sound env) (crash env db)"
    unfolding crash_def by (rule returns_runs [OF returns_once open_request_adds [OF apart] claims])
  ultimately show ?thesis
    unfolding before_ending_def
    by (intro returns_runs [OF _ happy_path_adds [OF apart]]
        returns_runs [OF returns_once silent_adds [OF silent_act [OF silent_basic(3) silent_basic(3)]]]
        returns_runs [OF returns_sound [OF crash] adds_reopen [OF crash_adds [OF apart]]] returns_once)
qed

lemma main_runs:
  assumes "sound env c"
  obtains c1 where "sound env c1" "client_log c1 = client_log c"
    "synara_main env db c = runs (before_ending env db) (\<lambda>r. once (ending env r)) c1"
proof -
  let ?c1 = "snd (say ''=== happy path: one provider turn ==='' c)"
  have "sound env ?c1" "client_log ?c1 = client_log c"
    using assms by (simp_all add: say_def sound_def accounted_def client_log_def)
  moreover have "synara_main env db c = runs (before_ending env db) (\<lambda>r. once (ending env r)) ?c1"
    unfolding main_split by (simp add: runs_def once_def say_def)
  ultimately show ?thesis using that by blast
qed

text \<open>
  C7: the program of the example, from a directory without a file, whatever the engine answers and
  wherever it stops: the events in the log are a prefix of the protocol of the first turn followed
  by that of the second, so each turn is requested, started and completed at most once, in order;
  when the program ends normally the first turn is completed, and the second is completed or, when
  recovery found no lease, only requested. It does end when no answer to a claim is left open.
\<close>

theorem main_in_order:
  assumes "draws_apart env" and "cl_disk c = None"
  shows "(synara_main env db c = Some (r, c') \<longrightarrow>
      prefix (client_log c') (turn_protocol ''t-100'' @ turn_protocol ''t-200'') \<and>
      (r = Inr () \<longrightarrow> client_log c' = turn_protocol ''t-100'' @ turn_protocol ''t-200'' \<or>
        client_log c' = turn_protocol ''t-100'' @ requested ''t-200'')) \<and>
    (answers_commits env \<longrightarrow> (\<exists>y. synara_main env db c = Some y))"
proof -
  have "sound env c"
    using assms(2) start_ok
    by (simp add: sound_def system_ok_def start_def accounted_def account_def claimants_def has_transaction_def empty_db_def)
  then obtain c1 where c1: "sound env c1" "client_log c1 = []"
    "synara_main env db c = runs (before_ending env db) (\<lambda>r. once (ending env r)) c1"
    using main_runs [of env c db] assms(2) by (auto simp: client_log_def event_log_def empty_db_def)
  let ?p = "turn_protocol ''t-100'' @ requested ''t-200''"
  have "\<exists>ys \<in> {[], worked ''t-200''}. adds env (\<lambda>c. ready_client env c \<and> short x) ys (once (ending env x)) (\<lambda>_ _. True)" for x
  proof (cases "short x")
    case True
    have "recovered_log x \<in> {[], worked ''t-200''}" by (auto simp: recovered_log_def split: ClaimRecovery.split)
    then show ?thesis using ending_adds [OF assms(1) True] True by auto
  qed (auto simp: adds_def)
  note run = adds_choice [OF before_ending_adds [OF assms(1)] this c1(1)]
  have "prefix (client_log c') (?p @ worked ''t-200'') \<and> (r = Inr () \<longrightarrow> client_log c' = ?p @ worked ''t-200'' \<or> client_log c' = ?p)"
    if "synara_main env db c = Some (r, c')"
    using run [of db r c'] that c1(2,3) by (cases r) (auto intro: prefix_order.trans)
  moreover have "answers_commits env \<longrightarrow> (\<exists>y. synara_main env db c = Some y)"
  proof
    assume "answers_commits env"
    then have "returns (sound env) (runs (before_ending env db) (\<lambda>r. once (ending env r)))"
      by (intro returns_runs [OF before_ending_returns [OF _ assms(1)] before_ending_adds [OF assms(1)] returns_once])
    then show "\<exists>y. synara_main env db c = Some y" using c1(1,3) by (simp add: returns_def)
  qed
  ultimately show ?thesis by (simp add: turn_protocol_def [of "''t-200''"])
qed

section \<open>A concrete run\<close>

text \<open>A healthy engine, and sources of identifiers that are used up before they repeat themselves.\<close>

definition drill_engine :: engine where
  "drill_engine = sample_engine\<lparr>en_entropy := (\<lambda>n. if n < 100 then Draw (as_bytes (id_from_u128 (of_nat (Suc n)))) else NoEntropy [])\<rparr>"

definition drill_env :: client_env where
  "drill_env = \<lparr>we_engine = (\<lambda>_. drill_engine), we_clock = (\<lambda>_. 21000000),
     we_ids = (\<lambda>n. if n < 1000 then Draw (as_bytes (id_from_u128 (of_nat (n + 200)))) else NoEntropy [])\<rparr>"

definition drill_start :: client where
  "drill_start = \<lparr>cl_store = sample_store, cl_disk = None, cl_tick = 0, cl_out = []\<rparr>"

lemma small_id: "0 < n \<Longrightarrow> n < 2000 \<Longrightarrow> id_new (Draw (as_bytes (id_from_u128 (of_nat n)))) = Inr (MkId (of_nat n))"
proof -
  assume n: "0 < n" "n < 2000"
  have "unat (of_nat n :: 128 word) = n" using n by (simp add: unat_of_nat)
  then have "(of_nat n :: 128 word) \<noteq> 0" using n by auto
  then show ?thesis using id_new_as_bytes [of "MkId (of_nat n)"] by (simp del: id_new.simps)
qed

lemma small_id_inject:
  assumes "a < 2000" and "b < 2000" and "(of_nat a :: 128 word) = of_nat b"
  shows "a = b"
proof -
  have "unat (of_nat a :: 128 word) = a" "unat (of_nat b :: 128 word) = b" using assms(1,2) by (simp_all add: unat_of_nat)
  then show ?thesis using assms(3) by metis
qed

lemma drill_ids: "id_new (we_ids drill_env n) = Inr i \<longleftrightarrow> n < 1000 \<and> i = MkId (of_nat (n + 200))"
  using small_id [of "n + 200"] by (auto simp: drill_env_def simp del: of_nat_add)

lemma drill_entropy: "id_new (en_entropy (we_engine drill_env m) n) = Inr i \<longleftrightarrow> n < 100 \<and> i = MkId (of_nat (Suc n))"
  using small_id [of "Suc n"] by (auto simp: drill_env_def drill_engine_def simp del: of_nat_Suc)

lemma drill_apart: "draws_apart drill_env"
  unfolding draws_apart_def
proof (intro allI impI notI)
  fix n i assume n: "id_new (we_ids drill_env n) = Inr i" and "i \<in> drawn drill_env n"
  then consider k where "k < n" "i = MkId (of_nat (k + 200))" | k where "k < 100" "i = MkId (of_nat (Suc k))"
    unfolding drawn_def drill_ids drill_entropy by auto
  then show False
  proof cases
    case (1 k)
    then show ?thesis using n small_id_inject [of "n + 200" "k + 200"] by (simp add: drill_ids del: of_nat_add)
  next
    case (2 k)
    then show ?thesis using n small_id_inject [of "n + 200" "Suc k"] by (simp add: drill_ids del: of_nat_add of_nat_Suc)
  qed
qed

theorem main_in_order_witness:
  "\<exists>r c'. synara_main drill_env ''db'' drill_start = Some (r, c') \<and>
     prefix (client_log c') (turn_protocol ''t-100'' @ turn_protocol ''t-200'')"
proof -
  have start: "cl_disk drill_start = None" by (simp add: drill_start_def)
  have "answers_commits drill_env"
    by (simp add: answers_commits_def drill_env_def drill_engine_def sample_engine_def healthy_def)
  then obtain r c' where "synara_main drill_env ''db'' drill_start = Some (r, c')"
    using main_in_order [OF drill_apart start, of "''db''"] by fastforce
  then show ?thesis using main_in_order [OF drill_apart start, of "''db''" r c'] by blast
qed

end
