(* ===== verification/Failpoints.thy ===== *)
theory Failpoints
  imports CommitGuarantees
begin

text \<open>
  \<open>store/failpoints.rs\<close>, the fault injection of test builds: a static flag that is armed by a test
  and consumed after the next \<open>COMMIT\<close>, whose durable outcome is then reported as unknown. The rest
  of the library models an armed flag as the field \<open>io_failpoint\<close>; here the flag is state.
\<close>

definition fail_next_commit :: "bool \<Rightarrow> bool" where
  "fail_next_commit armed = True"

text \<open>\<open>swap(false)\<close>: the old value, and the flag afterwards.\<close>

definition take_fail_commit :: "bool \<Rightarrow> bool \<times> bool" where
  "take_fail_commit armed = (armed, False)"

text \<open>Whether a commit gets past its \<open>COMMIT\<close>, where the flag is taken.\<close>

definition takes_failpoint :: "Limits \<Rightarrow> CommitBatch \<Rightarrow> io \<Rightarrow> db \<Rightarrow> bool" where
  "takes_failpoint l b io d \<longleftrightarrow>
     validate_batch l b = Inr () \<and> io_begin io = None \<and> lookup_transaction d (cb_transaction_id b) = None \<and>
     (case attempt_batch io b d of Inl e \<Rightarrow> False | Inr x \<Rightarrow> io_commit io = None)"

definition commit_armed ::
    "Limits \<Rightarrow> CommitBatch \<Rightarrow> io \<Rightarrow> bool \<Rightarrow> db \<Rightarrow> (CommitError + CommitReceipt) \<times> bool \<times> db" where
  "commit_armed l b io armed d =
     (case commit l b (io\<lparr>io_failpoint := fst (take_fail_commit armed)\<rparr>) d of
        (res, d') \<Rightarrow> (res, if takes_failpoint l b io d then snd (take_fail_commit armed) else armed, d'))"

lemma attempt_batch_failpoint [simp]: "attempt_batch (io\<lparr>io_failpoint := x\<rparr>) b d = attempt_batch io b d"
  by (simp add: attempt_batch_def)

text \<open>Where it is not taken, the flag makes no difference.\<close>

lemma not_taken:
  "\<not> takes_failpoint l b io d \<Longrightarrow> commit l b (io\<lparr>io_failpoint := x\<rparr>) d = commit l b (io\<lparr>io_failpoint := y\<rparr>) d"
  by (auto simp: takes_failpoint_def commit_def commit_step_def split: sum.splits option.splits)

lemma taken:
  assumes "takes_failpoint l b io d"
  obtains n new where "attempt_batch io b d = Inr (n, new)"
    "commit l b (io\<lparr>io_failpoint := False\<rparr>) d = (Inr \<lparr>rc_transaction_id = cb_transaction_id b,
       rc_transaction_sequence = i64_as_u64 n, rc_committed_at_ms = cb_committed_at_ms b\<rparr>, new)"
    "commit l b (io\<lparr>io_failpoint := True\<rparr>) d = (Inl (Commit_Indeterminate \<lparr>ic_transaction_id = cb_transaction_id b,
       ic_storage_error = ''failpoint: COMMIT outcome unknown''\<rparr>), new)"
  using assms that by (auto simp: takes_failpoint_def commit_def commit_step_def split: sum.splits)

text \<open>
  The flag is harmless and honest: it never changes what is stored, and only the commit that
  consumes it answers differently, with an unknown outcome that recovery resolves to the receipt
  that would have been returned.
\<close>

theorem failpoint_recoverable:
  assumes ok: "store_ok d" and armed: "commit_armed l b io armed d = (res, armed', d')"
  shows "\<exists>res0. commit l b (io\<lparr>io_failpoint := False\<rparr>) d = (res0, d') \<and>
    (res = res0 \<and> (armed' \<longrightarrow> armed) \<or>
     armed \<and> \<not> armed' \<and> (\<exists>rc. res0 = Inr rc \<and> recover_transaction d' (cb_transaction_id b) = Inr (Tx_Committed rc) \<and>
       res = Inl (Commit_Indeterminate \<lparr>ic_transaction_id = cb_transaction_id b,
         ic_storage_error = ''failpoint: COMMIT outcome unknown''\<rparr>)))"
proof (cases "takes_failpoint l b io d")
  case True
  then obtain n new where t: "attempt_batch io b d = Inr (n, new)"
    "commit l b (io\<lparr>io_failpoint := False\<rparr>) d = (Inr \<lparr>rc_transaction_id = cb_transaction_id b,
       rc_transaction_sequence = i64_as_u64 n, rc_committed_at_ms = cb_committed_at_ms b\<rparr>, new)"
    "commit l b (io\<lparr>io_failpoint := True\<rparr>) d = (Inl (Commit_Indeterminate \<lparr>ic_transaction_id = cb_transaction_id b,
       ic_storage_error = ''failpoint: COMMIT outcome unknown''\<rparr>), new)"
    by (rule taken)
  have "recover_transaction new (cb_transaction_id b) = Inr (Tx_Committed \<lparr>rc_transaction_id = cb_transaction_id b,
       rc_transaction_sequence = i64_as_u64 n, rc_committed_at_ms = cb_committed_at_ms b\<rparr>)"
    using lookup_after_write [OF ok conjunct2 [OF attempt_batch_Inr [OF t(1)]]] by (simp add: recover_as_lookup)
  then show ?thesis
    using armed True t(2,3) by (cases armed) (auto simp: commit_armed_def take_fail_commit_def)
next
  case False
  then show ?thesis
    using armed not_taken [OF False, of False armed]
    by (auto simp: commit_armed_def take_fail_commit_def split: prod.splits)
qed

text \<open>Armed once, it fails one commit: the next one is answered as if there were no failpoint.\<close>

theorem failpoint_once:
  assumes "commit_armed l b io (fail_next_commit armed) d = (Inl (Commit_Indeterminate i), armed', d')"
    and "io_commit io = None"
  shows "\<not> armed' \<and> commit_armed l b' io' armed' d' = (case commit l b' (io'\<lparr>io_failpoint := False\<rparr>) d' of (r, d'') \<Rightarrow> (r, False, d''))"
proof -
  have "takes_failpoint l b io d"
  proof (rule ccontr)
    assume "\<not> takes_failpoint l b io d"
    then show False
      using assms attempt_batch_definite [of io b d]
      by (auto simp: commit_armed_def takes_failpoint_def commit_def take_fail_commit_def split: sum.splits option.splits prod.splits if_splits)
  qed
  then have "\<not> armed'" using assms(1) by (auto simp: commit_armed_def take_fail_commit_def split: prod.splits)
  then show ?thesis by (simp add: commit_armed_def take_fail_commit_def split: prod.split)
qed

end
