(* ===== verification/CommitEffect.thy ===== *)
theory CommitEffect
  imports CommitGuarantees
begin

text \<open>
  What a commit does to the contents of a store, as the effects of its operations one after the
  other: an abstract store of events in log order, projections as maps, job rows and claim
  receipts, and the lemma that every operation of the pipeline refines its effect on it.
\<close>

section \<open>The abstract store\<close>

record contents =
  ab_events :: "Event list"
  ab_projections :: "str \<Rightarrow> bytes \<Rightarrow> bytes option"
  ab_versions :: "str \<Rightarrow> u64"
  ab_jobs :: "JobRow list"
  ab_receipts :: "ReceiptRow list"

definition contents_of :: "db \<Rightarrow> contents" where
  "contents_of d =
     \<lparr>ab_events = map row_event (db_events d), ab_projections = projection_map d,
      ab_versions = version_of (db_projection_meta d), ab_jobs = db_jobs d,
      ab_receipts = db_claim_receipts d\<rparr>"

text \<open>The row of one job is replaced by what its transition makes of it.\<close>

definition decide :: "(JobRow \<Rightarrow> Error + JobRow) \<Rightarrow> Id \<Rightarrow> contents \<Rightarrow> contents" where
  "decide transition i c = c\<lparr>ab_jobs := map (\<lambda>r. if jr_job_id r = i
     then (case transition r of Inl _ \<Rightarrow> r | Inr r' \<Rightarrow> r') else r) (ab_jobs c)\<rparr>"

fun effect :: "CommitBatch \<Rightarrow> Operation \<Rightarrow> contents \<Rightarrow> contents" where
  "effect b (AppendEvent e) c = c\<lparr>ab_events := ab_events c @ [e]\<rparr>"
| "effect b (ProjectionPatch p) c =
     c\<lparr>ab_projections := (ab_projections c)(pp_projection p :=
         fold mutate (pp_mutations p) (ab_projections c (pp_projection p))),
       ab_versions := (ab_versions c)(pp_projection p := pp_new_version p)\<rparr>"
| "effect b (EnqueueJob s) c =
     c\<lparr>ab_jobs := ab_jobs c @ [new_job_row (cb_transaction_id b) s (int (length (ab_jobs c)) + 1)]\<rparr>"
| "effect b (AckJob a) c = decide (ack_row (cb_transaction_id b) (cb_committed_at_ms b) a) (ack_job_id a) c"
| "effect b (FailJob f) c = decide (fail_row (cb_transaction_id b) (cb_committed_at_ms b) f) (jf_job_id f) c"
| "effect b (CancelJob j) c = decide (cancel_row (cb_transaction_id b) (cb_committed_at_ms b) j) (jc_job_id j) c"
| "effect b (ResolveJob r) c =
     decide (resolve_row (cb_transaction_id b) (cb_committed_at_ms b) r) (jres_job_id r) c"
| "effect b (ExtendLease x) c =
     c\<lparr>ab_jobs := map (\<lambda>r. if jr_job_id r = le_job_id x
         then r\<lparr>jr_lease_expires_at_ms := Some (le_new_expiry_ms x)\<rparr> else r) (ab_jobs c),
       ab_receipts := extend_receipts (le_job_id x) (le_lease_token x) (le_new_expiry_ms x) (ab_receipts c)\<rparr>"

section \<open>Refinement\<close>

lemma update_rows_unique:
  assumes "rows_ok rows" and "r \<in> set rows"
  shows "update_rows (jr_job_id r) (\<lambda>_. f r) rows = map (\<lambda>x. if jr_job_id x = jr_job_id r then f x else x) rows"
  unfolding update_rows_def using rows_ok_unique [OF assms(1) _ assms(2)] by auto

text \<open>A step on the jobs keeps the rest of the contents.\<close>

lemma jobs_contents:
  assumes "only_jobs d d'"
  shows "contents_of d' = (contents_of d)\<lparr>ab_jobs := db_jobs d', ab_receipts := db_claim_receipts d'\<rparr>"
  using only_jobsD [OF assms] by (simp add: contents_of_def projection_map_def fun_eq_iff)

context row_operation begin

lemma on_job_decides:
  assumes "jobs_ok d" and "on_job step i d = Inr d'"
  shows "contents_of d' = decide step i (contents_of d)"
proof -
  obtain r r' where r: "r \<in> set (db_jobs d)" "jr_job_id r = i" "step r = Inr r'" "row_step r r'" "d' = put_row r' d"
    by (rule on_job_InrD [OF assms])
  have rows: "rows_ok (db_jobs d)" using assms(1) by (simp add: jobs_ok_def)
  have "jr_job_id r' = i" using same_jobD(1) [OF row_stepD(1) [OF r(4)]] r(2) by simp
  then have "db_jobs d' = map (\<lambda>x. if jr_job_id x = i then (case step x of Inl _ \<Rightarrow> x | Inr y \<Rightarrow> y) else x) (db_jobs d)"
    using update_rows_unique [OF rows r(1), of "\<lambda>x. case step x of Inl _ \<Rightarrow> x | Inr y \<Rightarrow> y"] r(2,3) by (simp add: r(5))
  moreover have "db_claim_receipts d' = db_claim_receipts d" by (simp add: r(5))
  ultimately show ?thesis
    using jobs_contents [OF on_job_frame [OF assms]] by (simp add: decide_def contents_of_def)
qed

end

lemma patch_effect:
  assumes "projections_ok d" and "apply_patch p d = Inr d'"
  shows "contents_of d' = effect b (ProjectionPatch p) (contents_of d)"
proof -
  have P: "projection_version d' (pp_projection p) = Inr (pp_new_version p)"
    "projection_map d' (pp_projection p) = fold mutate (pp_mutations p) (projection_map d (pp_projection p))"
    "only_projection (pp_projection p) d d'"
    using apply_patch_outcome [OF assms(1), of p] assms(2) by simp_all
  have "projection_map d' q = projection_map d q \<and> version_of (db_projection_meta d') q = version_of (db_projection_meta d) q"
    if "q \<noteq> pp_projection p" for q
    using P(3) that by (simp add: only_projection_def version_of_def)
  then have "projection_map d' = (projection_map d)(pp_projection p := fold mutate (pp_mutations p) (projection_map d (pp_projection p)))"
    "version_of (db_projection_meta d') = (version_of (db_projection_meta d))(pp_projection p := pp_new_version p)"
    using P(1,2) by (auto simp: fun_eq_iff projection_version_def version_query_def)
  then show ?thesis using only_projectionD [OF P(3)] by (simp add: contents_of_def)
qed

lemma extend_effect:
  assumes "jobs_ok d" and "apply_extend_lease x now d = Inr (rc, d')"
  shows "contents_of d' = effect b (ExtendLease x) (contents_of d)"
proof -
  have rows: "rows_ok (db_jobs d)" using assms(1) by (simp add: jobs_ok_def)
  obtain r where r: "r \<in> set (db_jobs d)" "jr_job_id r = le_job_id x"
    "d' = d\<lparr>db_jobs := update_rows (jr_job_id r) (\<lambda>_. r\<lparr>jr_lease_expires_at_ms := Some (le_new_expiry_ms x)\<rparr>) (db_jobs d),
            db_claim_receipts := extend_receipts (le_job_id x) (le_lease_token x) (le_new_expiry_ms x) (db_claim_receipts d)\<rparr>"
    by (rule apply_extend_lease_InrD [OF assms])
  have "only_jobs d d'" by (simp add: r(3) only_jobs_def)
  then show ?thesis
    using jobs_contents update_rows_unique [OF rows r(1), of "\<lambda>r. r\<lparr>jr_lease_expires_at_ms := Some (le_new_expiry_ms x)\<rparr>"] r(2,3)
    by (simp add: contents_of_def)
qed

lemma operation_refines:
  assumes "loop_ok (cb_transaction_id b) (versions, d)" and "run_operation b op (versions, d) = Inr (versions', d')"
  shows "contents_of d' = effect b op (contents_of d)"
proof -
  have inner: "jobs_ok d" "projections_ok d" using assms(1) by (simp_all add: loop_ok_def)
  note on_job = apply_ack_on_job [OF inner(1)] apply_fail_on_job [OF inner(1)] apply_cancel_on_job [OF inner(1)]
    apply_resolve_on_job [OF inner(1)]
  note decides = ack.on_job_decides [OF inner(1)] failure.on_job_decides [OF inner(1)]
    cancel.on_job_decides [OF inner(1)] resolve.on_job_decides [OF inner(1)]
  show ?thesis
  proof (cases op)
    case (AppendEvent e)
    then obtain v where "insert_event (cb_transaction_id b) e v d = Inr d'"
      using assms(2) by (auto simp: and_then_Inr_iff Let_def)
    then show ?thesis
      by (auto simp: AppendEvent insert_event_def insert_event_row_Inr contents_of_def projection_map_def
          row_event_def persisted_def)
  next
    case (ProjectionPatch p)
    then show ?thesis using assms(2) patch_effect [OF inner(2), of p] by (auto simp: and_then_Inr_iff)
  next
    case (EnqueueJob s)
    then have enq: "apply_enqueue (cb_transaction_id b) s d = Inr d'"
      using assms(2) by (auto simp: and_then_Inr_iff)
    note D = apply_enqueue_InrD(5) [OF inner(1) enq]
    have "only_jobs d d'" using apply_enqueue_step [OF inner(1) enq] by (simp add: jobs_step_def)
    then show ?thesis using jobs_contents by (simp add: EnqueueJob D contents_of_def)
  next
    case (ExtendLease x)
    then show ?thesis using assms(2) extend_effect [OF inner(1), of x] by (auto simp: and_then_Inr_iff)
  qed (use assms(2) in \<open>auto simp: and_then_Inr_iff on_job dest: decides\<close>)
qed

lemma operations_refine:
  assumes "loop_ok (cb_transaction_id b) s" and "fold_res (run_operation b) ops s = Inr s'"
  shows "contents_of (snd s') = fold (effect b) ops (contents_of (snd s))"
  using assms
proof (induction ops arbitrary: s)
  case (Cons op ops)
  then obtain s1 where s1: "run_operation b op s = Inr s1" "fold_res (run_operation b) ops s1 = Inr s'"
    by (auto simp: and_then_Inr_iff)
  have "contents_of (snd s1) = effect b op (contents_of (snd s))"
    using operation_refines [of b "fst s" "snd s" op "fst s1" "snd s1"] Cons.prems(1) s1(1) by simp
  moreover have "loop_ok (cb_transaction_id b) s1"
    using loop_step [OF Cons.prems(1) s1(1)] by simp
  ultimately show ?case using Cons.IH [OF _ s1(2)] by simp
qed simp

lemma write_batch_refines:
  assumes "store_ok d" and "write_batch b d = Inr (n, d')"
  shows "contents_of d' = fold (effect b) (cb_operations b) (contents_of d)"
proof -
  let ?d1 = "d\<lparr>db_transactions := db_transactions d @ [batch_row b n]\<rparr>"
  obtain versions versions2 d2 where loop: "loop_ok (cb_transaction_id b) (versions, ?d1)"
    "fold_res (run_operation b) (cb_operations b) (versions, ?d1) = Inr (versions2, d2)"
    and d': "d' = upsert_streams versions2 d2"
    by (rule write_batch_loop [OF assms])
  have "contents_of d' = contents_of d2" "contents_of ?d1 = contents_of d"
    by (simp_all add: contents_of_def projection_map_def fun_eq_iff d')
  then show ?thesis using operations_refine [OF loop] by simp
qed

section \<open>What a commit writes\<close>

lemma numbered_rest:
  "map g (xs @ ys) = [1..int (length (xs @ ys))] \<Longrightarrow>
     map g ys = [int (length xs) + 1..int (length xs) + int (length ys)]"
proof (induction ys rule: rev_induct)
  case (snoc y ys)
  note split = numbered_snocD [of g "xs @ ys" y]
  have "map g ys = [int (length xs) + 1..int (length xs) + int (length ys)]" "g y = int (length xs) + int (length ys) + 1"
    using snoc split by simp_all
  moreover have "[int (length xs) + 1..int (length xs) + int (length ys) + 1]
      = [int (length xs) + 1..int (length xs) + int (length ys)] @ [int (length xs) + int (length ys) + 1]"
    by (subst upto_rec2) simp_all
  ultimately show ?case by (simp add: algebra_simps)
qed simp

text \<open>The event rows a well-formed store has gained are numbered on from those it had.\<close>

lemma appended_rows:
  assumes "store_ok d" and "store_ok d'" and "db_events d' = db_events d @ rows"
  shows "map er_global_sequence rows
      = [int (length (db_events d)) + 1..int (length (db_events d)) + int (length rows)]"
    and "map er_stream_version (in_stream s rows)
      = [int (stream_count d s) + 1..int (stream_count d s) + int (length (in_stream s rows))]"
proof -
  note ev = events_okD [OF store_okD(2) [OF assms(2)]]
  show "map er_global_sequence rows
      = [int (length (db_events d)) + 1..int (length (db_events d)) + int (length rows)]"
    using ev(1) unfolding assms(3) by (rule numbered_rest)
  have "map er_stream_version (in_stream s (db_events d) @ in_stream s rows)
      = [1..int (length (in_stream s (db_events d) @ in_stream s rows))]"
    using ev(4) [of s] by (simp add: assms(3) stream_count_def)
  from numbered_rest [OF this] show "map er_stream_version (in_stream s rows)
      = [int (stream_count d s) + 1..int (stream_count d s) + int (length (in_stream s rows))]"
    by (simp add: stream_count_def)
qed



end
